(* ===== verification/Prelude.thy ===== *)
theory Prelude
  imports Main "HOL-Library.Word" "HOL-Library.AList"
begin

text \<open>
  Shared vocabulary of the development: Go errors as a datatype, Go functions that call the
  Kubernetes API as state-passing programs over an abstract world \<open>'w\<close>, Go maps (with their
  \<open>nil\<close> value) as optional association lists, and the proof rules that the component
  theories use to run a program step by step (\<open>go_simps\<close>, \<open>go_elims\<close>) and to show
  what a program never touches (\<open>steps\<close>).
\<close>

section \<open>Errors\<close>

text \<open>
  The error values the controller distinguishes: the API status reasons it tests for
  (\<open>errors.IsNotFound\<close>, \<open>errors.IsConflict\<close>), any other API error, errors made by
  \<open>fmt.Errorf\<close> without and with \<open>%w\<close>, and the aggregate that
  \<open>cleanupSharedPostgreSQLInstance\<close> builds.
\<close>

datatype go_error =
    NotFound
  | Conflict
  | AlreadyExists
  | ApiError string
  | ErrorString string
  | Wrapf string go_error
  | CleanupErrors "go_error list"

text \<open>\<open>errors.IsNotFound\<close> and \<open>errors.IsConflict\<close> look through wrapped errors.\<close>

fun is_not_found :: "go_error \<Rightarrow> bool" where
  "is_not_found NotFound = True"
| "is_not_found (Wrapf _ e) = is_not_found e"
| "is_not_found _ = False"

fun is_conflict :: "go_error \<Rightarrow> bool" where
  "is_conflict Conflict = True"
| "is_conflict (Wrapf _ e) = is_conflict e"
| "is_conflict _ = False"

text \<open>\<open>client.IgnoreNotFound\<close>: \<open>None\<close> is Go's \<open>nil\<close> error.\<close>

definition IgnoreNotFound :: "go_error \<Rightarrow> go_error option" where
  "IgnoreNotFound e = (if is_not_found e then None else Some e)"

section \<open>Programs\<close>

text \<open>
  The outcome of a Go call that returns a value and an error: a value with a \<open>nil\<close> error, an
  error, or a run-time panic. A program maps a world to an outcome and the next world.
\<close>

datatype 'a result = Ok 'a | Err go_error | Panic string

type_synonym ('w, 'a) prog = "'w \<Rightarrow> 'a result \<times> 'w"

definition ret :: "'a \<Rightarrow> ('w, 'a) prog" where
  "ret x = (\<lambda>w. (Ok x, w))"

definition fail :: "go_error \<Rightarrow> ('w, 'a) prog" where
  "fail e = (\<lambda>w. (Err e, w))"

definition crash :: "string \<Rightarrow> ('w, 'a) prog" where
  "crash s = (\<lambda>w. (Panic s, w))"

text \<open>
  \<open>on_error m h k\<close> is \<open>x, err := m; if err != nil { h }; k\<close>; a panic unwinds through it.
  \<open>and_then m k\<close> is the common case \<open>if err != nil { return err }\<close>, and
  \<open>wrapping msg m\<close> the case \<open>return fmt.Errorf("msg: %w", err)\<close>.
\<close>

definition on_error ::
  "('w, 'a) prog \<Rightarrow> (go_error \<Rightarrow> ('w, 'b) prog) \<Rightarrow> ('a \<Rightarrow> ('w, 'b) prog) \<Rightarrow> ('w, 'b) prog" where
  "on_error m h k = (\<lambda>w. case m w of (r, w1) \<Rightarrow>
     (case r of Ok a \<Rightarrow> k a w1 | Err e \<Rightarrow> h e w1 | Panic s \<Rightarrow> (Panic s, w1)))"

definition and_then :: "('w, 'a) prog \<Rightarrow> ('a \<Rightarrow> ('w, 'b) prog) \<Rightarrow> ('w, 'b) prog" where
  "and_then m k = on_error m fail k"

definition wrapping :: "string \<Rightarrow> ('w, 'a) prog \<Rightarrow> ('w, 'a) prog" where
  "wrapping msg m = on_error m (\<lambda>e. fail (Wrapf msg e)) ret"

text \<open>The result of \<open>m\<close> is thrown away, as in a call statement whose error nobody reads.\<close>

definition ignoring :: "('w, 'a) prog \<Rightarrow> ('w, unit) prog" where
  "ignoring m = on_error m (\<lambda>_. ret ()) (\<lambda>_. ret ())"

named_theorems go_simps "evaluation of programs on a given world"
named_theorems go_elims "inversion of a program's run"

lemma ret_run [simp, go_simps]: "ret x w = (Ok x, w)"
  by (simp add: ret_def)

lemma ret_Ok [go_elims]:
  "\<lbrakk>ret x w = (Ok y, w'); \<lbrakk>y = x; w' = w\<rbrakk> \<Longrightarrow> thesis\<rbrakk> \<Longrightarrow> thesis"
  by simp

lemma fail_run [simp, go_simps]: "fail e w = (Err e, w)"
  by (simp add: fail_def)

lemma crash_run [simp, go_simps]: "crash s w = (Panic s, w)"
  by (simp add: crash_def)

lemma on_error_run [go_simps]:
  "m w = (Ok a, w1) \<Longrightarrow> on_error m h k w = k a w1"
  "m w = (Err e, w1) \<Longrightarrow> on_error m h k w = h e w1"
  "m w = (Panic s, w1) \<Longrightarrow> on_error m h k w = (Panic s, w1)"
  by (simp_all add: on_error_def)

lemma and_then_run [go_simps]:
  "m w = (Ok a, w1) \<Longrightarrow> and_then m k w = k a w1"
  "m w = (Err e, w1) \<Longrightarrow> and_then m k w = (Err e, w1)"
  "m w = (Panic s, w1) \<Longrightarrow> and_then m k w = (Panic s, w1)"
  by (simp_all add: and_then_def on_error_def)

lemma wrapping_run [go_simps]:
  "m w = (Ok a, w1) \<Longrightarrow> wrapping msg m w = (Ok a, w1)"
  "m w = (Err e, w1) \<Longrightarrow> wrapping msg m w = (Err (Wrapf msg e), w1)"
  "m w = (Panic s, w1) \<Longrightarrow> wrapping msg m w = (Panic s, w1)"
  by (simp_all add: wrapping_def on_error_def)

lemma ignoring_run [go_simps]:
  "m w = (Ok a, w1) \<Longrightarrow> ignoring m w = (Ok (), w1)"
  "m w = (Err e, w1) \<Longrightarrow> ignoring m w = (Ok (), w1)"
  "m w = (Panic s, w1) \<Longrightarrow> ignoring m w = (Panic s, w1)"
  by (simp_all add: ignoring_def on_error_def)

lemma on_error_cases [consumes 1, case_names ok err panic]:
  assumes "on_error m h k w = (r, w')"
  obtains a w1 where "m w = (Ok a, w1)" and "k a w1 = (r, w')"
  | e w1 where "m w = (Err e, w1)" and "h e w1 = (r, w')"
  | s where "m w = (Panic s, w')" and "r = Panic s"
  using assms by (auto simp: on_error_def split: prod.splits result.splits)

lemma and_then_cases [consumes 1, case_names ok err panic]:
  assumes "and_then m k w = (r, w')"
  obtains a w1 where "m w = (Ok a, w1)" and "k a w1 = (r, w')"
  | e where "m w = (Err e, w')" and "r = Err e"
  | s where "m w = (Panic s, w')" and "r = Panic s"
  using assms by (auto simp: and_then_def on_error_def split: prod.splits result.splits)

lemma and_then_Ok [go_elims]:
  assumes "and_then m k w = (Ok b, w')"
  obtains a w1 where "m w = (Ok a, w1)" and "k a w1 = (Ok b, w')"
  using assms by (cases rule: and_then_cases) auto

lemma on_error_Ok [go_elims]:
  assumes "on_error m h k w = (Ok b, w')"
  obtains a w1 where "m w = (Ok a, w1)" and "k a w1 = (Ok b, w')"
  | e w1 where "m w = (Err e, w1)" and "h e w1 = (Ok b, w')"
  using assms by (cases rule: on_error_cases) auto

lemma wrapping_Ok [simp]: "wrapping msg m w = (Ok a, w') \<longleftrightarrow> m w = (Ok a, w')"
  by (auto simp: wrapping_def on_error_def split: prod.splits result.splits)

lemma ignoring_result: "ignoring m w = (r, w') \<Longrightarrow> r = Ok () \<or> (\<exists>s. r = Panic s)"
  by (auto simp: ignoring_def on_error_def split: prod.splits result.splits)

subsection \<open>What a program may do to the world\<close>

text \<open>
  \<open>steps R m\<close>: every run of \<open>m\<close>, whatever its outcome, leads from a world to one related
  by \<open>R\<close>. With a reflexive and transitive \<open>R\<close> it follows the structure of the program, so
  frame conditions and invariants are shown by one rule per construct.
\<close>

definition steps :: "('w \<Rightarrow> 'w \<Rightarrow> bool) \<Rightarrow> ('w, 'a) prog \<Rightarrow> bool" where
  "steps R m \<longleftrightarrow> (\<forall>w. R w (snd (m w)))"

definition preorder_rel :: "('w \<Rightarrow> 'w \<Rightarrow> bool) \<Rightarrow> bool" where
  "preorder_rel R \<longleftrightarrow> reflp R \<and> transp R"

named_theorems steps_rules "a program only makes steps of a relation"

lemma preorder_relI [intro?]:
  "\<lbrakk>\<And>w. R w w; \<And>a b c. R a b \<Longrightarrow> R b c \<Longrightarrow> R a c\<rbrakk> \<Longrightarrow> preorder_rel R"
  by (auto simp: preorder_rel_def intro: reflpI transpI)

lemma steps_run: "steps R m \<Longrightarrow> m w = (r, w') \<Longrightarrow> R w w'"
  by (auto simp: steps_def dest: spec [where x = w])

lemma stepsI: "(\<And>w r w'. m w = (r, w') \<Longrightarrow> R w w') \<Longrightarrow> steps R m"
  by (metis steps_def prod.collapse)

lemma steps_ret [steps_rules]: "preorder_rel R \<Longrightarrow> steps R (ret x)"
  by (auto simp: steps_def preorder_rel_def reflp_def)

lemma steps_fail [steps_rules]: "preorder_rel R \<Longrightarrow> steps R (fail e)"
  by (auto simp: steps_def preorder_rel_def reflp_def)

lemma steps_crash [steps_rules]: "preorder_rel R \<Longrightarrow> steps R (crash e)"
  by (auto simp: steps_def preorder_rel_def reflp_def)

lemma steps_on_error [steps_rules]:
  assumes R: "preorder_rel R" and m: "steps R m"
    and h: "\<And>e. steps R (h e)" and k: "\<And>a. steps R (k a)"
  shows "steps R (on_error m h k)"
proof (rule stepsI)
  have trans: "\<And>a b c. R a b \<Longrightarrow> R b c \<Longrightarrow> R a c"
    using R by (auto simp: preorder_rel_def dest: transpD)
  fix w r w'
  assume "on_error m h k w = (r, w')"
  then show "R w w'"
  proof (cases rule: on_error_cases)
    case (ok a w1)
    then show ?thesis by (blast intro: trans steps_run [OF m] steps_run [OF k])
  next
    case (err e w1)
    then show ?thesis by (blast intro: trans steps_run [OF m] steps_run [OF h])
  next
    case (panic s)
    then show ?thesis by (blast intro: steps_run [OF m])
  qed
qed

lemma steps_and_then [steps_rules]:
  "\<lbrakk>preorder_rel R; steps R m; \<And>a. steps R (k a)\<rbrakk> \<Longrightarrow> steps R (and_then m k)"
  unfolding and_then_def by (intro steps_on_error steps_fail)

lemma steps_wrapping [steps_rules]:
  "\<lbrakk>preorder_rel R; steps R m\<rbrakk> \<Longrightarrow> steps R (wrapping msg m)"
  unfolding wrapping_def by (intro steps_on_error steps_fail steps_ret)

lemma steps_ignoring [steps_rules]:
  "\<lbrakk>preorder_rel R; steps R m\<rbrakk> \<Longrightarrow> steps R (ignoring m)"
  unfolding ignoring_def by (intro steps_on_error steps_ret)

lemma steps_if [steps_rules]:
  "\<lbrakk>b \<Longrightarrow> steps R m; \<not> b \<Longrightarrow> steps R n\<rbrakk> \<Longrightarrow> steps R (if b then m else n)"
  by simp

lemma steps_case_option [steps_rules]:
  "\<lbrakk>x = None \<Longrightarrow> steps R m; \<And>a. x = Some a \<Longrightarrow> steps R (k a)\<rbrakk>
    \<Longrightarrow> steps R (case x of None \<Rightarrow> m | Some a \<Rightarrow> k a)"
  by (cases x) auto

lemma steps_case_result [steps_rules]:
  "\<lbrakk>\<And>a. x = Ok a \<Longrightarrow> steps R (k a); \<And>e. x = Err e \<Longrightarrow> steps R (h e);
    \<And>s. x = Panic s \<Longrightarrow> steps R (p s)\<rbrakk>
    \<Longrightarrow> steps R (case x of Ok a \<Rightarrow> k a | Err e \<Rightarrow> h e | Panic s \<Rightarrow> p s)"
  by (cases x) auto

section \<open>Go maps\<close>

text \<open>
  A Go map with string keys: \<open>None\<close> is the \<open>nil\<close> map, which reads as empty and panics when
  written; iteration follows the list, any order of which the code must cope with.
\<close>

type_synonym 'v gomap = "(string \<times> 'v) list option"

definition gm_entries :: "'v gomap \<Rightarrow> (string \<times> 'v) list" where
  "gm_entries m = (case m of None \<Rightarrow> [] | Some kvs \<Rightarrow> kvs)"

definition gm_lookup :: "'v gomap \<Rightarrow> string \<Rightarrow> 'v option" where
  "gm_lookup m k = map_of (gm_entries m) k"

text \<open>\<open>if m == nil { m = make(map[string]...) }\<close>\<close>

definition gm_make :: "'v gomap \<Rightarrow> 'v gomap" where
  "gm_make m = (case m of None \<Rightarrow> Some [] | Some kvs \<Rightarrow> Some kvs)"

text \<open>\<open>m[k] = v\<close>; \<open>None\<close> of the outer option is the panic on a \<open>nil\<close> map.\<close>

definition gm_put :: "string \<Rightarrow> 'v \<Rightarrow> 'v gomap \<Rightarrow> 'v gomap option" where
  "gm_put k v m = (case m of None \<Rightarrow> None | Some kvs \<Rightarrow> Some (Some (AList.update k v kvs)))"

text \<open>\<open>delete(m, k)\<close>, a no-op on a \<open>nil\<close> map.\<close>

definition gm_delete :: "string \<Rightarrow> 'v gomap \<Rightarrow> 'v gomap" where
  "gm_delete k m = map_option (AList.delete k) m"

lemma gm_entries_simps [simp]: "gm_entries None = []" "gm_entries (Some kvs) = kvs"
  by (simp_all add: gm_entries_def)

lemma gm_lookup_simps [simp]: "gm_lookup None k = None" "gm_lookup (Some kvs) k = map_of kvs k"
  by (simp_all add: gm_lookup_def)

lemma gm_make_lookup [simp]: "gm_lookup (gm_make m) k = gm_lookup m k"
  by (simp add: gm_make_def split: option.splits)

lemma gm_make_not_nil [simp]: "gm_make m \<noteq> None"
  by (simp add: gm_make_def split: option.splits)

lemma gm_put_lookup: "gm_put k v m = Some m' \<Longrightarrow> gm_lookup m' k' = (if k' = k then Some v else gm_lookup m k')"
  by (auto simp: gm_put_def update_conv split: option.splits)

lemma gm_put_make [simp]: "gm_put k v (gm_make m) = Some (Some (AList.update k v (gm_entries m)))"
  by (simp add: gm_put_def gm_make_def split: option.splits)

lemma gm_put_nil [simp]: "gm_put k v None = None"
  by (simp add: gm_put_def)

lemma gm_put_Some [simp]: "gm_put k v (Some kvs) = Some (Some (AList.update k v kvs))"
  by (simp add: gm_put_def)

lemma gm_delete_lookup [simp]: "gm_lookup (gm_delete k m) k' = (if k' = k then None else gm_lookup m k')"
  by (cases m) (auto simp: gm_delete_def delete_conv)

end
