(* ===== verification/GoLib.thy ===== *)
theory GoLib
  imports Prelude
begin

text \<open>
  What the controller uses of the Go standard library: \<open>strings.Join\<close>, \<open>strings.Split\<close> (by a
  one-character separator, the only use), \<open>strings.HasPrefix\<close>, \<open>strings.TrimPrefix\<close>,
  \<open>strconv.Itoa\<close>, \<open>strconv.Atoi\<close> and string slices, with the panics of an out-of-range slice.
  Strings are byte strings (\<open>char list\<close>). The laws proved here are the ones the components
  rest on: splitting undoes joining, parsing undoes printing.
\<close>

section \<open>strings\<close>

fun strings_Split :: "char \<Rightarrow> string \<Rightarrow> string list" where
  "strings_Split sep [] = [[]]"
| "strings_Split sep (c # cs) =
     (if c = sep then [] # strings_Split sep cs
      else (case strings_Split sep cs of p # ps \<Rightarrow> (c # p) # ps | [] \<Rightarrow> [[c]]))"

fun strings_Join :: "string list \<Rightarrow> char \<Rightarrow> string" where
  "strings_Join [] sep = []"
| "strings_Join [x] sep = x"
| "strings_Join (x # y # ys) sep = x @ sep # strings_Join (y # ys) sep"

definition strings_HasPrefix :: "string \<Rightarrow> string \<Rightarrow> bool" where
  "strings_HasPrefix s p \<longleftrightarrow> take (length p) s = p"

definition strings_TrimPrefix :: "string \<Rightarrow> string \<Rightarrow> string" where
  "strings_TrimPrefix s p = (if strings_HasPrefix s p then drop (length p) s else s)"

lemma Split_nonempty [simp]: "strings_Split sep s \<noteq> []"
  by (induction s) (auto split: list.splits)

lemma Split_no_sep: "sep \<notin> set s \<Longrightarrow> strings_Split sep s = [s]"
  by (induction s) auto

lemma Split_append_sep:
  "sep \<notin> set x \<Longrightarrow> strings_Split sep (x @ sep # s) = x # strings_Split sep s"
  by (induction x) auto

lemma Split_Join:
  assumes "xs \<noteq> []" and "\<forall>x \<in> set xs. sep \<notin> set x"
  shows "strings_Split sep (strings_Join xs sep) = xs"
  using assms by (induction xs sep rule: strings_Join.induct) (auto simp: Split_no_sep Split_append_sep)

lemma Join_Split [simp]: "strings_Join (strings_Split sep s) sep = s"
proof (induction s)
  case Nil
  then show ?case by simp
next
  case (Cons c s)
  obtain p ps where ps: "strings_Split sep s = p # ps"
    by (cases "strings_Split sep s") auto
  with Cons show ?case by (cases ps) auto
qed

lemma Split_pieces: "x \<in> set (strings_Split sep s) \<Longrightarrow> sep \<notin> set x"
  by (induction s arbitrary: x) (auto split: list.splits if_splits)

lemma Join_eq_Nil: "strings_Join xs sep = [] \<longleftrightarrow> xs = [] \<or> xs = [[]]"
  by (induction xs sep rule: strings_Join.induct) auto

lemma HasPrefix_append [simp]: "strings_HasPrefix (p @ s) p"
  by (simp add: strings_HasPrefix_def)

lemma HasPrefix_iff: "strings_HasPrefix s p \<longleftrightarrow> (\<exists>t. s = p @ t)"
  by (metis HasPrefix_append append_take_drop_id strings_HasPrefix_def)

lemma TrimPrefix_append [simp]: "strings_TrimPrefix (p @ s) p = s"
  by (simp add: strings_TrimPrefix_def)

section \<open>strconv\<close>

function dec_digits :: "int \<Rightarrow> string" where
  "dec_digits n =
     (if n < 10 then [char_of (48 + n)] else dec_digits (n div 10) @ [char_of (48 + n mod 10)])"
  by auto

termination by (relation "measure nat") auto

declare dec_digits.simps [simp del]

definition strconv_Itoa :: "int \<Rightarrow> string" where
  "strconv_Itoa i = (if i < 0 then CHR ''-'' # dec_digits (- i) else dec_digits i)"

definition is_digit :: "char \<Rightarrow> bool" where
  "is_digit c \<longleftrightarrow> (48::int) \<le> of_char c \<and> (of_char c :: int) \<le> 57"

fun parse_digits :: "string \<Rightarrow> int \<Rightarrow> int option" where
  "parse_digits [] acc = Some acc"
| "parse_digits (c # cs) acc =
     (if is_digit c then parse_digits cs (10 * acc + (of_char c - 48)) else None)"

text \<open>\<open>strconv.Atoi\<close> on a 64-bit platform; \<open>None\<close> is its syntax or range error.\<close>

definition strconv_Atoi :: "string \<Rightarrow> int option" where
  "strconv_Atoi s =
     (let neg = (take 1 s = ''-'');
          ds = (if take 1 s = ''-'' \<or> take 1 s = ''+'' then drop 1 s else s)
      in if ds = [] then None
         else (case parse_digits ds 0 of
                 None \<Rightarrow> None
               | Some n \<Rightarrow>
                   if neg then (if n \<le> 2 ^ 63 then Some (- n) else None)
                   else (if n < 2 ^ 63 then Some n else None)))"

lemma digit_char: "\<lbrakk>0 \<le> d; d < 10\<rbrakk> \<Longrightarrow> (of_char (char_of (48 + d) :: char) :: int) = 48 + d"
  by simp

lemma is_digit_char: "\<lbrakk>0 \<le> d; d < (10::int)\<rbrakk> \<Longrightarrow> is_digit (char_of (48 + d))"
  by (simp add: is_digit_def)

lemma parse_digits_append:
  "parse_digits (xs @ ys) a = Option.bind (parse_digits xs a) (parse_digits ys)"
  by (induction xs arbitrary: a) auto

lemma parse_dec_digits: "0 \<le> n \<Longrightarrow> parse_digits (dec_digits n) 0 = Some n"
proof (induction n rule: dec_digits.induct)
  case (1 n)
  show ?case
  proof (cases "n < 10")
    case True
    with "1" show ?thesis by (subst dec_digits.simps) (simp add: is_digit_char)
  next
    case False
    with "1" have "parse_digits (dec_digits (n div 10)) 0 = Some (n div 10)" by simp
    with False show ?thesis
      by (subst dec_digits.simps) (simp add: parse_digits_append is_digit_char)
  qed
qed

lemma dec_digits_chars: "\<lbrakk>c \<in> set (dec_digits n); 0 \<le> n\<rbrakk> \<Longrightarrow> is_digit c"
proof (induction n rule: dec_digits.induct)
  case (1 n)
  then show ?case
    by (subst (asm) (2) dec_digits.simps) (auto split: if_splits simp: is_digit_char)
qed

lemma dec_digits_nonempty [simp]: "dec_digits n \<noteq> []"
  by (subst dec_digits.simps) simp

lemma dec_digits_no_sign:
  assumes "0 \<le> n"
  shows "take 1 (dec_digits n) \<noteq> ''-''" "take 1 (dec_digits n) \<noteq> ''+''"
proof -
  obtain c cs where cs: "dec_digits n = c # cs"
    by (cases "dec_digits n") (use dec_digits_nonempty [of n] in auto)
  then have "is_digit c" using dec_digits_chars [of c n] assms by simp
  with cs show "take 1 (dec_digits n) \<noteq> ''-''" "take 1 (dec_digits n) \<noteq> ''+''"
    by (auto simp: is_digit_def)
qed

lemma Atoi_Itoa_nat: "0 \<le> n \<Longrightarrow> strconv_Atoi (strconv_Itoa n) = (if n < 2 ^ 63 then Some n else None)"
  by (simp add: strconv_Atoi_def strconv_Itoa_def Let_def parse_dec_digits
      dec_digits_no_sign [simplified])

lemma Atoi_Itoa: "\<lbrakk>0 \<le> n; n < 2 ^ 63\<rbrakk> \<Longrightarrow> strconv_Atoi (strconv_Itoa n) = Some n"
  by (simp add: Atoi_Itoa_nat)

lemma Itoa_0 [simp]: "strconv_Itoa 0 = ''0''"
  by (simp add: strconv_Itoa_def dec_digits.simps char_of_def bit_Suc_0_iff)

lemma Atoi_0 [simp]: "strconv_Atoi ''0'' = Some 0"
  using Atoi_Itoa [of 0] by simp

section \<open>int64\<close>

lemma sint_of_int64: "\<lbrakk>- (2 ^ 63) \<le> i; i < 2 ^ 63\<rbrakk> \<Longrightarrow> sint (word_of_int i :: 64 word) = i"
  by (subst sint_sbintrunc') (simp add: signed_take_bit_int_eq_self)

text \<open>Go's signed division truncates towards zero and wraps to 64 bits.\<close>

definition int64_div :: "64 word \<Rightarrow> 64 word \<Rightarrow> 64 word" where
  "int64_div a b = word_of_int (sgn (sint a) * sgn (sint b) * (\<bar>sint a\<bar> div \<bar>sint b\<bar>))"

lemma sint64_mult:
  fixes a b :: "64 word"
  assumes "- (2 ^ 63) \<le> sint a * sint b" and "sint a * sint b < 2 ^ 63"
  shows "sint (a * b) = sint a * sint b"
  using assms by (simp add: sint_word_ariths signed_take_bit_int_eq_self)

lemma int64_div_pos:
  assumes "0 \<le> sint a" and "0 < sint b"
  shows "sint (int64_div a b) = sint a div sint b"
proof -
  have "sint a < 2 ^ 63" using sint_lt [of a] by simp
  moreover have "sint a div sint b \<le> sint a" "0 \<le> sint a div sint b"
    using assms div_le_dividend [of "nat (sint a)" "nat (sint b)"]
    by (simp_all add: nat_div_distrib [symmetric] pos_imp_zdiv_nonneg_iff)
  ultimately have "sint (word_of_int (sint a div sint b) :: 64 word) = sint a div sint b"
    by (intro sint_of_int64) auto
  with assms show ?thesis by (cases "sint a = 0") (simp_all add: int64_div_def)
qed

section \<open>String slices\<close>

text \<open>\<open>s[:n]\<close> and \<open>s[len(s)-n:]\<close>, which panic when \<open>n\<close> exceeds the length.\<close>

definition slice_to :: "string \<Rightarrow> nat \<Rightarrow> ('w, string) prog" where
  "slice_to s n = (if n \<le> length s then ret (take n s) else crash ''slice bounds out of range'')"

definition slice_last :: "string \<Rightarrow> nat \<Rightarrow> ('w, string) prog" where
  "slice_last s n =
     (if n \<le> length s then ret (drop (length s - n) s) else crash ''slice bounds out of range'')"

lemma slice_to_ok [go_simps]: "n \<le> length s \<Longrightarrow> slice_to s n w = (Ok (take n s), w)"
  by (simp add: slice_to_def)

lemma slice_last_ok [go_simps]: "n \<le> length s \<Longrightarrow> slice_last s n w = (Ok (drop (length s - n) s), w)"
  by (simp add: slice_last_def)

lemma slice_to_Ok [go_elims]:
  "slice_to s n w = (Ok x, w') \<Longrightarrow> (n \<le> length s \<Longrightarrow> x = take n s \<Longrightarrow> w' = w \<Longrightarrow> thesis) \<Longrightarrow> thesis"
  by (auto simp: slice_to_def split: if_splits)

lemma slice_last_Ok [go_elims]:
  "slice_last s n w = (Ok x, w') \<Longrightarrow>
    (n \<le> length s \<Longrightarrow> x = drop (length s - n) s \<Longrightarrow> w' = w \<Longrightarrow> thesis) \<Longrightarrow> thesis"
  by (auto simp: slice_last_def split: if_splits)

lemma steps_slice [steps_rules]:
  "preorder_rel R \<Longrightarrow> steps R (slice_to s n)"
  "preorder_rel R \<Longrightarrow> steps R (slice_last s n)"
  by (simp_all add: slice_to_def slice_last_def steps_rules)

end
