(* ===== verification/GoTime.thy ===== *)
theory GoTime
  imports GoLib
begin

text \<open>
  What the controller uses of Go's \<open>time\<close> package and of \<open>metav1.Time\<close>. An instant is a
  number of nanoseconds since the epoch, a \<open>time.Duration\<close> an \<open>int64\<close> of nanoseconds: \<open>Sub\<close>
  saturates, \<open>Seconds\<close> is a \<open>float64\<close>. The floats are mantissa and exponent, rounded to
  53 bits with ties to even after every operation, as IEEE 754 has it for the range of seconds in a
  duration (no infinity, no NaN, no subnormal number is reached there). \<open>metav1.Time\<close> is
  written to the API server in RFC 3339, which drops the fraction of a second.
\<close>

section \<open>Rounding\<close>

function bit_length :: "int \<Rightarrow> nat" where
  "bit_length n = (if n \<le> 0 then 0 else Suc (bit_length (n div 2)))"
  by auto

termination by (relation "measure nat") auto

declare bit_length.simps [simp del]

text \<open>The quotient to the nearest whole number, ties to even.\<close>

definition round_quot :: "int \<Rightarrow> int \<Rightarrow> int" where
  "round_quot p q =
     (let n = p div q; r = p mod q
      in if 2 * r < q \<or> (2 * r = q \<and> even n) then n else n + 1)"

lemma round_quot_near:
  assumes "0 < q"
  shows "\<bar>2 * (round_quot p q * q - p)\<bar> \<le> q"
proof -
  have p: "p div q * q = p - p mod q" by (simp add: minus_mod_eq_div_mult)
  have "0 \<le> p mod q" "p mod q < q" using assms by simp_all
  with p show ?thesis by (auto simp: round_quot_def Let_def ring_distribs)
qed

lemma round_quot_exact [simp]: "0 < q \<Longrightarrow> round_quot (k * q) q = k"
  by (simp add: round_quot_def)

lemma round_quot_1 [simp]: "round_quot k 1 = k"
  by (simp add: round_quot_def)

section \<open>float64\<close>

text \<open>\<open>Float64 m e\<close> is the number \<open>m * 2 ^ e\<close>.\<close>

datatype float64 = Float64 (mantissa: int) (exponent: int)

definition float64_is :: "float64 \<Rightarrow> int \<Rightarrow> bool" where
  "float64_is x i \<longleftrightarrow>
     (if 0 \<le> exponent x then mantissa x * 2 ^ nat (exponent x) = i
      else mantissa x = i * 2 ^ nat (- exponent x))"

text \<open>The float nearest to \<open>p / q\<close>, for a positive \<open>q\<close>.\<close>

definition float64_quot :: "int \<Rightarrow> int \<Rightarrow> float64" where
  "float64_quot p q =
     (if p = 0 then Float64 0 0
      else
        (let scaled = (\<lambda>f e. if 0 \<le> e then f \<bar>p\<bar> (q * 2 ^ nat e) else f (\<bar>p\<bar> * 2 ^ nat (- e)) q);
             e0 = int (bit_length \<bar>p\<bar>) - int (bit_length q) - 53;
             e = (if scaled (div) e0 < 2 ^ 53 then e0 else e0 + 1)
         in Float64 (sgn p * scaled round_quot e) e))"

definition float64_of_int :: "int \<Rightarrow> float64" where
  "float64_of_int i = float64_quot i 1"

text \<open>The float nearest to \<open>m * 2 ^ e\<close>.\<close>

definition float64_scale :: "int \<Rightarrow> int \<Rightarrow> float64" where
  "float64_scale m e = (if 0 \<le> e then float64_quot (m * 2 ^ nat e) 1 else float64_quot m (2 ^ nat (- e)))"

fun float64_add :: "float64 \<Rightarrow> float64 \<Rightarrow> float64" where
  "float64_add (Float64 m e) (Float64 n f) =
     (let g = min e f in float64_scale (m * 2 ^ nat (e - g) + n * 2 ^ nat (f - g)) g)"

text \<open>Division by a positive float.\<close>

fun float64_div :: "float64 \<Rightarrow> float64 \<Rightarrow> float64" where
  "float64_div (Float64 m e) (Float64 n f) =
     (if 0 \<le> e - f then float64_quot (m * 2 ^ nat (e - f)) n else float64_quot m (n * 2 ^ nat (f - e)))"

text \<open>Whole numbers of at most 53 bits are represented exactly.\<close>

lemma bit_length_pos: "0 < n \<Longrightarrow> bit_length n = Suc (bit_length (n div 2))"
  by (subst bit_length.simps) simp

lemma bit_length_0 [simp]: "bit_length 0 = 0"
  by (subst bit_length.simps) simp

lemma bit_length_1 [simp]: "bit_length 1 = 1"
  by (subst bit_length.simps) simp

lemma bit_length_bounds:
  "0 < n \<Longrightarrow> 2 ^ bit_length n \<le> 2 * n \<and> n < 2 ^ bit_length n"
proof (induction n rule: bit_length.induct)
  case (1 n)
  show ?case
  proof (cases "n = 1")
    case False
    with "1.prems" have "0 < n div 2" by simp
    with "1.prems" "1.IH" have "2 ^ bit_length (n div 2) \<le> 2 * (n div 2)" "n div 2 < 2 ^ bit_length (n div 2)"
      by auto
    moreover have "bit_length n = Suc (bit_length (n div 2))" using "1.prems" by (rule bit_length_pos)
    ultimately show ?thesis by (simp, linarith)
  qed simp
qed

lemma bit_length_le:
  assumes "0 < n" and "n < 2 ^ k"
  shows "bit_length n \<le> k"
proof (rule ccontr)
  assume "\<not> bit_length n \<le> k"
  then have "(2::int) ^ Suc k \<le> 2 ^ bit_length n" by (intro power_increasing) simp_all
  with bit_length_bounds [OF assms(1)] assms(2) show False by simp
qed

lemma bit_length_2power [simp]: "bit_length (2 ^ k) = Suc k"
proof (induction k)
  case (Suc k)
  have "bit_length (2 ^ Suc k) = Suc (bit_length (2 ^ Suc k div 2))" by (rule bit_length_pos) simp
  with Suc show ?case by simp
qed simp

lemma scale_small:
  assumes "0 < a" and "a < 2 ^ 53"
  shows "(2::int) ^ 53 \<le> a * 2 ^ (54 - bit_length a)"
proof -
  have le: "bit_length a \<le> 53" using assms by (rule bit_length_le)
  have "(2::int) ^ 54 = 2 ^ bit_length a * 2 ^ (54 - bit_length a)"
    using le by (simp flip: power_add)
  also have "\<dots> \<le> 2 * a * 2 ^ (54 - bit_length a)"
    using bit_length_bounds [OF assms(1)] by (intro mult_right_mono) simp_all
  finally show ?thesis by simp
qed

lemma bit_length_shift: "0 < n \<Longrightarrow> bit_length (n * 2 ^ k) = bit_length n + k"
proof (induction k)
  case (Suc k)
  then have "bit_length (n * 2 ^ Suc k) = Suc (bit_length (n * 2 ^ Suc k div 2))"
    by (intro bit_length_pos) simp
  with Suc show ?case by (simp add: mult.left_commute [of n 2])
qed simp

lemma float64_quot_whole:
  assumes "i \<noteq> 0" and "\<bar>i\<bar> < 2 ^ 53"
  shows "float64_quot (i * 2 ^ k) (2 ^ k) =
    Float64 (i * 2 ^ (53 - bit_length \<bar>i\<bar>)) (int (bit_length \<bar>i\<bar>) - 53)"
proof -
  define b where "b = bit_length \<bar>i\<bar>"
  have b: "b \<le> 53" unfolding b_def by (rule bit_length_le) (use assms in auto)
  have big: "(2::int) ^ 53 \<le> \<bar>i\<bar> * 2 ^ (54 - b)"
    unfolding b_def by (rule scale_small) (use assms in auto)
  have abs: "\<bar>i * 2 ^ k\<bar> = \<bar>i\<bar> * 2 ^ k" by (simp add: abs_mult)
  have bk: "bit_length (\<bar>i\<bar> * 2 ^ k) = b + k" unfolding b_def by (rule bit_length_shift) (use assms in simp)
  have e0: "int (b + k) - int (bit_length ((2::int) ^ k)) - 53 = int b - 54" by simp
  have neg: "\<not> 0 \<le> int b - 54" "nat (- (int b - 54)) = 54 - b" "nat (- (int b - 54 + 1)) = 53 - b"
    using b by linarith+
  have shift: "\<bar>i\<bar> * 2 ^ k * 2 ^ c = \<bar>i\<bar> * 2 ^ c * 2 ^ k" for c by simp
  from big have up: "\<not> \<bar>i\<bar> * 2 ^ (54 - b) < 2 ^ 53" by simp
  have sgn: "sgn (i * 2 ^ k) * (\<bar>i\<bar> * 2 ^ (53 - b)) = i * 2 ^ (53 - b)"
    by (simp add: sgn_mult mult.assoc [symmetric] sgn_mult_abs)
  show ?thesis
  proof (cases "b = 53")
    case True
    then show ?thesis using up sgn assms(1)
      unfolding float64_quot_def Let_def abs bk e0 b_def [symmetric]
      by simp
  next
    case False
    with b have "\<not> 0 \<le> int b - 54 + 1" by simp
    then show ?thesis
      unfolding float64_quot_def Let_def abs bk e0 b_def [symmetric] if_not_P [OF neg(1)] neg(2)
        shift nonzero_mult_div_cancel_right [OF power_not_zero [of 2 k], simplified] if_not_P [OF up]
      using neg(3) sgn up assms(1) by (simp add: shift)
  qed
qed

lemma float64_scale_whole:
  assumes "\<bar>i\<bar> < 2 ^ 53" and "float64_is (Float64 m e) i" and "e \<le> 0"
  shows "float64_is (float64_scale m e) i"
proof -
  have m: "m = i * 2 ^ nat (- e)" using assms(2,3) by (auto simp: float64_is_def split: if_splits)
  have s: "float64_scale m e = float64_quot (i * 2 ^ nat (- e)) (2 ^ nat (- e))"
    using assms(3) by (auto simp: float64_scale_def m)
  show ?thesis
  proof (cases "i = 0")
    case True
    then show ?thesis by (simp add: s float64_quot_def Let_def float64_is_def round_quot_def)
  next
    case False
    have "bit_length \<bar>i\<bar> \<le> 53" by (rule bit_length_le) (use False assms(1) in auto)
    then show ?thesis unfolding s float64_quot_whole [OF False assms(1)] by (auto simp: float64_is_def)
  qed
qed

lemma float64_of_int_exact: "\<bar>i\<bar> < 2 ^ 53 \<Longrightarrow> float64_is (float64_of_int i) i"
  using float64_scale_whole [of i i 0] by (simp add: float64_is_def float64_of_int_def float64_scale_def)

lemma float64_quot_zero [simp]: "float64_quot 0 q = Float64 0 0"
  by (simp add: float64_quot_def)

lemma float64_of_int_form:
  assumes "\<bar>i\<bar> < 2 ^ 53"
  obtains m e where "float64_of_int i = Float64 m e" and "e \<le> 0" and "0 < i \<longrightarrow> 0 < m"
proof (cases "i = 0")
  case True
  with that [of 0 0] show ?thesis by (simp add: float64_of_int_def)
next
  case False
  then have b: "bit_length \<bar>i\<bar> \<le> 53" by (intro bit_length_le) (use assms in auto)
  from float64_quot_whole [OF False assms, of 0] b False show ?thesis
    by (intro that [of "i * 2 ^ (53 - bit_length \<bar>i\<bar>)" "int (bit_length \<bar>i\<bar>) - 53"])
      (simp_all add: float64_of_int_def)
qed

lemma float64_add_zero:
  assumes "float64_is (Float64 m f) i" and "f \<le> 0" and "\<bar>i\<bar> < 2 ^ 53"
  shows "float64_is (float64_add (Float64 m f) (Float64 0 0)) i"
  using float64_scale_whole [OF assms(3,1,2)] assms(2) by simp

section \<open>Instants and durations\<close>

text \<open>\<open>t.Sub(u)\<close>: the nearest \<open>Duration\<close>.\<close>

definition time_Sub :: "int \<Rightarrow> int \<Rightarrow> 64 word" where
  "time_Sub t u =
     (if t - u < - (2 ^ 63) then word_of_int (- (2 ^ 63))
      else if 2 ^ 63 \<le> t - u then word_of_int (2 ^ 63 - 1)
      else word_of_int (t - u))"

lemma sint_time_Sub:
  "sint (time_Sub t u) = max (- (2 ^ 63)) (min (2 ^ 63 - 1) (t - u))"
  unfolding time_Sub_def by (auto simp: sint_of_int64 simp del: of_int_diff)

abbreviation nanoseconds_per_second :: "64 word" where
  "nanoseconds_per_second \<equiv> 1000000000"

text \<open>
  \<open>sec := d / Second; nsec := d % Second; return float64(sec) + float64(nsec)/1e9\<close>
\<close>

definition duration_Seconds :: "64 word \<Rightarrow> float64" where
  "duration_Seconds d =
     (let sec = int64_div d nanoseconds_per_second;
          nsec = d - sec * nanoseconds_per_second
      in float64_add (float64_of_int (sint sec))
           (float64_div (float64_of_int (sint nsec)) (float64_of_int 1000000000)))"

text \<open>A \<open>metav1.Time\<close> after it went through the API server.\<close>

definition whole_second :: "int \<Rightarrow> int" where
  "whole_second t = t - t mod 1000000000"

lemma whole_second_idem [simp]: "whole_second (whole_second t) = whole_second t"
  by (simp add: whole_second_def minus_mod_eq_div_mult)

lemma whole_second_le: "whole_second t \<le> t" "t < whole_second t + 1000000000"
  by (simp_all add: whole_second_def)

lemma whole_second_options [simp]:
  "map_option whole_second (map_option whole_second t) = map_option whole_second t"
  by (cases t) simp_all

text \<open>A duration of whole seconds is that number of seconds, exactly.\<close>

lemma duration_Seconds_whole:
  assumes "sint d = s * 1000000000"
  shows "float64_is (duration_Seconds d) s"
proof -
  have bound: "\<bar>s\<bar> < 2 ^ 53" using sint_lt [of d] sint_ge [of d] assms by simp
  have "- (2 ^ 63) \<le> s \<and> s < 2 ^ 63" using bound by (simp add: abs_less_iff)
  have second: "sint nanoseconds_per_second = 1000000000" by simp
  have "sgn (sint d) * (\<bar>sint d\<bar> div 1000000000) = s"
    unfolding assms by (simp add: abs_mult sgn_mult sgn_mult_abs)
  then have sec: "int64_div d nanoseconds_per_second = word_of_int s"
    by (simp add: int64_div_def second)
  have s: "sint (word_of_int s :: 64 word) = s" using bound by (intro sint_of_int64) (simp_all add: abs_less_iff)
  have "d = word_of_int (sint d)" by simp
  then have nsec: "d - word_of_int s * nanoseconds_per_second = 0"
    unfolding assms by simp
  obtain n g where g: "float64_of_int 1000000000 = Float64 n g"
    by (rule float64_of_int_form [of 1000000000]) auto
  obtain m f where m: "float64_of_int s = Float64 m f" "f \<le> 0" by (rule float64_of_int_form [OF bound])
  from float64_add_zero [OF float64_of_int_exact [OF bound, unfolded m(1)] m(2) bound] show ?thesis
    by (simp add: duration_Seconds_def Let_def sec s nsec m(1) g float64_of_int_def [of 0])
qed

end
