(* ===== verification/ApiTypes.thy ===== *)
theory ApiTypes
  imports GoTime
begin

text \<open>
  The data of the program: the TenantEnvironment custom resource of \<open>api/v1\<close> and the fields of
  the built-in Kubernetes objects that the controller sets or reads. Every object extends
  \<open>kobject\<close>, as every Go struct embeds \<open>metav1.ObjectMeta\<close>. A Go composite literal leaves the
  unnamed fields at their zero value; here it is an update of the zero record
  (\<open>no_meta\<close>, \<open>no_container\<close>, \<open>no_pod_spec\<close>).
  \<open>'q\<close> is the type of \<open>resource.Quantity\<close>, which belongs to a library.
  Times are nanoseconds since the epoch, rounded to whole seconds when a status is stored
  (\<open>wire_status\<close>); \<open>int32\<close> is a 32-bit word.
\<close>

section \<open>Object metadata\<close>

record object_meta =
  MetaName :: string
  MetaNamespace :: string
  MetaLabels :: "string gomap"
  MetaAnnotations :: "string gomap"
  MetaUID :: string
  MetaResourceVersion :: string
  MetaFinalizers :: "string list"
  MetaDeletionTimestamp :: "int option"

definition no_meta :: object_meta where
  "no_meta = \<lparr>MetaName = '''', MetaNamespace = '''', MetaLabels = None, MetaAnnotations = None,
     MetaUID = '''', MetaResourceVersion = '''', MetaFinalizers = [], MetaDeletionTimestamp = None\<rparr>"

lemma no_meta_simps [simp]:
  "MetaName no_meta = ''''" "MetaNamespace no_meta = ''''" "MetaLabels no_meta = None"
  "MetaAnnotations no_meta = None" "MetaUID no_meta = ''''" "MetaResourceVersion no_meta = ''''"
  "MetaFinalizers no_meta = []" "MetaDeletionTimestamp no_meta = None"
  by (simp_all add: no_meta_def)

record kobject =
  ObjectMeta :: object_meta

type_synonym object_key = "string \<times> string"

text \<open>The name under which the API server files an object: its namespace and its name.\<close>

abbreviation name_of :: "('a kobject_scheme) \<Rightarrow> string" where
  "name_of x \<equiv> MetaName (ObjectMeta x)"

abbreviation namespace_of :: "('a kobject_scheme) \<Rightarrow> string" where
  "namespace_of x \<equiv> MetaNamespace (ObjectMeta x)"

abbreviation labels_of :: "('a kobject_scheme) \<Rightarrow> string gomap" where
  "labels_of x \<equiv> MetaLabels (ObjectMeta x)"

abbreviation annotations_of :: "('a kobject_scheme) \<Rightarrow> string gomap" where
  "annotations_of x \<equiv> MetaAnnotations (ObjectMeta x)"

abbreviation uid_of :: "('a kobject_scheme) \<Rightarrow> string" where
  "uid_of x \<equiv> MetaUID (ObjectMeta x)"

definition key_of :: "('a kobject_scheme) \<Rightarrow> object_key" where
  "key_of x = (namespace_of x, name_of x)"

section \<open>The TenantEnvironment resource\<close>

record 'q tenant_resource_quotas =
  CPULimit :: 'q
  MemoryLimit :: 'q
  StorageLimit :: 'q
  PodLimit :: "32 word"

record tenant_database_config =
  DedicatedInstance :: bool

record 'q tenant_environment_spec =
  DisplayName :: string
  Replicas :: "32 word"
  ServiceVersion :: string
  ResourceQuotas :: "'q tenant_resource_quotas option"
  Database :: tenant_database_config

record tenant_environment_status =
  Phase :: string
  Message :: string
  StatusNamespace :: string
  CreatedAt :: "int option"
  ReadyAt :: "int option"
  DatabaseStatus :: string

record 'q tenant_environment = kobject +
  Spec :: "'q tenant_environment_spec"
  Status :: tenant_environment_status

text \<open>
  A status as the API server stores and returns it: the serialisation of \<open>metav1.Time\<close> keeps
  whole seconds.
\<close>

definition wire_status :: "tenant_environment_status \<Rightarrow> tenant_environment_status" where
  "wire_status s = s\<lparr>CreatedAt := map_option whole_second (CreatedAt s),
     ReadyAt := map_option whole_second (ReadyAt s)\<rparr>"

lemma wire_status_simps [simp]:
  "Phase (wire_status s) = Phase s" "Message (wire_status s) = Message s"
  "StatusNamespace (wire_status s) = StatusNamespace s"
  "DatabaseStatus (wire_status s) = DatabaseStatus s"
  "CreatedAt (wire_status s) = map_option whole_second (CreatedAt s)"
  "ReadyAt (wire_status s) = map_option whole_second (ReadyAt s)"
  "wire_status (wire_status s) = wire_status s"
  by (simp_all add: wire_status_def)

lemma wire_status_update:
  "wire_status (s\<lparr>DatabaseStatus := d\<rparr>) = (wire_status s)\<lparr>DatabaseStatus := d\<rparr>"
  "wire_status (s\<lparr>Phase := p\<rparr>) = (wire_status s)\<lparr>Phase := p\<rparr>"
  "wire_status (s\<lparr>CreatedAt := c\<rparr>) = (wire_status s)\<lparr>CreatedAt := map_option whole_second c\<rparr>"
  "wire_status (s\<lparr>ReadyAt := r\<rparr>) = (wire_status s)\<lparr>ReadyAt := map_option whole_second r\<rparr>"
  by (simp_all add: wire_status_def)

section \<open>Built-in objects\<close>

type_synonym namespace = kobject

record secret = kobject +
  SecretType :: string
  SecretData :: "string gomap"

record config_map = kobject +
  ConfigData :: "string gomap"

record 'q resource_quota = kobject +
  Hard :: "'q gomap"

record container_port =
  ContainerPort :: int
  PortName :: string

record 'q resource_requirements =
  Requests :: "'q gomap"
  Limits :: "'q gomap"

record volume_mount =
  MountName :: string
  MountPath :: string
  SubPath :: string
  ReadOnly :: bool

text \<open>An environment variable has a literal value or refers to a key of a secret.\<close>

datatype env_value = EnvLiteral string | EnvSecretKey string string

record env_var =
  EnvName :: string
  EnvValue :: env_value

text \<open>An HTTP GET probe; a field the literal leaves out is 0.\<close>

record probe =
  ProbePath :: string
  ProbePort :: int
  InitialDelaySeconds :: int
  PeriodSeconds :: int
  TimeoutSeconds :: int
  FailureThreshold :: int

record 'q container =
  ContainerName :: string
  Image :: string
  Command :: "string list"
  Args :: "string list"
  Ports :: "container_port list"
  EnvFromSecrets :: "string list"
  Env :: "env_var list"
  Resources :: "'q resource_requirements"
  VolumeMounts :: "volume_mount list"
  ImagePullPolicy :: string
  ReadinessProbe :: "probe option"
  LivenessProbe :: "probe option"

definition no_container :: "'q container" where
  "no_container = \<lparr>ContainerName = '''', Image = '''', Command = [], Args = [], Ports = [],
     EnvFromSecrets = [], Env = [], Resources = \<lparr>Requests = None, Limits = None\<rparr>, VolumeMounts = [],
     ImagePullPolicy = '''', ReadinessProbe = None, LivenessProbe = None\<rparr>"

record volume =
  VolumeName :: string
  VolumeConfigMap :: string

record 'q pod_spec =
  Containers :: "'q container list"
  Volumes :: "volume list"
  RestartPolicy :: string
  PriorityClassName :: string

definition no_pod_spec :: "'q pod_spec" where
  "no_pod_spec = \<lparr>Containers = [], Volumes = [], RestartPolicy = '''', PriorityClassName = ''''\<rparr>"

record 'q pod_template =
  TemplateLabels :: "string gomap"
  TemplateSpec :: "'q pod_spec"

record 'q deployment = kobject +
  DeploymentReplicas :: "32 word option"
  DeploymentSelector :: "string gomap"
  DeploymentTemplate :: "'q pod_template"

record 'q persistent_volume_claim = kobject +
  AccessModes :: "string list"
  ClaimRequests :: "'q gomap"

record 'q stateful_set = kobject +
  StatefulSetReplicas :: "32 word option"
  StatefulSetSelector :: "string gomap"
  StatefulSetTemplate :: "'q pod_template"
  VolumeClaimTemplates :: "'q persistent_volume_claim list"

record service_port =
  Port :: int
  TargetPort :: int
  Protocol :: string
  ServicePortName :: string

record service = kobject +
  ServiceSelector :: "string gomap"
  ServicePorts :: "service_port list"
  ServiceType :: string

record condition =
  ConditionType :: string
  ConditionStatus :: string

record 'q job = kobject +
  BackoffLimit :: "32 word option"
  JobTemplate :: "'q pod_template"
  JobConditions :: "condition list"

record pod = kobject +
  PodConditions :: "condition list"

text \<open>\<open>int32Ptr\<close>: a pointer to an \<open>int32\<close> is an option, \<open>nil\<close> is \<open>None\<close>.\<close>

definition int32Ptr :: "32 word \<Rightarrow> 32 word option" where
  "int32Ptr i = Some i"

section \<open>Names and labels of the operator\<close>

definition tenantEnvironmentFinalizer :: string where
  "tenantEnvironmentFinalizer = ''tenant.core.mellifluus.io/finalizer''"

definition MaxTenantsPerSharedInstance :: int where
  "MaxTenantsPerSharedInstance = 10"

definition SharedInstanceTenantCountLabel :: string where
  "SharedInstanceTenantCountLabel = ''tenant.core.mellifluus.io/tenant-count''"

abbreviation tenant_uid_label :: string where
  "tenant_uid_label \<equiv> ''tenant.core.mellifluus.io/tenant-uid''"

abbreviation managed_by_label :: string where
  "managed_by_label \<equiv> ''tenant.core.mellifluus.io/managed-by''"

abbreviation shared_instance_label :: string where
  "shared_instance_label \<equiv> ''tenant.core.mellifluus.io/shared-instance''"

abbreviation tenant_list_annotation :: string where
  "tenant_list_annotation \<equiv> ''tenant.core.mellifluus.io/tenant-list''"

abbreviation ss_name_label :: string where
  "ss_name_label \<equiv> ''tenant.core.mellifluus.io/ss-name''"

abbreviation shared_services :: string where
  "shared_services \<equiv> ''shared-services''"

abbreviation tenant_namespace :: "'q tenant_environment \<Rightarrow> string" where
  "tenant_namespace t \<equiv> ''tenant-'' @ uid_of t"

end
