(* ===== verification/Client.thy ===== *)
theory Client
  imports ApiTypes
begin

text \<open>
  The code outside the repository that the controller calls, as parameters: the API client of
  controller-runtime (one \<open>resource_api\<close> per kind), \<open>Status().Update\<close>, \<open>crypto/rand\<close>, the
  clock, the Prometheus histogram, \<open>retry.RetryOnConflict\<close>, the finalizer helpers of
  \<open>controllerutil\<close>, the files embedded in the binary and the quantity arithmetic of \<open>k8s.io/apimachinery\<close>, bundled in the record \<open>runtime\<close>. Locales state what is documented
  of them: \<open>readable\<close> for reads, \<open>resource\<close> for a kind that is created, updated and deleted,
  \<open>status_resource\<close> for a kind with a status subresource, \<open>quantity\<close> for the arithmetic, and
  \<open>cluster_client\<close> for all of them together over one \<open>cluster\<close> state.

  The laws let every call fail at any time, and let a failed write have taken effect (a request
  that timed out). They assume that nobody else writes between the calls of one run and that
  reads are current.
\<close>

section \<open>The client interface\<close>

record ('w, 'x) resource_api =
  ApiGet :: "string \<Rightarrow> string \<Rightarrow> ('w, 'x) prog"
  ApiCreate :: "'x \<Rightarrow> ('w, 'x) prog"
  ApiUpdate :: "'x \<Rightarrow> ('w, 'x) prog"
  ApiDelete :: "'x \<Rightarrow> string option \<Rightarrow> ('w, unit) prog"
  ApiList :: "string \<Rightarrow> (string \<times> string) list \<Rightarrow> ('w, 'x list) prog"

record 'q quantity_pkg =
  QIsZero :: "'q \<Rightarrow> bool"
  QMilliValue :: "'q \<Rightarrow> 64 word"
  QValue :: "'q \<Rightarrow> 64 word"
  QSet :: "64 word \<Rightarrow> 'q \<Rightarrow> 'q"
  QCmp :: "'q \<Rightarrow> 'q \<Rightarrow> int"
  QString :: "'q \<Rightarrow> string"
  QParse :: "string \<Rightarrow> go_error + 'q"
  QNew :: "64 word \<Rightarrow> 'q"

record ('w, 'q) runtime =
  Namespaces :: "('w, namespace) resource_api"
  Secrets :: "('w, secret) resource_api"
  ConfigMaps :: "('w, config_map) resource_api"
  Quotas :: "('w, 'q resource_quota) resource_api"
  Deployments :: "('w, 'q deployment) resource_api"
  StatefulSets :: "('w, 'q stateful_set) resource_api"
  Services :: "('w, service) resource_api"
  Jobs :: "('w, 'q job) resource_api"
  Claims :: "('w, 'q persistent_volume_claim) resource_api"
  Pods :: "('w, pod) resource_api"
  Tenants :: "('w, 'q tenant_environment) resource_api"
  StatusUpdate :: "'q tenant_environment \<Rightarrow> ('w, 'q tenant_environment) prog"
  RandRead :: "nat \<Rightarrow> ('w, 8 word list) prog"
  TimeNow :: "('w, int) prog"
  ObserveDuration :: "string \<Rightarrow> float64 \<Rightarrow> ('w, unit) prog"
  RetryOnConflict :: "('w, unit) prog \<Rightarrow> ('w, unit) prog"
  ReadFile :: "string \<Rightarrow> go_error + string"
  ContainsFinalizer :: "'q tenant_environment \<Rightarrow> string \<Rightarrow> bool"
  AddFinalizer :: "'q tenant_environment \<Rightarrow> string \<Rightarrow> 'q tenant_environment"
  RemoveFinalizer :: "'q tenant_environment \<Rightarrow> string \<Rightarrow> 'q tenant_environment"
  Quantities :: "'q quantity_pkg"

text \<open>\<open>resource.MustParse\<close> panics where \<open>ParseQuantity\<close> returns an error.\<close>

definition MustParse :: "('w, 'q) runtime \<Rightarrow> string \<Rightarrow> ('w, 'q) prog" where
  "MustParse rt s =
     (case QParse (Quantities rt) s of Inl _ \<Rightarrow> crash ''cannot parse quantity'' | Inr q \<Rightarrow> ret q)"

lemma MustParse_Ok [go_elims]:
  "MustParse rt s w = (Ok q, w') \<Longrightarrow> (QParse (Quantities rt) s = Inr q \<Longrightarrow> w' = w \<Longrightarrow> thesis) \<Longrightarrow> thesis"
  by (auto simp: MustParse_def split: sum.splits)

text \<open>An object with other finalizers, for the laws of \<open>controllerutil\<close>.\<close>

definition with_finalizers :: "string list \<Rightarrow> 'a kobject_scheme \<Rightarrow> 'a kobject_scheme" where
  "with_finalizers fs x = x\<lparr>ObjectMeta := (ObjectMeta x)\<lparr>MetaFinalizers := fs\<rparr>\<rparr>"

lemma with_finalizers_simps [simp]:
  "MetaFinalizers (ObjectMeta (with_finalizers fs x)) = fs"
  "key_of (with_finalizers fs x) = key_of x" "uid_of (with_finalizers fs x) = uid_of x"
  "name_of (with_finalizers fs x) = name_of x" "namespace_of (with_finalizers fs x) = namespace_of x"
  "MetaDeletionTimestamp (ObjectMeta (with_finalizers fs x)) = MetaDeletionTimestamp (ObjectMeta x)"
  "MetaResourceVersion (ObjectMeta (with_finalizers fs x)) = MetaResourceVersion (ObjectMeta x)"
  "Spec (with_finalizers fs t) = Spec t" "Status (with_finalizers fs t) = Status t"
  by (simp_all add: with_finalizers_def key_of_def)

section \<open>The state behind the client\<close>

record 'q cluster =
  cl_namespaces :: "object_key \<rightharpoonup> namespace"
  cl_secrets :: "object_key \<rightharpoonup> secret"
  cl_config_maps :: "object_key \<rightharpoonup> config_map"
  cl_quotas :: "object_key \<rightharpoonup> 'q resource_quota"
  cl_deployments :: "object_key \<rightharpoonup> 'q deployment"
  cl_stateful_sets :: "object_key \<rightharpoonup> 'q stateful_set"
  cl_services :: "object_key \<rightharpoonup> service"
  cl_jobs :: "object_key \<rightharpoonup> 'q job"
  cl_claims :: "object_key \<rightharpoonup> 'q persistent_volume_claim"
  cl_pods :: "object_key \<rightharpoonup> pod"
  cl_tenants :: "object_key \<rightharpoonup> 'q tenant_environment"
  cl_observed :: "(string \<times> float64) list"

text \<open>The fields the server assigns when it stores an object.\<close>

definition with_server_fields :: "string \<Rightarrow> string \<Rightarrow> 'a kobject_scheme \<Rightarrow> 'a kobject_scheme" where
  "with_server_fields u v x =
     x\<lparr>ObjectMeta := (ObjectMeta x)\<lparr>MetaUID := u, MetaResourceVersion := v\<rparr>\<rparr>"

text \<open>An object whose deletion was accepted but waits for finalizers or for its contents.\<close>

definition terminating :: "int \<Rightarrow> string \<Rightarrow> 'a kobject_scheme \<Rightarrow> 'a kobject_scheme" where
  "terminating t v x =
     x\<lparr>ObjectMeta := (ObjectMeta x)\<lparr>MetaDeletionTimestamp := Some t, MetaResourceVersion := v\<rparr>\<rparr>"

definition matches_labels :: "(string \<times> string) list \<Rightarrow> 'a kobject_scheme \<Rightarrow> bool" where
  "matches_labels kvs x \<longleftrightarrow> (\<forall>(k, v) \<in> set kvs. gm_lookup (labels_of x) k = Some v)"

lemma server_fields_meta [simp]:
  "name_of (with_server_fields u v x) = name_of x"
  "namespace_of (with_server_fields u v x) = namespace_of x"
  "labels_of (with_server_fields u v x) = labels_of x"
  "annotations_of (with_server_fields u v x) = annotations_of x"
  "MetaFinalizers (ObjectMeta (with_server_fields u v x)) = MetaFinalizers (ObjectMeta x)"
  "MetaDeletionTimestamp (ObjectMeta (with_server_fields u v x)) = MetaDeletionTimestamp (ObjectMeta x)"
  "uid_of (with_server_fields u v x) = u"
  "MetaResourceVersion (ObjectMeta (with_server_fields u v x)) = v"
  "key_of (with_server_fields u v x) = key_of x"
  by (simp_all add: with_server_fields_def key_of_def)

lemma server_fields_data [simp]:
  "SecretType (with_server_fields u v se) = SecretType se"
  "SecretData (with_server_fields u v se) = SecretData se"
  "ConfigData (with_server_fields u v c) = ConfigData c"
  "Hard (with_server_fields u v q) = Hard q"
  "DeploymentReplicas (with_server_fields u v d) = DeploymentReplicas d"
  "DeploymentSelector (with_server_fields u v d) = DeploymentSelector d"
  "DeploymentTemplate (with_server_fields u v d) = DeploymentTemplate d"
  "StatefulSetReplicas (with_server_fields u v s) = StatefulSetReplicas s"
  "StatefulSetSelector (with_server_fields u v s) = StatefulSetSelector s"
  "StatefulSetTemplate (with_server_fields u v s) = StatefulSetTemplate s"
  "VolumeClaimTemplates (with_server_fields u v s) = VolumeClaimTemplates s"
  "JobTemplate (with_server_fields u v j) = JobTemplate j"
  "JobConditions (with_server_fields u v j) = JobConditions j"
  "Spec (with_server_fields u v t) = Spec t"
  "Status (with_server_fields u v t) = Status t"
  by (simp_all add: with_server_fields_def)

lemma terminating_meta [simp]:
  "name_of (terminating t v x) = name_of x"
  "namespace_of (terminating t v x) = namespace_of x"
  "labels_of (terminating t v x) = labels_of x"
  "annotations_of (terminating t v x) = annotations_of x"
  "uid_of (terminating t v x) = uid_of x"
  "MetaDeletionTimestamp (ObjectMeta (terminating t v x)) = Some t"
  "key_of (terminating t v x) = key_of x"
  by (simp_all add: terminating_def key_of_def)

section \<open>Laws of reads\<close>

locale readable =
  fixes api :: "('w, 'x kobject_scheme) resource_api"
    and view :: "'w \<Rightarrow> 'v"
    and sel :: "'v \<Rightarrow> object_key \<rightharpoonup> 'x kobject_scheme"
  assumes get_found: "ApiGet api ns n w = (Ok x, w') \<Longrightarrow> sel (view w) (ns, n) = Some x \<and> view w' = view w"
    and get_failed: "ApiGet api ns n w = (Err e, w') \<Longrightarrow>
          view w' = view w \<and> (is_not_found e \<longrightarrow> sel (view w) (ns, n) = None)"
    and get_returns: "ApiGet api ns n w \<noteq> (Panic s, w')"
    and list_found: "ApiList api ns kvs w = (Ok xs, w') \<Longrightarrow>
          view w' = view w \<and> distinct (map name_of xs) \<and>
          set xs = {x. sel (view w) (ns, name_of x) = Some x \<and> matches_labels kvs x}"
    and list_failed: "ApiList api ns kvs w = (Err e, w') \<Longrightarrow> view w' = view w"
    and list_returns: "ApiList api ns kvs w \<noteq> (Panic s, w')"
    and keyed: "sel (view w) k = Some x \<Longrightarrow> key_of x = k"
begin

lemma get_view: "ApiGet api ns n w = (r, w') \<Longrightarrow> view w' = view w"
  by (cases r) (auto dest: get_found get_failed simp: get_returns)

lemma list_view: "ApiList api ns kvs w = (r, w') \<Longrightarrow> view w' = view w"
  by (cases r) (auto dest: list_found list_failed simp: list_returns)

lemma get_present:
  "sel (view w) (ns, n) = Some x \<Longrightarrow> ApiGet api ns n w = (Ok y, w') \<Longrightarrow> y = x"
  by (auto dest: get_found)

lemma get_absent:
  assumes "sel (view w) (ns, n) = None"
  obtains e w' where "ApiGet api ns n w = (Err e, w')"
proof (cases "ApiGet api ns n w")
  case (Pair r w')
  with assms that show ?thesis by (cases r) (auto dest: get_found simp: get_returns)
qed

end

section \<open>Laws of writes\<close>

locale resource = readable api view sel
  for api :: "('w, 'x kobject_scheme) resource_api"
    and view :: "'w \<Rightarrow> 'v"
    and sel :: "'v \<Rightarrow> object_key \<rightharpoonup> 'x kobject_scheme" +
  fixes upd :: "((object_key \<rightharpoonup> 'x kobject_scheme) \<Rightarrow> (object_key \<rightharpoonup> 'x kobject_scheme)) \<Rightarrow> 'v \<Rightarrow> 'v"
  assumes sel_upd: "sel (upd f v) = f (sel v)"
    and create_ok: "ApiCreate api x w = (Ok x', w') \<Longrightarrow>
          sel (view w) (key_of x) = None \<and> (\<exists>u v. x' = with_server_fields u v x) \<and>
          view w' = upd (\<lambda>m. m(key_of x \<mapsto> x')) (view w)"
    and create_failed: "ApiCreate api x w = (Err e, w') \<Longrightarrow>
          view w' = view w \<or> (sel (view w) (key_of x) = None \<and>
            (\<exists>u v. view w' = upd (\<lambda>m. m(key_of x \<mapsto> with_server_fields u v x)) (view w)))"
    and create_returns: "ApiCreate api x w \<noteq> (Panic s, w')"
    and update_ok: "ApiUpdate api x w = (Ok x', w') \<Longrightarrow>
          sel (view w) (key_of x) \<noteq> None \<and> (\<exists>v. x' = with_server_fields (uid_of x) v x) \<and>
          view w' = upd (\<lambda>m. m(key_of x \<mapsto> x')) (view w)"
    and update_failed: "ApiUpdate api x w = (Err e, w') \<Longrightarrow>
          view w' = view w \<or> (sel (view w) (key_of x) \<noteq> None \<and> \<not> is_conflict e \<and>
            (\<exists>v. view w' = upd (\<lambda>m. m(key_of x \<mapsto> with_server_fields (uid_of x) v x)) (view w)))"
    and update_returns: "ApiUpdate api x w \<noteq> (Panic s, w')"
    and delete_ok: "ApiDelete api x opt w = (Ok (), w') \<Longrightarrow>
          view w' = upd (\<lambda>m. m(key_of x := None)) (view w) \<or>
          (\<exists>y t v. sel (view w) (key_of x) = Some y \<and>
             view w' = upd (\<lambda>m. m(key_of x \<mapsto> terminating t v y)) (view w))"
    and delete_failed: "ApiDelete api x opt w = (Err e, w') \<Longrightarrow>
          (if is_not_found e then view w' = view w \<and> sel (view w) (key_of x) = None
           else view w' = view w \<or> view w' = upd (\<lambda>m. m(key_of x := None)) (view w) \<or>
             (\<exists>y t v. sel (view w) (key_of x) = Some y \<and>
                view w' = upd (\<lambda>m. m(key_of x \<mapsto> terminating t v y)) (view w)))"
    and delete_returns: "ApiDelete api x opt w \<noteq> (Panic s, w')"
begin

text \<open>Whatever a write returns, it did one of two or three things to the stored objects.\<close>

lemma create_effect:
  assumes "ApiCreate api x w = (r, w')"
  shows "view w' = view w \<or> (sel (view w) (key_of x) = None \<and>
     (\<exists>u v. view w' = upd (\<lambda>m. m(key_of x \<mapsto> with_server_fields u v x)) (view w)))"
proof (cases r)
  case (Ok x')
  with assms show ?thesis using create_ok [of x w x' w'] by blast
next
  case (Err e)
  with assms show ?thesis using create_failed [of x w e w'] by blast
qed (use assms create_returns in auto)

lemma update_effect:
  assumes "ApiUpdate api x w = (r, w')"
  shows "view w' = view w \<or> (sel (view w) (key_of x) \<noteq> None \<and>
     (\<exists>v. view w' = upd (\<lambda>m. m(key_of x \<mapsto> with_server_fields (uid_of x) v x)) (view w)))"
proof (cases r)
  case (Ok x')
  with assms show ?thesis using update_ok [of x w x' w'] by blast
next
  case (Err e)
  with assms show ?thesis using update_failed [of x w e w'] by blast
qed (use assms update_returns in auto)

lemma delete_effect:
  assumes "ApiDelete api x opt w = (r, w')"
  shows "view w' = view w \<or> view w' = upd (\<lambda>m. m(key_of x := None)) (view w) \<or>
     (\<exists>y t v. sel (view w) (key_of x) = Some y \<and>
        view w' = upd (\<lambda>m. m(key_of x \<mapsto> terminating t v y)) (view w))"
proof (cases r)
  case (Ok u)
  with assms show ?thesis using delete_ok [of x opt w w'] by auto
next
  case (Err e)
  with assms show ?thesis using delete_failed [of x opt w e w'] by (auto split: if_splits)
qed (use assms delete_returns in auto)

end

text \<open>
  A kind with a status subresource: \<open>Update\<close> stores everything but the status, and removes an
  object under deletion once its last finalizer is gone; \<open>Status().Update\<close> stores only the status.
  Either way a status is stored, and comes back, with its times in whole seconds. The response of
  \<open>Status().Update\<close> is decoded over the object in memory: finalizers that only the memory holds
  survive when the response has none, since an absent field leaves the memory as it is; when it has
  some, whether the memory's or the response's remain is left open.
\<close>

locale status_resource = readable api view sel
  for api :: "('w, 'q tenant_environment) resource_api"
    and view :: "'w \<Rightarrow> 'v"
    and sel :: "'v \<Rightarrow> object_key \<rightharpoonup> 'q tenant_environment" +
  fixes upd :: "((object_key \<rightharpoonup> 'q tenant_environment) \<Rightarrow> (object_key \<rightharpoonup> 'q tenant_environment)) \<Rightarrow> 'v \<Rightarrow> 'v"
    and status_update :: "'q tenant_environment \<Rightarrow> ('w, 'q tenant_environment) prog"
  assumes main_ok: "ApiUpdate api x w = (Ok x', w') \<Longrightarrow>
          (\<exists>cur v. sel (view w) (key_of x) = Some cur \<and>
             x' = (with_server_fields (uid_of x) v x)\<lparr>Status := Status cur\<rparr> \<and>
             view w' = upd (\<lambda>m. m(key_of x :=
               (if MetaDeletionTimestamp (ObjectMeta cur) \<noteq> None \<and> MetaFinalizers (ObjectMeta x) = []
                then None else Some x'))) (view w))"
    and main_failed: "ApiUpdate api x w = (Err e, w') \<Longrightarrow>
          view w' = view w \<or>
          (\<exists>cur v. sel (view w) (key_of x) = Some cur \<and>
             view w' = upd (\<lambda>m. m(key_of x :=
               (if MetaDeletionTimestamp (ObjectMeta cur) \<noteq> None \<and> MetaFinalizers (ObjectMeta x) = []
                then None else Some ((with_server_fields (uid_of x) v x)\<lparr>Status := Status cur\<rparr>)))) (view w))"
    and main_returns: "ApiUpdate api x w \<noteq> (Panic s, w')"
    and status_ok: "status_update x w = (Ok x', w') \<Longrightarrow>
          (\<exists>cur v fs. sel (view w) (key_of x) = Some cur \<and>
             fs \<in> {MetaFinalizers (ObjectMeta x), MetaFinalizers (ObjectMeta cur)} \<and>
             (MetaFinalizers (ObjectMeta cur) = [] \<longrightarrow> fs = MetaFinalizers (ObjectMeta x)) \<and>
             (let stored = (with_server_fields (uid_of cur) v cur)\<lparr>Status := wire_status (Status x)\<rparr> in
                view w' = upd (\<lambda>m. m(key_of x \<mapsto> stored)) (view w) \<and>
                x' = stored\<lparr>ObjectMeta := (ObjectMeta stored)\<lparr>MetaFinalizers := fs\<rparr>\<rparr>))"
    and status_failed: "status_update x w = (Err e, w') \<Longrightarrow>
          view w' = view w \<or>
          (\<exists>cur v. sel (view w) (key_of x) = Some cur \<and>
             view w' = upd (\<lambda>m. m(key_of x \<mapsto>
               (with_server_fields (uid_of cur) v cur)\<lparr>Status := wire_status (Status x)\<rparr>)) (view w))"
    and status_returns: "status_update x w \<noteq> (Panic s, w')"
    and stored_status: "sel (view w) k = Some t \<Longrightarrow> wire_status (Status t) = Status t"
begin

lemma status_effect:
  assumes "status_update x w = (r, w')"
  shows "view w' = view w \<or> (\<exists>cur v. sel (view w) (key_of x) = Some cur \<and>
     view w' = upd (\<lambda>m. m(key_of x \<mapsto>
       (with_server_fields (uid_of cur) v cur)\<lparr>Status := wire_status (Status x)\<rparr>)) (view w))"
proof (cases r)
  case (Ok x')
  with assms show ?thesis using status_ok [of x w x' w'] by (auto simp: Let_def)
next
  case (Err e)
  with assms show ?thesis using status_failed [of x w e w'] by auto
qed (use assms status_returns in auto)

end
section \<open>Quantities\<close>

text \<open>
  The documented value of a quantity is a number with at most three decimals; \<open>amount\<close> is that
  number in thousandths. \<open>MilliValue\<close> and \<open>Value\<close> read it where it fits an \<open>int64\<close>
  (\<open>Value\<close> rounds up), \<open>Set\<close> replaces it by a whole number, \<open>Cmp\<close> compares values.
\<close>

locale quantity =
  fixes pkg :: "'q quantity_pkg"
    and amount :: "'q \<Rightarrow> int"
  assumes is_zero: "QIsZero pkg q \<longleftrightarrow> amount q = 0"
    and milli_value: "\<lbrakk>- (2 ^ 63) \<le> amount q; amount q < 2 ^ 63\<rbrakk> \<Longrightarrow> sint (QMilliValue pkg q) = amount q"
    and whole_value: "\<lbrakk>0 \<le> amount q; amount q \<le> 1000 * (2 ^ 63 - 1)\<rbrakk> \<Longrightarrow>
          sint (QValue pkg q) = (amount q + 999) div 1000"
    and set_value: "amount (QSet pkg v q) = 1000 * sint v"
    and new_value: "amount (QNew pkg v) = 1000 * sint v"
    and cmp_equal: "QCmp pkg q r = 0 \<longleftrightarrow> amount q = amount r"
    and parse_string: "\<lbrakk>0 \<le> amount q; amount q < 2 ^ 63\<rbrakk> \<Longrightarrow>
          \<exists>p. QParse pkg (QString pkg q) = Inr p \<and> amount p = amount q"
    and parse_half: "\<exists>p. QParse pkg ''0.5'' = Inr p \<and> amount p = 500"
    and parse_three_quarters: "\<exists>p. QParse pkg ''0.75'' = Inr p \<and> amount p = 750"

section \<open>The whole client\<close>

text \<open>
  \<open>retry.RetryOnConflict\<close> runs its argument again while it returns a conflict and gives up
  after some number of attempts: its outcome is that of the last attempt.
\<close>

inductive attempts :: "('w, unit) prog \<Rightarrow> 'w \<Rightarrow> unit result \<Rightarrow> 'w \<Rightarrow> bool" for m where
  last_attempt: "m w = (r, w') \<Longrightarrow> attempts m w r w'"
| next_attempt: "\<lbrakk>m w = (Err e, w1); is_conflict e; attempts m w1 r w'\<rbrakk> \<Longrightarrow> attempts m w r w'"

lemma attempts_steps:
  assumes "attempts m w r w'" and "preorder_rel R" and "steps R m"
  shows "R w w'"
  using assms(1)
proof (induction rule: attempts.induct)
  case (last_attempt w r w')
  then show ?case by (rule steps_run [OF assms(3)])
next
  case (next_attempt w e w1 r w')
  then show ?case
    using assms(2) steps_run [OF assms(3)] unfolding preorder_rel_def by (meson transpD)
qed

text \<open>Where a conflict leaves no trace, only the last attempt counts.\<close>

lemma attempts_last:
  assumes "attempts m w r w'" and "preorder_rel R"
    and "\<And>w e w1. \<lbrakk>m w = (Err e, w1); is_conflict e\<rbrakk> \<Longrightarrow> R w w1"
  obtains w1 where "R w w1" and "m w1 = (r, w')"
  using assms(1)
proof (induction arbitrary: thesis rule: attempts.induct)
  case (last_attempt w r w')
  from assms(2) have "R w w" by (auto simp: preorder_rel_def dest: reflpD)
  with last_attempt show ?case by blast
next
  case (next_attempt w e w1 r w')
  then obtain w2 where "R w1 w2" and w2: "m w2 = (r, w')" by blast
  moreover have "R w w1" using next_attempt.hyps(1,2) by (rule assms(3))
  ultimately have "R w w2" using assms(2) unfolding preorder_rel_def by (meson transpD)
  then show ?case using w2 by (rule next_attempt.prems)
qed

locale cluster_client =
  ns: resource "Namespaces rt" view cl_namespaces cl_namespaces_update +
  sec: resource "Secrets rt" view cl_secrets cl_secrets_update +
  cm: resource "ConfigMaps rt" view cl_config_maps cl_config_maps_update +
  quo: resource "Quotas rt" view cl_quotas cl_quotas_update +
  dep: resource "Deployments rt" view cl_deployments cl_deployments_update +
  sts: resource "StatefulSets rt" view cl_stateful_sets cl_stateful_sets_update +
  svc: resource "Services rt" view cl_services cl_services_update +
  job: resource "Jobs rt" view cl_jobs cl_jobs_update +
  pvc: resource "Claims rt" view cl_claims cl_claims_update +
  pod: readable "Pods rt" view cl_pods +
  ten: status_resource "Tenants rt" view cl_tenants cl_tenants_update "StatusUpdate rt"
  for rt :: "('w, 'q) runtime" and view :: "'w \<Rightarrow> 'q cluster" +
  assumes rand_view: "RandRead rt n w = (bytes, w') \<Longrightarrow> view w' = view w \<and> (\<forall>s. bytes \<noteq> Panic s)"
    and rand_length: "RandRead rt n w = (Ok bs, w') \<Longrightarrow> length bs = n"
    and now_view: "TimeNow rt w = (now, w') \<Longrightarrow> view w' = view w \<and> (\<exists>t. now = Ok t)"
    and observe_view: "ObserveDuration rt l d w = (r, w') \<Longrightarrow>
          r = Ok () \<and> view w' = (view w)\<lparr>cl_observed := cl_observed (view w) @ [(l, d)]\<rparr>"
    and contains_finalizer: "ContainsFinalizer rt t f \<longleftrightarrow> f \<in> set (MetaFinalizers (ObjectMeta t))"
    and add_finalizer: "AddFinalizer rt t f =
          (if f \<in> set (MetaFinalizers (ObjectMeta t)) then t
           else with_finalizers (MetaFinalizers (ObjectMeta t) @ [f]) t)"
    and remove_finalizer: "RemoveFinalizer rt t f =
          with_finalizers (filter (\<lambda>g. g \<noteq> f) (MetaFinalizers (ObjectMeta t))) t"
    and retry_attempts: "RetryOnConflict rt m w = (r, w') \<Longrightarrow> attempts m w r w'"

section \<open>Get or create\<close>

text \<open>
  Most of the controller's operations share one contract: look an object up, and create it when it
  is not there. An operation that succeeds leaves an existing object alone; else it stores an
  object with the key and with the property \<open>good\<close>, and nothing else changes.
\<close>

locale provides =
  fixes action :: "('w, 'r) prog"
    and view :: "'w \<Rightarrow> 'v"
    and sel :: "'v \<Rightarrow> object_key \<rightharpoonup> 'x kobject_scheme"
    and upd :: "((object_key \<rightharpoonup> 'x kobject_scheme) \<Rightarrow> (object_key \<rightharpoonup> 'x kobject_scheme)) \<Rightarrow> 'v \<Rightarrow> 'v"
    and key :: object_key
    and good :: "'x kobject_scheme \<Rightarrow> bool"
  assumes sel_upd: "sel (upd f v) = f (sel v)"
    and provide_ok: "action w = (Ok r, w') \<Longrightarrow>
          sel (view w) key \<noteq> None \<and> view w' = view w \<or>
          sel (view w) key = None \<and>
          (\<exists>x u v. good x \<and> view w' = upd (\<lambda>m. m(key \<mapsto> with_server_fields u v x)) (view w))"
begin

lemma provided: "action w = (Ok r, w') \<Longrightarrow> sel (view w') key \<noteq> None"
  by (auto dest!: provide_ok simp: sel_upd)

lemma provided_fresh:
  "\<lbrakk>action w = (Ok r, w'); sel (view w) key = None\<rbrakk>
    \<Longrightarrow> \<exists>x u v. good x \<and> sel (view w') key = Some (with_server_fields u v x)"
  by (drule provide_ok) (auto simp: sel_upd, blast)

lemma provided_kept:
  "\<lbrakk>action w = (Ok r, w'); sel (view w) k = Some y\<rbrakk> \<Longrightarrow> sel (view w') k = Some y"
  by (auto dest!: provide_ok simp: sel_upd)

lemma provided_others:
  "\<lbrakk>action w = (Ok r, w'); k \<noteq> key\<rbrakk> \<Longrightarrow> sel (view w') k = sel (view w) k"
  by (auto dest!: provide_ok simp: sel_upd)

lemma provided_again:
  "\<lbrakk>action w = (Ok r, w'); action w' = (Ok r', w'')\<rbrakk> \<Longrightarrow> view w'' = view w'"
  using provided provide_ok by blast

end

text \<open>The special case of a fixed literal.\<close>

locale ensures =
  fixes action :: "('w, 'r) prog"
    and view :: "'w \<Rightarrow> 'v"
    and sel :: "'v \<Rightarrow> object_key \<rightharpoonup> 'x kobject_scheme"
    and upd :: "((object_key \<rightharpoonup> 'x kobject_scheme) \<Rightarrow> (object_key \<rightharpoonup> 'x kobject_scheme)) \<Rightarrow> 'v \<Rightarrow> 'v"
    and literal :: "'x kobject_scheme"
  assumes sel_upd: "sel (upd f v) = f (sel v)"
    and ensure_ok: "action w = (Ok r, w') \<Longrightarrow>
          sel (view w) (key_of literal) \<noteq> None \<and> view w' = view w \<or>
          sel (view w) (key_of literal) = None \<and>
          (\<exists>u v. view w' = upd (\<lambda>m. m(key_of literal \<mapsto> with_server_fields u v literal)) (view w))"

sublocale ensures \<subseteq> given: provides action view sel upd "key_of literal" "\<lambda>x. x = literal"
proof
  show "sel (upd f v) = f (sel v)" for f v by (rule sel_upd)
qed (drule ensure_ok, blast)

context ensures
begin

lemma ensured_fresh:
  "\<lbrakk>action w = (Ok r, w'); sel (view w) (key_of literal) = None\<rbrakk>
    \<Longrightarrow> \<exists>u v. sel (view w') (key_of literal) = Some (with_server_fields u v literal)"
  using given.provided_fresh by blast

lemmas ensured = given.provided
lemmas ensured_kept = given.provided_kept
lemmas ensured_others = given.provided_others
lemmas ensured_again = given.provided_again

end

text \<open>The usual way to meet the contract, for the code's \<open>Get\<close>/\<open>IsNotFound\<close>/\<open>Create\<close> shape.\<close>

context resource
begin

lemma get_or_make:
  assumes run: "on_error (ApiGet api ns n)
       (\<lambda>e. if is_not_found e then and_then prepare (\<lambda>x. and_then (create x) (\<lambda>y. ret (created x y))) else fail e)
       (\<lambda>y. ret (found y)) w = (Ok r, w')"
    and made: "\<And>w x w'. prepare w = (Ok x, w') \<Longrightarrow> view w' = view w \<and> key_of x = (ns, n) \<and> good x"
    and creates: "\<And>x w y w'. create x w = (Ok y, w') \<Longrightarrow> ApiCreate api x w = (Ok y, w')"
  shows "(\<exists>y. sel (view w) (ns, n) = Some y \<and> r = found y \<and> view w' = view w) \<or>
    (sel (view w) (ns, n) = None \<and> (\<exists>x u v. good x \<and> key_of x = (ns, n) \<and>
      r = created x (with_server_fields u v x) \<and>
      view w' = upd (\<lambda>m. m((ns, n) \<mapsto> with_server_fields u v x)) (view w)))"
  using run
proof (cases rule: on_error_Ok [consumes 1, case_names found missing])
  case (found y w1)
  then show ?thesis by (auto dest: get_found)
next
  case (missing e w1)
  then have nf: "is_not_found e" and "ApiGet api ns n w = (Err e, w1)"
    by (auto split: if_splits)
  then have w1: "view w1 = view w" "sel (view w) (ns, n) = None"
    by (auto dest: get_failed)
  from missing(2) nf obtain x w2 y where x: "prepare w1 = (Ok x, w2)"
    and y: "create x w2 = (Ok y, w')" and r: "r = created x y"
    by (auto elim!: and_then_Ok)
  from made [OF x] create_ok [OF creates [OF y]] r w1 show ?thesis by auto
qed

lemma get_or_create:
  assumes run: "on_error (ApiGet api ns n)
       (\<lambda>e. if is_not_found e then and_then (ApiCreate api x) (\<lambda>y. ret (created y)) else fail e)
       (\<lambda>y. ret (found y)) w = (Ok r, w')"
    and key: "key_of x = (ns, n)"
  shows "(\<exists>y. sel (view w) (ns, n) = Some y \<and> r = found y \<and> view w' = view w) \<or>
    (sel (view w) (ns, n) = None \<and> (\<exists>u v. r = created (with_server_fields u v x) \<and>
      view w' = upd (\<lambda>m. m((ns, n) \<mapsto> with_server_fields u v x)) (view w)))"
  using run
proof (cases rule: on_error_Ok [consumes 1, case_names found missing])
  case (found y w1)
  then show ?thesis by (auto dest: get_found)
next
  case (missing e w1)
  then have nf: "is_not_found e" and "ApiGet api ns n w = (Err e, w1)"
    by (auto split: if_splits)
  then have w1: "view w1 = view w" "sel (view w) (ns, n) = None"
    by (auto dest: get_failed)
  from missing(2) nf obtain y where y: "ApiCreate api x w1 = (Ok y, w')" and r: "r = created y"
    by (auto elim: and_then_Ok)
  from create_ok [OF y] r w1 show ?thesis by (auto simp: key)
qed

end

section \<open>Frames and invariants of client calls\<close>

text \<open>
  \<open>vsteps\<close>: what a program may do to the state behind the client. The rules reduce a claim about
  a call to one about the single entry it writes.
\<close>

definition vsteps :: "('w \<Rightarrow> 'v) \<Rightarrow> ('v \<Rightarrow> 'v \<Rightarrow> bool) \<Rightarrow> ('w, 'a) prog \<Rightarrow> bool" where
  "vsteps view P m \<longleftrightarrow> steps (\<lambda>w w'. P (view w) (view w')) m"

lemma vsteps_preorder: "preorder_rel P \<Longrightarrow> preorder_rel (\<lambda>w w'. P (view w) (view w'))"
  by (auto simp: preorder_rel_def reflp_def transp_def)

lemma vstepsI: "(\<And>w r w'. m w = (r, w') \<Longrightarrow> P (view w) (view w')) \<Longrightarrow> vsteps view P m"
  unfolding vsteps_def by (rule stepsI)

lemma vsteps_run: "vsteps view P m \<Longrightarrow> m w = (r, w') \<Longrightarrow> P (view w) (view w')"
  unfolding vsteps_def by (rule steps_run)

named_theorems vsteps_rules "a program only makes steps of a relation on the cluster"

lemma vsteps_control [vsteps_rules]:
  assumes "preorder_rel P"
  shows "vsteps view P (ret x)" "vsteps view P (fail e)" "vsteps view P (crash s)"
    "vsteps view P (slice_to str n)" "vsteps view P (slice_last str n)"
    "\<lbrakk>vsteps view P m; \<And>e. vsteps view P (h e); \<And>a. vsteps view P (k a)\<rbrakk> \<Longrightarrow> vsteps view P (on_error m h k)"
    "\<lbrakk>vsteps view P m; \<And>a. vsteps view P (k a)\<rbrakk> \<Longrightarrow> vsteps view P (and_then m k)"
    "vsteps view P m \<Longrightarrow> vsteps view P (wrapping msg m)"
    "vsteps view P m \<Longrightarrow> vsteps view P (ignoring m)"
  using vsteps_preorder [OF assms] unfolding vsteps_def by (auto intro: steps_rules)

lemma vsteps_branch [vsteps_rules]:
  "\<lbrakk>b \<Longrightarrow> vsteps view P m; \<not> b \<Longrightarrow> vsteps view P n\<rbrakk> \<Longrightarrow> vsteps view P (if b then m else n)"
  "\<lbrakk>x = None \<Longrightarrow> vsteps view P m; \<And>a. x = Some a \<Longrightarrow> vsteps view P (l a)\<rbrakk>
    \<Longrightarrow> vsteps view P (case x of None \<Rightarrow> m | Some a \<Rightarrow> l a)"
  by (auto split: option.splits)

lemma vsteps_MustParse [vsteps_rules]: "preorder_rel P \<Longrightarrow> vsteps view P (MustParse rt s)"
  unfolding MustParse_def by (cases "QParse (Quantities rt) s") (auto intro: vsteps_rules)

lemma preorder_frame [intro, simp]: "preorder_rel (\<lambda>v v'. f v' = f v)"
  by (rule preorder_relI) auto

context readable
begin

lemma vsteps_reads:
  assumes "preorder_rel P"
  shows "vsteps view P (ApiGet api ns n)" "vsteps view P (ApiList api ns kvs)"
  using assms
  by (auto intro!: vstepsI dest!: get_view list_view simp: preorder_rel_def reflp_def)

end

context resource
begin

lemma vsteps_create:
  assumes "preorder_rel P"
    and "\<And>v u r. sel v (key_of x) = None \<Longrightarrow> P v (upd (\<lambda>m. m(key_of x \<mapsto> with_server_fields u r x)) v)"
  shows "vsteps view P (ApiCreate api x)"
  using assms
  by (intro vstepsI) (drule create_effect, auto simp: preorder_rel_def reflp_def)

lemma vsteps_update:
  assumes "preorder_rel P"
    and "\<And>v r. sel v (key_of x) \<noteq> None \<Longrightarrow>
           P v (upd (\<lambda>m. m(key_of x \<mapsto> with_server_fields (uid_of x) r x)) v)"
  shows "vsteps view P (ApiUpdate api x)"
  using assms
  by (intro vstepsI) (drule update_effect, fastforce simp: preorder_rel_def reflp_def)

lemma vsteps_delete:
  assumes "preorder_rel P"
    and "\<And>v. P v (upd (\<lambda>m. m(key_of x := None)) v)"
    and "\<And>v y t r. sel v (key_of x) = Some y \<Longrightarrow> P v (upd (\<lambda>m. m(key_of x \<mapsto> terminating t r y)) v)"
  shows "vsteps view P (ApiDelete api x opt)"
  using assms
  by (intro vstepsI) (drule delete_effect, auto simp: preorder_rel_def reflp_def)

lemmas vsteps_resource = vsteps_reads vsteps_create vsteps_update vsteps_delete

end

context status_resource
begin

lemma main_effect:
  assumes "ApiUpdate api x w = (r, w')"
  shows "view w' = view w \<or> (\<exists>cur v. sel (view w) (key_of x) = Some cur \<and>
     view w' = upd (\<lambda>m. m(key_of x :=
       (if MetaDeletionTimestamp (ObjectMeta cur) \<noteq> None \<and> MetaFinalizers (ObjectMeta x) = []
        then None else Some ((with_server_fields (uid_of x) v x)\<lparr>Status := Status cur\<rparr>)))) (view w))"
proof (cases r)
  case (Ok x')
  with assms show ?thesis using main_ok [of x w x' w'] by metis
next
  case (Err e)
  with assms show ?thesis using main_failed [of x w e w'] by metis
qed (use assms main_returns in auto)

lemma vsteps_main:
  assumes "preorder_rel P" and "\<And>v f. P v (upd f v)"
  shows "vsteps view P (ApiUpdate api x)"
proof (rule vstepsI)
  fix w r w'
  assume "ApiUpdate api x w = (r, w')"
  then have "view w' = view w \<or> (\<exists>f. view w' = upd f (view w))"
    by (drule_tac main_effect) blast
  with assms show "P (view w) (view w')" by (auto simp: preorder_rel_def reflp_def)
qed

lemma vsteps_status:
  assumes "preorder_rel P" and "\<And>v f. P v (upd f v)"
  shows "vsteps view P (status_update x)"
proof (rule vstepsI)
  fix w r w'
  assume "status_update x w = (r, w')"
  then have "view w' = view w \<or> (\<exists>f. view w' = upd f (view w))"
    by (drule_tac status_effect) blast
  with assms show "P (view w) (view w')" by (auto simp: preorder_rel_def reflp_def)
qed

end

context cluster_client
begin

lemma vsteps_rand: "preorder_rel P \<Longrightarrow> vsteps view P (RandRead rt n)"
  by (rule vstepsI) (drule rand_view, simp add: preorder_rel_def reflp_def)

lemma vsteps_now: "preorder_rel P \<Longrightarrow> vsteps view P (TimeNow rt)"
  by (rule vstepsI) (drule now_view, simp add: preorder_rel_def reflp_def)

lemma vsteps_observe:
  "\<lbrakk>preorder_rel P; \<And>v. P v (v\<lparr>cl_observed := cl_observed v @ [(l, d)]\<rparr>)\<rbrakk>
    \<Longrightarrow> vsteps view P (ObserveDuration rt l d)"
  by (rule vstepsI) (drule observe_view, simp)

lemma vsteps_retry:
  assumes "preorder_rel P" and "vsteps view P m"
  shows "vsteps view P (RetryOnConflict rt m)"
proof (rule vstepsI)
  fix w r w'
  assume "RetryOnConflict rt m w = (r, w')"
  then have "attempts m w r w'" by (rule retry_attempts)
  then show "P (view w) (view w')"
    using vsteps_preorder [OF assms(1)] assms(2) [unfolded vsteps_def] by (rule attempts_steps)
qed

text \<open>Everything a handler can call, for \<open>intro\<close>.\<close>

lemmas client_steps =
  ns.vsteps_resource sec.vsteps_resource cm.vsteps_resource quo.vsteps_resource
  dep.vsteps_resource sts.vsteps_resource svc.vsteps_resource job.vsteps_resource
  pvc.vsteps_resource pod.vsteps_reads ten.vsteps_reads ten.vsteps_main ten.vsteps_status
  vsteps_rand vsteps_now vsteps_observe vsteps_retry

end

section \<open>Growth\<close>

text \<open>
  The relation of a program that only creates: whatever was stored stays exactly as it was, and the
  tenants, the pods and the recorded durations do not change.
\<close>

definition only_adds :: "'q cluster \<Rightarrow> 'q cluster \<Rightarrow> bool" where
  "only_adds v v' \<longleftrightarrow>
     cl_namespaces v \<subseteq>\<^sub>m cl_namespaces v' \<and> cl_secrets v \<subseteq>\<^sub>m cl_secrets v' \<and>
     cl_config_maps v \<subseteq>\<^sub>m cl_config_maps v' \<and> cl_quotas v \<subseteq>\<^sub>m cl_quotas v' \<and>
     cl_deployments v \<subseteq>\<^sub>m cl_deployments v' \<and> cl_stateful_sets v \<subseteq>\<^sub>m cl_stateful_sets v' \<and>
     cl_services v \<subseteq>\<^sub>m cl_services v' \<and> cl_jobs v \<subseteq>\<^sub>m cl_jobs v' \<and>
     cl_claims v' = cl_claims v \<and> cl_pods v' = cl_pods v \<and> cl_tenants v' = cl_tenants v \<and>
     cl_observed v' = cl_observed v"

lemma only_adds_preorder [simp]: "preorder_rel only_adds"
  by (rule preorder_relI) (auto simp: only_adds_def intro: map_le_trans)

lemma map_le_fresh: "m k = None \<Longrightarrow> m \<subseteq>\<^sub>m m(k \<mapsto> x)"
  by (auto simp: map_le_def)

lemma map_le_kept: "\<lbrakk>m \<subseteq>\<^sub>m m'; m k = Some x\<rbrakk> \<Longrightarrow> m' k = Some x"
  by (metis domI map_le_def)

lemma only_adds_kept:
  "\<lbrakk>only_adds v v'; cl_secrets v k = Some s\<rbrakk> \<Longrightarrow> cl_secrets v' k = Some s"
  "\<lbrakk>only_adds v v'; cl_stateful_sets v k = Some ss\<rbrakk> \<Longrightarrow> cl_stateful_sets v' k = Some ss"
  "\<lbrakk>only_adds v v'; cl_services v k = Some sv\<rbrakk> \<Longrightarrow> cl_services v' k = Some sv"
  "\<lbrakk>only_adds v v'; cl_jobs v k = Some j\<rbrakk> \<Longrightarrow> cl_jobs v' k = Some j"
  "\<lbrakk>only_adds v v'; cl_config_maps v k = Some c\<rbrakk> \<Longrightarrow> cl_config_maps v' k = Some c"
  unfolding only_adds_def by (elim conjE, erule (1) map_le_kept)+

context cluster_client
begin

lemma creates_add:
  "vsteps view only_adds (ApiCreate (Namespaces rt) n)"
  "vsteps view only_adds (ApiCreate (Secrets rt) se)"
  "vsteps view only_adds (ApiCreate (ConfigMaps rt) c)"
  "vsteps view only_adds (ApiCreate (Quotas rt) q)"
  "vsteps view only_adds (ApiCreate (Deployments rt) d)"
  "vsteps view only_adds (ApiCreate (StatefulSets rt) s)"
  "vsteps view only_adds (ApiCreate (Services rt) sv)"
  "vsteps view only_adds (ApiCreate (Jobs rt) j)"
  by (rule ns.vsteps_create sec.vsteps_create cm.vsteps_create quo.vsteps_create dep.vsteps_create
        sts.vsteps_create svc.vsteps_create job.vsteps_create,
      simp, simp add: only_adds_def map_le_fresh)+

lemmas adds_rules = vsteps_rules creates_add
  ns.vsteps_reads sec.vsteps_reads cm.vsteps_reads quo.vsteps_reads dep.vsteps_reads
  sts.vsteps_reads svc.vsteps_reads job.vsteps_reads pvc.vsteps_reads pod.vsteps_reads
  ten.vsteps_reads vsteps_rand vsteps_now only_adds_preorder

end

section \<open>Deletion\<close>

text \<open>
  A deleted object is gone, or it terminates: it stays, with a deletion timestamp, until its
  finalizers and dependents are done. A program that only deletes leaves every other entry alone.
\<close>

definition gone :: "(object_key \<rightharpoonup> 'x kobject_scheme) \<Rightarrow> (object_key \<rightharpoonup> 'x kobject_scheme) \<Rightarrow> object_key \<Rightarrow> bool" where
  "gone m m' k \<longleftrightarrow> m' k = None \<or> (\<exists>y t v. m k = Some y \<and> m' k = Some (terminating t v y))"

definition reaped :: "(object_key \<rightharpoonup> 'x kobject_scheme) \<Rightarrow> (object_key \<rightharpoonup> 'x kobject_scheme) \<Rightarrow> bool" where
  "reaped m m' \<longleftrightarrow> (\<forall>k. m' k = m k \<or> gone m m' k)"

lemma reapedD: "reaped m m' \<Longrightarrow> m' k = m k \<or> gone m m' k"
  unfolding reaped_def by blast

lemma terminating_twice [simp]: "terminating t v (terminating t' v' x) = terminating t v x"
  by (simp add: terminating_def)

lemma reaped_refl [simp]: "reaped m m"
  by (simp add: reaped_def)

lemma gone_terminating: "\<lbrakk>m k = Some y; m' k = Some (terminating t v y)\<rbrakk> \<Longrightarrow> gone m m' k"
  unfolding gone_def by blast

lemma gone_trans:
  assumes "gone m m' k" and "gone m' m'' k"
  shows "gone m m'' k"
  using assms(2) unfolding gone_def [of m' m'' k]
proof (elim disjE exE conjE)
  assume "m'' k = None"
  then show ?thesis by (simp add: gone_def)
next
  fix y t v
  assume y: "m' k = Some y" "m'' k = Some (terminating t v y)"
  with assms(1) obtain x t' v' where "m k = Some x" "y = terminating t' v' x"
    unfolding gone_def by auto
  with y show ?thesis by (intro gone_terminating) simp_all
qed

lemma gone_reaped:
  assumes "gone m m' k" and "reaped m' m''"
  shows "gone m m'' k"
proof -
  from assms(2) have "m'' k = m' k \<or> gone m' m'' k" by (rule reapedD)
  then show ?thesis
  proof
    assume "m'' k = m' k"
    with assms(1) show ?thesis by (simp add: gone_def)
  qed (rule gone_trans [OF assms(1)])
qed

lemma reaped_gone:
  assumes "reaped m m'" and "gone m' m'' k"
  shows "gone m m'' k"
proof -
  from assms(1) have "m' k = m k \<or> gone m m' k" by (rule reapedD)
  then show ?thesis
  proof
    assume "m' k = m k"
    with assms(2) show ?thesis by (simp add: gone_def)
  qed (rule gone_trans [OF _ assms(2)])
qed

lemma reaped_trans:
  assumes "reaped m m'" and "reaped m' m''"
  shows "reaped m m''"
  unfolding reaped_def
proof
  fix k
  from assms(2) have "m'' k = m' k \<or> gone m' m'' k" by (rule reapedD)
  then show "m'' k = m k \<or> gone m m'' k"
  proof
    assume same: "m'' k = m' k"
    from assms(1) have "m' k = m k \<or> gone m m' k" by (rule reapedD)
    with same show ?thesis by (simp add: gone_def)
  next
    assume "gone m' m'' k"
    with assms(1) show ?thesis by (blast intro: reaped_gone)
  qed
qed

lemma reaped_delete [simp]: "reaped m (m(k := None))"
  by (auto simp: reaped_def gone_def)

lemma reaped_terminate: "m k = Some y \<Longrightarrow> reaped m (m(k \<mapsto> terminating t v y))"
  by (auto simp: reaped_def gone_def)

definition only_reaps :: "'q cluster \<Rightarrow> 'q cluster \<Rightarrow> bool" where
  "only_reaps v v' \<longleftrightarrow>
     reaped (cl_secrets v) (cl_secrets v') \<and> reaped (cl_stateful_sets v) (cl_stateful_sets v') \<and>
     reaped (cl_services v) (cl_services v') \<and> reaped (cl_jobs v) (cl_jobs v') \<and>
     reaped (cl_claims v) (cl_claims v') \<and> reaped (cl_namespaces v) (cl_namespaces v') \<and>
     reaped (cl_quotas v) (cl_quotas v') \<and> cl_config_maps v' = cl_config_maps v \<and>
     cl_deployments v' = cl_deployments v \<and> cl_pods v' = cl_pods v \<and>
     cl_tenants v' = cl_tenants v \<and> cl_observed v' = cl_observed v"

lemma only_reaps_preorder [simp]: "preorder_rel only_reaps"
  by (rule preorder_relI) (simp_all add: only_reaps_def, blast intro: reaped_trans)

context resource
begin

lemma delete_gone:
  assumes "ApiDelete api x opt w = (r, w')" and "r = Ok () \<or> (\<exists>e. r = Err e \<and> is_not_found e)"
  shows "gone (sel (view w)) (sel (view w')) (key_of x)"
  using assms(2)
proof (elim disjE exE conjE)
  assume "r = Ok ()"
  with assms(1) have "ApiDelete api x opt w = (Ok (), w')" by simp
  from delete_ok [OF this] show ?thesis
    by (elim disjE exE conjE) (auto simp: sel_upd gone_def intro: gone_terminating)
next
  fix e
  assume "r = Err e" "is_not_found e"
  with assms(1) show ?thesis by (auto dest!: delete_failed simp: gone_def)
qed

end

context cluster_client
begin

lemma deletes_reap:
  "vsteps view only_reaps (ApiDelete (Secrets rt) se opt)"
  "vsteps view only_reaps (ApiDelete (StatefulSets rt) s opt)"
  "vsteps view only_reaps (ApiDelete (Services rt) sv opt)"
  "vsteps view only_reaps (ApiDelete (Jobs rt) j opt)"
  "vsteps view only_reaps (ApiDelete (Claims rt) c opt)"
  "vsteps view only_reaps (ApiDelete (Namespaces rt) n opt)"
  "vsteps view only_reaps (ApiDelete (Quotas rt) q opt)"
  by (rule sec.vsteps_delete sts.vsteps_delete svc.vsteps_delete job.vsteps_delete pvc.vsteps_delete
        ns.vsteps_delete quo.vsteps_delete,
      simp, simp add: only_reaps_def, simp add: only_reaps_def reaped_terminate)+

lemmas reaps_rules = vsteps_rules deletes_reap
  ns.vsteps_reads sec.vsteps_reads cm.vsteps_reads quo.vsteps_reads dep.vsteps_reads
  sts.vsteps_reads svc.vsteps_reads job.vsteps_reads pvc.vsteps_reads pod.vsteps_reads
  ten.vsteps_reads only_reaps_preorder

end

end
