(* ===== verification/Utils.thy ===== *)
theory Utils
  imports Client
begin

text \<open>
  \<open>internal/controller/utils.go\<close>, apart from the resource quota and the deployment: fetching a
  TenantEnvironment, creating and deleting the tenant namespace, the shared-services namespace,
  and the random identifiers and passwords. Log calls are left out throughout.
\<close>

section \<open>Fetching a tenant\<close>

definition GetTenantEnvironment ::
  "('w, 'q) runtime \<Rightarrow> string \<Rightarrow> string \<Rightarrow> ('w, 'q tenant_environment) prog" where
  "GetTenantEnvironment rt ns n = and_then (ApiGet (Tenants rt) ns n) ret"

section \<open>Namespaces\<close>

text \<open>The literal of \<open>CreateNamespaceForTenant\<close>. Namespaces are cluster-scoped: their own namespace is empty.\<close>

definition tenant_namespace_object :: "'q tenant_environment \<Rightarrow> namespace" where
  "tenant_namespace_object tenantEnv = \<lparr>ObjectMeta = no_meta\<lparr>
     MetaName := ''tenant-'' @ uid_of tenantEnv,
     MetaLabels := Some [
       (''tenant.core.mellifluus.io/tenant-uid'', uid_of tenantEnv),
       (''tenant.core.mellifluus.io/managed-by'', ''tenant-operator''),
       (''tenant.core.mellifluus.io/resource-name'', name_of tenantEnv)]\<rparr>\<rparr>"

definition CreateNamespaceForTenant ::
  "('w, 'q) runtime \<Rightarrow> 'q tenant_environment \<Rightarrow> ('w, unit) prog" where
  "CreateNamespaceForTenant rt tenantEnv =
     (let namespaceName = ''tenant-'' @ uid_of tenantEnv in
      on_error (ApiGet (Namespaces rt) '''' namespaceName)
        (\<lambda>err. if is_not_found err
               then and_then (ApiCreate (Namespaces rt) (tenant_namespace_object tenantEnv)) (\<lambda>_. ret ())
               else fail err)
        (\<lambda>_. ret ()))"

definition DeleteNamespaceForTenant :: "('w, 'q) runtime \<Rightarrow> string \<Rightarrow> ('w, unit) prog" where
  "DeleteNamespaceForTenant rt tenantID =
     (let namespaceName = ''tenant-'' @ tenantID in
      on_error (ApiGet (Namespaces rt) '''' namespaceName)
        (\<lambda>err. if \<not> is_not_found err then fail err else ret ())
        (\<lambda>namespace. and_then (ApiDelete (Namespaces rt) namespace None) (\<lambda>_. ret ())))"

definition shared_namespace_object :: namespace where
  "shared_namespace_object = \<lparr>ObjectMeta = no_meta\<lparr>
     MetaName := ''shared-services'',
     MetaLabels := Some [
       (''tenant.core.mellifluus.io/managed-by'', ''tenant-operator''),
       (''tenant.core.mellifluus.io/type'', ''shared-services'')]\<rparr>\<rparr>"

definition ensureSharedServicesNamespace :: "('w, 'q) runtime \<Rightarrow> ('w, unit) prog" where
  "ensureSharedServicesNamespace rt =
     on_error (ApiGet (Namespaces rt) '''' ''shared-services'')
       (\<lambda>err. if is_not_found err
              then and_then (ApiCreate (Namespaces rt) shared_namespace_object) (\<lambda>_. ret ())
              else fail err)
       (\<lambda>_. ret ())"

lemma namespace_keys [simp]:
  "key_of (tenant_namespace_object t) = ('''', ''tenant-'' @ uid_of t)"
  "key_of shared_namespace_object = ('''', ''shared-services'')"
  by (simp_all add: tenant_namespace_object_def shared_namespace_object_def key_of_def)

section \<open>Random identifiers\<close>

definition password_charset :: string where
  "password_charset = ''abcdefghijklmnopqrstuvwxyzABCDEFGHIJKLMNOPQRSTUVWXYZ0123456789-_''"

definition id_charset :: string where
  "id_charset = ''abcdefghijklmnopqrstuvwxyz''"

text \<open>\<open>charset[b % byte(len(charset))]\<close> on bytes.\<close>

definition pick_char :: "string \<Rightarrow> 8 word \<Rightarrow> char" where
  "pick_char charset b = charset ! unat (b mod of_nat (length charset))"

definition generatePassword :: "('w, 'q) runtime \<Rightarrow> nat \<Rightarrow> ('w, string) prog" where
  "generatePassword rt len =
     and_then (RandRead rt len) (\<lambda>bytes. ret (map (pick_char password_charset) bytes))"

definition generateId :: "('w, 'q) runtime \<Rightarrow> nat \<Rightarrow> ('w, string) prog" where
  "generateId rt len =
     and_then (RandRead rt len) (\<lambda>bytes. ret (map (pick_char id_charset) bytes))"

lemma charset_lengths [simp]:
  "length password_charset = 64" "length id_charset = 26" "password_charset \<noteq> []" "id_charset \<noteq> []"
  by (simp_all add: password_charset_def id_charset_def)

text \<open>The index is always in range, so the code's indexing cannot panic.\<close>

lemma pick_char_in:
  assumes "0 < length charset" and "length charset < 256"
  shows "pick_char charset b \<in> set charset"
proof -
  have "unat (b mod of_nat (length charset)) < length charset"
    using assms by (simp add: unat_mod unat_of_nat)
  then show ?thesis by (simp add: pick_char_def)
qed

section \<open>Contracts\<close>

sublocale cluster_client \<subseteq> tenant_ns: ensures "CreateNamespaceForTenant rt t" view
    cl_namespaces cl_namespaces_update "tenant_namespace_object t" for t
proof
  fix w w' r
  assume "CreateNamespaceForTenant rt t w = (Ok r, w')"
  from ns.get_or_create [OF this [unfolded CreateNamespaceForTenant_def Let_def] namespace_keys(1)]
  show "cl_namespaces (view w) (key_of (tenant_namespace_object t)) \<noteq> None \<and> view w' = view w \<or>
      cl_namespaces (view w) (key_of (tenant_namespace_object t)) = None \<and>
      (\<exists>u v. view w' = cl_namespaces_update (\<lambda>m. m(key_of (tenant_namespace_object t) \<mapsto>
         with_server_fields u v (tenant_namespace_object t))) (view w))"
    unfolding namespace_keys by blast
qed simp

sublocale cluster_client \<subseteq> shared_ns: ensures "ensureSharedServicesNamespace rt" view
    cl_namespaces cl_namespaces_update shared_namespace_object
proof
  fix w w' r
  assume "ensureSharedServicesNamespace rt w = (Ok r, w')"
  from ns.get_or_create [OF this [unfolded ensureSharedServicesNamespace_def] namespace_keys(2)]
  show "cl_namespaces (view w) (key_of shared_namespace_object) \<noteq> None \<and> view w' = view w \<or>
      cl_namespaces (view w) (key_of shared_namespace_object) = None \<and>
      (\<exists>u v. view w' = cl_namespaces_update (\<lambda>m. m(key_of shared_namespace_object \<mapsto>
         with_server_fields u v shared_namespace_object)) (view w))"
    unfolding namespace_keys by blast
qed simp

context cluster_client
begin

lemma vsteps_generate:
  "preorder_rel P \<Longrightarrow> vsteps view P (generatePassword rt n)"
  "preorder_rel P \<Longrightarrow> vsteps view P (generateId rt n)"
  unfolding generatePassword_def generateId_def by (intro vsteps_rules vsteps_rand; assumption)+

lemma generatePassword_Ok:
  assumes "generatePassword rt n w = (Ok s, w')"
  shows "length s = n" "set s \<subseteq> set password_charset" "view w' = view w"
proof -
  obtain bytes where run: "RandRead rt n w = (Ok bytes, w')"
    and s: "s = map (pick_char password_charset) bytes"
    using assms unfolding generatePassword_def by (auto elim: and_then_Ok)
  show "length s = n" using rand_length [OF run] by (simp add: s)
  show "set s \<subseteq> set password_charset" by (auto simp: s intro: pick_char_in)
  show "view w' = view w" using rand_view [OF run] by simp
qed

lemma generateId_Ok:
  assumes "generateId rt n w = (Ok s, w')"
  shows "length s = n" "set s \<subseteq> set id_charset" "view w' = view w"
proof -
  obtain bytes where run: "RandRead rt n w = (Ok bytes, w')"
    and s: "s = map (pick_char id_charset) bytes"
    using assms unfolding generateId_def by (auto elim: and_then_Ok)
  show "length s = n" using rand_length [OF run] by (simp add: s)
  show "set s \<subseteq> set id_charset" by (auto simp: s intro: pick_char_in)
  show "view w' = view w" using rand_view [OF run] by simp
qed

lemma DeleteNamespace_Ok:
  assumes "DeleteNamespaceForTenant rt u w = (Ok (), w')"
  defines "k \<equiv> ('''', ''tenant-'' @ u)"
  shows "cl_namespaces (view w') k = None \<or>
      (\<exists>y t v. cl_namespaces (view w) k = Some y \<and> cl_namespaces (view w') k = Some (terminating t v y))"
    and "view w' = (view w)\<lparr>cl_namespaces := (cl_namespaces (view w))(k := cl_namespaces (view w') k)\<rparr>"
proof -
  from assms(1) consider
      (found) y w1 where "ApiGet (Namespaces rt) '''' (''tenant-'' @ u) w = (Ok y, w1)"
        "ApiDelete (Namespaces rt) y None w1 = (Ok (), w')"
    | (missing) e where "ApiGet (Namespaces rt) '''' (''tenant-'' @ u) w = (Err e, w')" "is_not_found e"
    unfolding DeleteNamespaceForTenant_def Let_def
    by (auto elim!: on_error_Ok and_then_Ok split: if_splits)
  then have "(cl_namespaces (view w') k = None \<or>
      (\<exists>y t v. cl_namespaces (view w) k = Some y \<and> cl_namespaces (view w') k = Some (terminating t v y))) \<and>
      view w' = (view w)\<lparr>cl_namespaces := (cl_namespaces (view w))(k := cl_namespaces (view w') k)\<rparr>"
  proof cases
    case found
    then have w1: "view w1 = view w" and y: "cl_namespaces (view w) k = Some y"
      by (auto dest: ns.get_found simp: k_def)
    with ns.keyed [OF y] ns.delete_ok [OF found(2)] show ?thesis by (auto, blast)
  next
    case missing
    then have "view w' = view w" "cl_namespaces (view w) k = None"
      by (auto dest: ns.get_failed simp: k_def)
    then show ?thesis by (simp add: fun_upd_idem)
  qed
  then show "cl_namespaces (view w') k = None \<or>
      (\<exists>y t v. cl_namespaces (view w) k = Some y \<and> cl_namespaces (view w') k = Some (terminating t v y))"
    and "view w' = (view w)\<lparr>cl_namespaces := (cl_namespaces (view w))(k := cl_namespaces (view w') k)\<rparr>"
    by blast+
qed

end

end
