(* ===== verification/MemClient.thy ===== *)
theory MemClient
  imports Client
begin

text \<open>
  An in-memory API server, in the manner of the fake clients used in controller tests: one list
  of objects per kind, versions that grow with every write, conflicts on stale versions, and
  quantities counted in thousandths. It shows that the laws of \<open>Client\<close> can hold together (it
  interprets \<open>cluster_client\<close> and \<open>quantity\<close>), and the witnesses run the controller on it.
\<close>

section \<open>The world\<close>

record mem_world =
  w_namespaces :: "namespace list"
  w_secrets :: "secret list"
  w_config_maps :: "config_map list"
  w_quotas :: "int resource_quota list"
  w_deployments :: "int deployment list"
  w_stateful_sets :: "int stateful_set list"
  w_services :: "service list"
  w_jobs :: "int job list"
  w_claims :: "int persistent_volume_claim list"
  w_pods :: "pod list"
  w_tenants :: "int tenant_environment list"
  w_observed :: "(string \<times> float64) list"
  w_version :: nat
  w_clock :: int

definition empty_world :: mem_world where
  "empty_world = \<lparr>w_namespaces = [], w_secrets = [], w_config_maps = [], w_quotas = [],
     w_deployments = [], w_stateful_sets = [], w_services = [], w_jobs = [], w_claims = [],
     w_pods = [], w_tenants = [], w_observed = [], w_version = 1, w_clock = 0\<rparr>"

definition stored :: "'x kobject_scheme list \<Rightarrow> object_key \<rightharpoonup> 'x kobject_scheme" where
  "stored xs = (\<lambda>k. find (\<lambda>x. key_of x = k) xs)"

text \<open>Tenants as they are served: with the times of their status in whole seconds.\<close>

definition wired :: "'q tenant_environment \<Rightarrow> 'q tenant_environment" where
  "wired t = t\<lparr>Status := wire_status (Status t)\<rparr>"

definition tenants_of :: "mem_world \<Rightarrow> int tenant_environment list" where
  "tenants_of w = map wired (w_tenants w)"

definition mem_view :: "mem_world \<Rightarrow> int cluster" where
  "mem_view w = \<lparr>cl_namespaces = stored (w_namespaces w), cl_secrets = stored (w_secrets w),
     cl_config_maps = stored (w_config_maps w), cl_quotas = stored (w_quotas w),
     cl_deployments = stored (w_deployments w), cl_stateful_sets = stored (w_stateful_sets w),
     cl_services = stored (w_services w), cl_jobs = stored (w_jobs w),
     cl_claims = stored (w_claims w), cl_pods = stored (w_pods w),
     cl_tenants = stored (tenants_of w), cl_observed = w_observed w\<rparr>"

definition bump :: "mem_world \<Rightarrow> mem_world" where
  "bump w = w\<lparr>w_version := Suc (w_version w)\<rparr>"

definition version_of :: "mem_world \<Rightarrow> string" where
  "version_of w = strconv_Itoa (int (w_version w))"

lemma mem_view_tenants:
  "mem_view (w_tenants_update f w) = (mem_view w)\<lparr>cl_tenants := stored (map wired (f (w_tenants w)))\<rparr>"
  by (simp add: mem_view_def tenants_of_def)

lemma mem_view_bump [simp]: "mem_view (bump w) = mem_view w"
  by (simp add: mem_view_def bump_def tenants_of_def)

lemma wired_simps [simp]:
  "key_of (wired t) = key_of t" "ObjectMeta (wired t) = ObjectMeta t" "Spec (wired t) = Spec t"
  "Status (wired t) = wire_status (Status t)" "wired (wired t) = wired t"
  by (simp_all add: wired_def key_of_def)

section \<open>Lists of objects as stores\<close>

definition replace_object :: "'x kobject_scheme \<Rightarrow> 'x kobject_scheme list \<Rightarrow> 'x kobject_scheme list" where
  "replace_object x = map (\<lambda>y. if key_of y = key_of x then x else y)"

definition drop_object :: "object_key \<Rightarrow> 'x kobject_scheme list \<Rightarrow> 'x kobject_scheme list" where
  "drop_object k = filter (\<lambda>y. key_of y \<noteq> k)"

lemma stored_Some: "stored xs k = Some x \<Longrightarrow> x \<in> set xs \<and> key_of x = k"
  by (auto simp: stored_def find_Some_iff)

lemma stored_append:
  "stored xs (key_of x) = None \<Longrightarrow> stored (xs @ [x]) = (stored xs)(key_of x \<mapsto> x)"
proof
  fix k
  assume "stored xs (key_of x) = None"
  then show "stored (xs @ [x]) k = ((stored xs)(key_of x \<mapsto> x)) k"
    by (induction xs) (auto simp: stored_def)
qed

lemma stored_replace_other:
  "k \<noteq> key_of x \<Longrightarrow> stored (replace_object x xs) k = stored xs k"
  by (induction xs) (auto simp: stored_def replace_object_def)

lemma stored_replace_same:
  "stored xs (key_of x) \<noteq> None \<Longrightarrow> stored (replace_object x xs) (key_of x) = Some x"
  by (induction xs) (auto simp: stored_def replace_object_def)

lemma stored_replace:
  assumes "stored xs (key_of x) \<noteq> None"
  shows "stored (replace_object x xs) = (stored xs)(key_of x \<mapsto> x)"
  using stored_replace_other stored_replace_same [OF assms] by (auto simp: fun_eq_iff)

lemma stored_drop: "stored (drop_object k xs) = (stored xs)(k := None)"
proof
  fix k'
  show "stored (drop_object k xs) k' = ((stored xs)(k := None)) k'"
    by (induction xs) (auto simp: stored_def drop_object_def)
qed

lemma map_wired_objects:
  "map wired (replace_object x xs) = replace_object (wired x) (map wired xs)"
  "map wired (drop_object k xs) = drop_object k (map wired xs)"
  by (simp_all add: replace_object_def drop_object_def filter_map comp_def)

lemma stored_wired: "stored (map wired xs) k = Some t \<Longrightarrow> wire_status (Status t) = Status t"
  by (auto dest!: stored_Some)

section \<open>Operations of a kind\<close>

definition mem_get :: "(mem_world \<Rightarrow> 'x kobject_scheme list) \<Rightarrow> string \<Rightarrow> string \<Rightarrow>
    (mem_world, 'x kobject_scheme) prog" where
  "mem_get objs ns n = (\<lambda>w. case stored (objs w) (ns, n) of
     None \<Rightarrow> (Err NotFound, w) | Some x \<Rightarrow> (Ok x, w))"

definition mem_list :: "(mem_world \<Rightarrow> 'x kobject_scheme list) \<Rightarrow> string \<Rightarrow>
    (string \<times> string) list \<Rightarrow> (mem_world, 'x kobject_scheme list) prog" where
  "mem_list objs ns kvs = (\<lambda>w. (Ok (remdups (filter (\<lambda>x. stored (objs w) (ns, name_of x) = Some x \<and>
     matches_labels kvs x) (objs w))), w))"

definition mem_create :: "(mem_world \<Rightarrow> 'x kobject_scheme list) \<Rightarrow>
    (('x kobject_scheme list \<Rightarrow> 'x kobject_scheme list) \<Rightarrow> mem_world \<Rightarrow> mem_world) \<Rightarrow>
    'x kobject_scheme \<Rightarrow> (mem_world, 'x kobject_scheme) prog" where
  "mem_create objs put x = (\<lambda>w. case stored (objs w) (key_of x) of
     Some _ \<Rightarrow> (Err AlreadyExists, w)
   | None \<Rightarrow> (let x' = with_server_fields (''uid-'' @ version_of w) (version_of w) x
              in (Ok x', bump (put (\<lambda>xs. xs @ [x']) w))))"

definition mem_update :: "(mem_world \<Rightarrow> 'x kobject_scheme list) \<Rightarrow>
    (('x kobject_scheme list \<Rightarrow> 'x kobject_scheme list) \<Rightarrow> mem_world \<Rightarrow> mem_world) \<Rightarrow>
    'x kobject_scheme \<Rightarrow> (mem_world, 'x kobject_scheme) prog" where
  "mem_update objs put x = (\<lambda>w. case stored (objs w) (key_of x) of
     None \<Rightarrow> (Err NotFound, w)
   | Some cur \<Rightarrow>
       if MetaResourceVersion (ObjectMeta x) \<notin> {'''', MetaResourceVersion (ObjectMeta cur)}
       then (Err Conflict, w)
       else (let x' = with_server_fields (uid_of x) (version_of w) x
             in (Ok x', bump (put (replace_object x') w))))"

definition mem_delete :: "(mem_world \<Rightarrow> 'x kobject_scheme list) \<Rightarrow>
    (('x kobject_scheme list \<Rightarrow> 'x kobject_scheme list) \<Rightarrow> mem_world \<Rightarrow> mem_world) \<Rightarrow>
    'x kobject_scheme \<Rightarrow> string option \<Rightarrow> (mem_world, unit) prog" where
  "mem_delete objs put x opt = (\<lambda>w. case stored (objs w) (key_of x) of
     None \<Rightarrow> (Err NotFound, w)
   | Some _ \<Rightarrow> (Ok (), bump (put (drop_object (key_of x)) w)))"

definition mem_api :: "(mem_world \<Rightarrow> 'x kobject_scheme list) \<Rightarrow>
    (('x kobject_scheme list \<Rightarrow> 'x kobject_scheme list) \<Rightarrow> mem_world \<Rightarrow> mem_world) \<Rightarrow>
    (mem_world, 'x kobject_scheme) resource_api" where
  "mem_api objs put = \<lparr>ApiGet = mem_get objs, ApiCreate = mem_create objs put,
     ApiUpdate = mem_update objs put, ApiDelete = mem_delete objs put, ApiList = mem_list objs\<rparr>"

lemma mem_readable:
  assumes sel: "\<And>w. sel (view w) = stored (objs w)"
    and api: "ApiGet api = mem_get objs" "ApiList api = mem_list objs"
  shows "readable api view sel"
proof
  fix ns kvs w xs w'
  assume "ApiList api ns kvs w = (Ok xs, w')"
  then have w': "w' = w" and xs: "xs = remdups (filter (\<lambda>x. stored (objs w) (ns, name_of x) = Some x \<and>
     matches_labels kvs x) (objs w))"
    by (auto simp: api mem_list_def)
  have "inj_on name_of (set xs)"
    by (rule inj_onI) (auto simp: xs)
  then have "distinct (map name_of xs)" by (simp add: distinct_map xs)
  then show "view w' = view w \<and> distinct (map name_of xs) \<and>
      set xs = {x. sel (view w) (ns, name_of x) = Some x \<and> matches_labels kvs x}"
    using w' by (auto simp: xs sel dest: stored_Some)
qed (auto simp: api mem_get_def mem_list_def sel dest: stored_Some split: option.splits)

lemma mem_resource:
  assumes sel: "\<And>w. sel (view w) = stored (objs w)"
    and put: "\<And>w f g. stored (f (objs w)) = g (stored (objs w)) \<Longrightarrow> view (put f w) = upd g (view w)"
    and bump: "\<And>w. view (bump w) = view w"
    and lens: "\<And>f v. sel (upd f v) = f (sel v)"
  shows "resource (mem_api objs put) view sel upd"
proof -
  have appended: "view (bump (put (\<lambda>xs. xs @ [x']) w)) = upd (\<lambda>m. m(key_of x' \<mapsto> x')) (view w)"
    if "stored (objs w) (key_of x') = None" for x' w
    unfolding bump by (rule put) (rule stored_append [OF that])
  have replaced: "view (bump (put (replace_object x') w)) = upd (\<lambda>m. m(key_of x' \<mapsto> x')) (view w)"
    if "stored (objs w) (key_of x') \<noteq> None" for x' w
    unfolding bump by (rule put) (rule stored_replace [OF that])
  have dropped: "view (bump (put (drop_object k) w)) = upd (\<lambda>m. m(k := None)) (view w)" for k w
    unfolding bump by (rule put) (rule stored_drop)
  have readable: "readable (mem_api objs put) view sel"
    by (rule mem_readable [where objs = objs]) (simp_all add: mem_api_def sel)
  show ?thesis
    by (intro resource.intro resource_axioms.intro readable)
      (use appended [where x' = "with_server_fields _ _ _", simplified]
           replaced [where x' = "with_server_fields _ _ _", simplified] in
        \<open>auto simp: lens mem_api_def mem_create_def mem_update_def mem_delete_def sel dropped Let_def
           split: option.splits if_splits\<close>)
qed

section \<open>Tenants, whose status is a subresource\<close>

definition mem_tenant_update :: "int tenant_environment \<Rightarrow> (mem_world, int tenant_environment) prog" where
  "mem_tenant_update x = (\<lambda>w. case stored (tenants_of w) (key_of x) of
     None \<Rightarrow> (Err NotFound, w)
   | Some cur \<Rightarrow>
       if MetaResourceVersion (ObjectMeta x) \<notin> {'''', MetaResourceVersion (ObjectMeta cur)}
       then (Err Conflict, w)
       else (let x' = (with_server_fields (uid_of x) (version_of w) x)\<lparr>Status := Status cur\<rparr>
             in (Ok x', bump (w_tenants_update
                  (if MetaDeletionTimestamp (ObjectMeta cur) \<noteq> None \<and> MetaFinalizers (ObjectMeta x) = []
                   then drop_object (key_of x) else replace_object x') w))))"

text \<open>The finalizers in memory after a response is decoded over it.\<close>

definition decoded_finalizers :: "'q tenant_environment \<Rightarrow> 'q tenant_environment \<Rightarrow> string list" where
  "decoded_finalizers x cur =
     (if MetaFinalizers (ObjectMeta cur) = [] then MetaFinalizers (ObjectMeta x)
      else MetaFinalizers (ObjectMeta cur))"

definition mem_status_update :: "int tenant_environment \<Rightarrow> (mem_world, int tenant_environment) prog" where
  "mem_status_update x = (\<lambda>w. case stored (tenants_of w) (key_of x) of
     None \<Rightarrow> (Err NotFound, w)
   | Some cur \<Rightarrow>
       if MetaResourceVersion (ObjectMeta x) \<notin> {'''', MetaResourceVersion (ObjectMeta cur)}
       then (Err Conflict, w)
       else (let x' = (with_server_fields (uid_of cur) (version_of w) cur)\<lparr>Status := wire_status (Status x)\<rparr>
             in (Ok (x'\<lparr>ObjectMeta := (ObjectMeta x')\<lparr>MetaFinalizers := decoded_finalizers x cur\<rparr>\<rparr>),
                 bump (w_tenants_update (replace_object x') w))))"

definition mem_tenants :: "(mem_world, int tenant_environment) resource_api" where
  "mem_tenants = (mem_api tenants_of w_tenants_update)\<lparr>ApiUpdate := mem_tenant_update\<rparr>"

section \<open>Randomness, time, retries, quantities\<close>

definition mem_rand :: "nat \<Rightarrow> (mem_world, 8 word list) prog" where
  "mem_rand n = (\<lambda>w. (Ok (map (\<lambda>i. of_nat (w_version w * 7 + i * 3)) [0..<n]), bump w))"

definition mem_now :: "(mem_world, int) prog" where
  "mem_now = (\<lambda>w. (Ok (w_clock w), w\<lparr>w_clock := w_clock w + 1\<rparr>))"

definition mem_observe :: "string \<Rightarrow> float64 \<Rightarrow> (mem_world, unit) prog" where
  "mem_observe l d = (\<lambda>w. (Ok (), w\<lparr>w_observed := w_observed w @ [(l, d)]\<rparr>))"

text \<open>\<open>retry.DefaultBackoff\<close> makes four steps.\<close>

fun mem_retry :: "nat \<Rightarrow> ('w, unit) prog \<Rightarrow> ('w, unit) prog" where
  "mem_retry 0 m w = m w"
| "mem_retry (Suc n) m w =
     (case m w of
        (Err e, w1) \<Rightarrow> if is_conflict e then mem_retry n m w1 else (Err e, w1)
      | (Ok u, w1) \<Rightarrow> (Ok u, w1)
      | (Panic s, w1) \<Rightarrow> (Panic s, w1))"

definition mem_parse :: "string \<Rightarrow> go_error + int" where
  "mem_parse s =
     (let num = (\<lambda>t u. case strconv_Atoi t of None \<Rightarrow> Inl (ErrorString ''quantity'') | Some n \<Rightarrow> Inr (n * u))
      in if s \<noteq> [] \<and> last s = CHR ''m'' then num (butlast s) 1
         else if s = ''0.5'' then Inr 500
         else if s = ''0.75'' then Inr 750
         else if drop (length s - 2) s = ''Mi'' then num (take (length s - 2) s) (1000 * 2 ^ 20)
         else if drop (length s - 2) s = ''Gi'' then num (take (length s - 2) s) (1000 * 2 ^ 30)
         else num s 1000)"

definition mem_quantities :: "int quantity_pkg" where
  "mem_quantities = \<lparr>QIsZero = (\<lambda>q. q = 0), QMilliValue = of_int,
     QValue = (\<lambda>q. of_int ((q + 999) div 1000)), QSet = (\<lambda>v q. 1000 * sint v),
     QCmp = (\<lambda>q r. q - r), QString = (\<lambda>q. strconv_Itoa q @ ''m''),
     QParse = mem_parse, QNew = (\<lambda>v. 1000 * sint v)\<rparr>"

definition mem_runtime :: "(mem_world, int) runtime" where
  "mem_runtime = \<lparr>
     Namespaces = mem_api w_namespaces w_namespaces_update,
     Secrets = mem_api w_secrets w_secrets_update,
     ConfigMaps = mem_api w_config_maps w_config_maps_update,
     Quotas = mem_api w_quotas w_quotas_update,
     Deployments = mem_api w_deployments w_deployments_update,
     StatefulSets = mem_api w_stateful_sets w_stateful_sets_update,
     Services = mem_api w_services w_services_update,
     Jobs = mem_api w_jobs w_jobs_update,
     Claims = mem_api w_claims w_claims_update,
     Pods = mem_api w_pods w_pods_update,
     Tenants = mem_tenants,
     StatusUpdate = mem_status_update,
     RandRead = mem_rand, TimeNow = mem_now, ObserveDuration = mem_observe,
     RetryOnConflict = mem_retry 3, ReadFile = (\<lambda>f. Inr (''# '' @ f)),
     ContainsFinalizer = (\<lambda>t f. f \<in> set (MetaFinalizers (ObjectMeta t))),
     AddFinalizer = (\<lambda>t f. if f \<in> set (MetaFinalizers (ObjectMeta t)) then t
       else with_finalizers (MetaFinalizers (ObjectMeta t) @ [f]) t),
     RemoveFinalizer = (\<lambda>t f. with_finalizers (filter (\<lambda>g. g \<noteq> f) (MetaFinalizers (ObjectMeta t))) t),
     Quantities = mem_quantities\<rparr>"

section \<open>The in-memory server obeys the laws\<close>

lemma mem_retry_attempts: "mem_retry n m w = (r, w') \<Longrightarrow> attempts m w r w'"
proof (induction n arbitrary: w)
  case 0
  then show ?case by (simp add: attempts.last_attempt)
next
  case (Suc n)
  then show ?case
    by (cases "m w"; cases "fst (m w)")
      (auto split: if_splits intro: attempts.last_attempt attempts.next_attempt)
qed

lemma mem_tenant_update_cases:
  assumes "mem_tenant_update x w = (r, w')"
  shows "(\<exists>e. r = Err e \<and> w' = w) \<or>
    (\<exists>cur v x'. stored (tenants_of w) (key_of x) = Some cur \<and>
       x' = (with_server_fields (uid_of x) v x)\<lparr>Status := Status cur\<rparr> \<and> r = Ok x' \<and>
       mem_view w' = cl_tenants_update (\<lambda>m. m(key_of x :=
         (if MetaDeletionTimestamp (ObjectMeta cur) \<noteq> None \<and> MetaFinalizers (ObjectMeta x) = []
          then None else Some x'))) (mem_view w))"
proof (cases "stored (tenants_of w) (key_of x)")
  case None
  then show ?thesis using assms by (auto simp: mem_tenant_update_def)
next
  case (Some cur)
  define x' where "x' = (with_server_fields (uid_of x) (version_of w) x)\<lparr>Status := Status cur\<rparr>"
  have "key_of x' = key_of x" by (simp add: x'_def key_of_def with_server_fields_def)
  moreover have "wired x' = x'"
    using stored_wired [OF Some [unfolded tenants_of_def]] by (simp add: x'_def wired_def)
  ultimately have replaced: "stored (map wired (replace_object x' (w_tenants w))) =
      (stored (tenants_of w))(key_of x \<mapsto> x')"
    using stored_replace [of "tenants_of w" x'] Some by (simp add: map_wired_objects tenants_of_def)
  show ?thesis
  proof (cases "MetaResourceVersion (ObjectMeta x) \<in> {'''', MetaResourceVersion (ObjectMeta cur)}")
    case True
    with Some assms have "r = Ok x'" and w': "w' = bump (w_tenants_update
        (if MetaDeletionTimestamp (ObjectMeta cur) \<noteq> None \<and> MetaFinalizers (ObjectMeta x) = []
         then drop_object (key_of x) else replace_object x') w)"
      by (auto simp: mem_tenant_update_def Let_def x'_def)
    moreover have "mem_view w' = cl_tenants_update (\<lambda>m. m(key_of x :=
        (if MetaDeletionTimestamp (ObjectMeta cur) \<noteq> None \<and> MetaFinalizers (ObjectMeta x) = []
         then None else Some x'))) (mem_view w)"
      by (simp add: w' mem_view_tenants map_wired_objects(2) stored_drop replaced)
        (simp add: mem_view_def tenants_of_def)
    ultimately show ?thesis using Some x'_def by blast
  next
    case False
    with Some assms have "r = Err Conflict" and "w' = w" by (auto simp: mem_tenant_update_def)
    then show ?thesis by simp
  qed
qed

lemma mem_status_update_cases:
  assumes "mem_status_update x w = (r, w')"
  shows "(\<exists>e. r = Err e \<and> w' = w) \<or>
    (\<exists>cur v x'. stored (tenants_of w) (key_of x) = Some cur \<and>
       x' = (with_server_fields (uid_of cur) v cur)\<lparr>Status := wire_status (Status x)\<rparr> \<and>
       r = Ok (x'\<lparr>ObjectMeta := (ObjectMeta x')\<lparr>MetaFinalizers := decoded_finalizers x cur\<rparr>\<rparr>) \<and>
       mem_view w' = cl_tenants_update (\<lambda>m. m(key_of x \<mapsto> x')) (mem_view w))"
proof (cases "stored (tenants_of w) (key_of x)")
  case None
  then show ?thesis using assms by (auto simp: mem_status_update_def)
next
  case (Some cur)
  define x' where "x' = (with_server_fields (uid_of cur) (version_of w) cur)\<lparr>Status := wire_status (Status x)\<rparr>"
  have "key_of x' = key_of x"
    using stored_Some [OF Some] by (simp add: x'_def key_of_def with_server_fields_def)
  moreover have "wired x' = x'"
    using stored_wired [OF Some [unfolded tenants_of_def]] by (simp add: x'_def wired_def)
  ultimately have replaced: "stored (map wired (replace_object x' (w_tenants w))) =
      (stored (tenants_of w))(key_of x \<mapsto> x')"
    using stored_replace [of "tenants_of w" x'] Some by (simp add: map_wired_objects tenants_of_def)
  show ?thesis
  proof (cases "MetaResourceVersion (ObjectMeta x) \<in> {'''', MetaResourceVersion (ObjectMeta cur)}")
    case True
    with Some assms have
      "r = Ok (x'\<lparr>ObjectMeta := (ObjectMeta x')\<lparr>MetaFinalizers := decoded_finalizers x cur\<rparr>\<rparr>)"
      and w': "w' = bump (w_tenants_update (replace_object x') w)"
      by (auto simp: mem_status_update_def Let_def x'_def)
    moreover have "mem_view w' = cl_tenants_update (\<lambda>m. m(key_of x \<mapsto> x')) (mem_view w)"
      by (simp add: w' mem_view_tenants replaced) (simp add: mem_view_def)
    ultimately show ?thesis using Some x'_def by blast
  next
    case False
    with Some assms have "r = Err Conflict" and "w' = w" by (auto simp: mem_status_update_def)
    then show ?thesis by simp
  qed
qed

lemma mem_tenant_failures:
  "mem_tenant_update x w = (Err e, w') \<Longrightarrow> w' = w"
  "mem_tenant_update x w \<noteq> (Panic s, w')"
  "mem_status_update x w = (Err e, w') \<Longrightarrow> w' = w"
  "mem_status_update x w \<noteq> (Panic s, w')"
  by (auto simp: mem_tenant_update_def mem_status_update_def Let_def split: option.splits if_splits)

lemma mem_status_resource:
  "status_resource mem_tenants mem_view cl_tenants cl_tenants_update mem_status_update"
proof (intro status_resource.intro status_resource_axioms.intro)
  have sel: "cl_tenants (mem_view w) = stored (tenants_of w)" for w
    by (simp add: mem_view_def)
  have api: "ApiUpdate mem_tenants = mem_tenant_update"
    by (simp add: mem_tenants_def)
  show "readable mem_tenants mem_view cl_tenants"
    by (rule mem_readable [where objs = tenants_of]) (simp_all add: sel mem_tenants_def mem_api_def)
  show "\<exists>cur v. cl_tenants (mem_view w) (key_of x) = Some cur \<and>
      x' = (with_server_fields (uid_of x) v x)\<lparr>Status := Status cur\<rparr> \<and>
      mem_view w' = cl_tenants_update (\<lambda>m. m(key_of x :=
        (if MetaDeletionTimestamp (ObjectMeta cur) \<noteq> None \<and> MetaFinalizers (ObjectMeta x) = []
         then None else Some x'))) (mem_view w)"
    if "ApiUpdate mem_tenants x w = (Ok x', w')" for x w x' w'
    using mem_tenant_update_cases [of x w "Ok x'" w'] that by (auto simp: sel api)
  show "\<exists>cur v fs. cl_tenants (mem_view w) (key_of x) = Some cur \<and>
      fs \<in> {MetaFinalizers (ObjectMeta x), MetaFinalizers (ObjectMeta cur)} \<and>
      (MetaFinalizers (ObjectMeta cur) = [] \<longrightarrow> fs = MetaFinalizers (ObjectMeta x)) \<and>
      (let st = (with_server_fields (uid_of cur) v cur)\<lparr>Status := wire_status (Status x)\<rparr> in
         mem_view w' = cl_tenants_update (\<lambda>m. m(key_of x \<mapsto> st)) (mem_view w) \<and>
         x' = st\<lparr>ObjectMeta := (ObjectMeta st)\<lparr>MetaFinalizers := fs\<rparr>\<rparr>)"
    if "mem_status_update x w = (Ok x', w')" for x w x' w'
  proof -
    from mem_status_update_cases [OF that] obtain cur v where
      c: "stored (tenants_of w) (key_of x) = Some cur"
        "x' = ((with_server_fields (uid_of cur) v cur)\<lparr>Status := wire_status (Status x)\<rparr>)
          \<lparr>ObjectMeta := (ObjectMeta ((with_server_fields (uid_of cur) v cur)\<lparr>Status := wire_status (Status x)\<rparr>))
            \<lparr>MetaFinalizers := decoded_finalizers x cur\<rparr>\<rparr>"
        "mem_view w' = cl_tenants_update (\<lambda>m. m(key_of x \<mapsto>
          (with_server_fields (uid_of cur) v cur)\<lparr>Status := wire_status (Status x)\<rparr>)) (mem_view w)"
      by auto
    show ?thesis
      unfolding Let_def sel
      by (intro exI [of _ cur] exI [of _ v] exI [of _ "decoded_finalizers x cur"] conjI c)
        (simp_all add: decoded_finalizers_def)
  qed
  show "wire_status (Status t) = Status t" if "cl_tenants (mem_view w) k = Some t" for w k t
    using that by (intro stored_wired) (simp add: sel tenants_of_def)
qed (simp_all add: mem_tenants_def mem_tenant_failures, (drule mem_tenant_failures, simp)+)

interpretation mem: cluster_client mem_runtime mem_view
proof (intro cluster_client.intro cluster_client_axioms.intro)
  show "status_resource (Tenants mem_runtime) mem_view cl_tenants cl_tenants_update (StatusUpdate mem_runtime)"
    by (simp add: mem_runtime_def mem_status_resource)
  show "readable (Pods mem_runtime) mem_view cl_pods"
    by (rule mem_readable [where objs = w_pods]) (simp_all add: mem_view_def mem_runtime_def mem_api_def)
qed (auto simp: mem_runtime_def mem_view_def tenants_of_def bump_def mem_rand_def mem_now_def mem_observe_def
       mem_retry_attempts intro!: mem_resource)

interpretation memq: quantity mem_quantities "\<lambda>q. q"
proof
  fix q :: int
  assume "0 \<le> q" "q < 2 ^ 63"
  then have "strconv_Atoi (strconv_Itoa q) = Some q" by (rule Atoi_Itoa)
  then show "\<exists>p. QParse mem_quantities (QString mem_quantities q) = Inr p \<and> p = q"
    by (simp add: mem_quantities_def mem_parse_def Let_def)
qed (auto simp: mem_quantities_def mem_parse_def Let_def sint_of_int64)

end
