(* ===== verification/Samples.thy ===== *)
theory Samples
  imports MemClient
begin

text \<open>
  Concrete tenants and worlds on which the witnesses run the controller, with the in-memory
  server of \<open>MemClient\<close>.
\<close>

definition sample_quotas :: "int tenant_resource_quotas" where
  "sample_quotas = \<lparr>CPULimit = 2000, MemoryLimit = 1000 * 2 ^ 30, StorageLimit = 0, PodLimit = 10\<rparr>"

definition sample_tenant :: "bool \<Rightarrow> int tenant_environment" where
  "sample_tenant dedicated = \<lparr>
     ObjectMeta = no_meta\<lparr>MetaName := ''acme'', MetaNamespace := ''default'',
       MetaUID := ''0a1b2c3d-4e5f'', MetaResourceVersion := ''1''\<rparr>,
     Spec = \<lparr>DisplayName = ''Acme'', Replicas = 2, ServiceVersion = ''1.0.0'',
       ResourceQuotas = Some sample_quotas, Database = \<lparr>DedicatedInstance = dedicated\<rparr>\<rparr>,
     Status = \<lparr>Phase = '''', Message = '''', StatusNamespace = '''', CreatedAt = None,
       ReadyAt = None, DatabaseStatus = ''''\<rparr>\<rparr>"

definition sample_world :: "int tenant_environment \<Rightarrow> mem_world" where
  "sample_world t = empty_world\<lparr>w_tenants := [t]\<rparr>"

lemma sample_tenant_simps [simp]:
  "name_of (sample_tenant d) = ''acme''" "namespace_of (sample_tenant d) = ''default''"
  "uid_of (sample_tenant d) = ''0a1b2c3d-4e5f''" "ResourceQuotas (Spec (sample_tenant d)) = Some sample_quotas"
  "DedicatedInstance (Database (Spec (sample_tenant d))) = d"
  by (simp_all add: sample_tenant_def)

text \<open>These tenants come back from the server as they are stored.\<close>

lemma wired_updates [simp]:
  "wired (with_finalizers fs t) = with_finalizers fs (wired t)"
  "wired (terminating now v t) = terminating now v (wired t)"
  "wired (t\<lparr>ObjectMeta := m\<rparr>) = (wired t)\<lparr>ObjectMeta := m\<rparr>"
  "wired (t\<lparr>Status := s\<rparr>) = t\<lparr>Status := wire_status s\<rparr>"
  by (simp_all add: wired_def with_finalizers_def terminating_def)

lemma wired_sample [simp]: "wire_status (Status (sample_tenant d)) = Status (sample_tenant d)"
    "wired (sample_tenant d) = sample_tenant d"
  by (simp_all add: wired_def wire_status_def sample_tenant_def)

lemma mem_quantities_of [simp]: "Quantities mem_runtime = mem_quantities"
  by (simp add: mem_runtime_def)

lemma mem_client: "cluster_client mem_runtime mem_view"
  by (rule mem.cluster_client_axioms)

lemma mem_quantity: "quantity (Quantities mem_runtime) (\<lambda>q. q)"
  by (simp add: memq.quantity_axioms)

text \<open>Two servers with one fault: the first job creation times out, the first status update is refused.\<close>

definition flaky_runtime :: "(mem_world, int) runtime" where
  "flaky_runtime = mem_runtime\<lparr>Jobs := (Jobs mem_runtime)\<lparr>ApiCreate := (\<lambda>x w.
     if w_clock w = 0 then (Err (ApiError ''timeout''), w\<lparr>w_clock := 1\<rparr>)
     else ApiCreate (Jobs mem_runtime) x w)\<rparr>\<rparr>"

definition refusing_runtime :: "(mem_world, int) runtime" where
  "refusing_runtime = mem_runtime\<lparr>StatusUpdate := (\<lambda>t w.
     if w_version w = 1 then (Err Conflict, bump w) else mem_status_update t w)\<rparr>"

lemma flaky_parts [simp]:
  "Namespaces flaky_runtime = Namespaces mem_runtime" "Secrets flaky_runtime = Secrets mem_runtime"
  "ConfigMaps flaky_runtime = ConfigMaps mem_runtime" "Quotas flaky_runtime = Quotas mem_runtime"
  "Deployments flaky_runtime = Deployments mem_runtime" "StatefulSets flaky_runtime = StatefulSets mem_runtime"
  "Services flaky_runtime = Services mem_runtime" "Claims flaky_runtime = Claims mem_runtime"
  "Pods flaky_runtime = Pods mem_runtime" "Tenants flaky_runtime = Tenants mem_runtime"
  "StatusUpdate flaky_runtime = StatusUpdate mem_runtime" "RandRead flaky_runtime = RandRead mem_runtime"
  "TimeNow flaky_runtime = TimeNow mem_runtime" "ObserveDuration flaky_runtime = ObserveDuration mem_runtime"
  "RetryOnConflict flaky_runtime = RetryOnConflict mem_runtime"
  "ContainsFinalizer flaky_runtime = ContainsFinalizer mem_runtime"
  "AddFinalizer flaky_runtime = AddFinalizer mem_runtime"
  "RemoveFinalizer flaky_runtime = RemoveFinalizer mem_runtime"
  by (simp_all add: flaky_runtime_def)

lemma refusing_parts [simp]:
  "Namespaces refusing_runtime = Namespaces mem_runtime" "Secrets refusing_runtime = Secrets mem_runtime"
  "ConfigMaps refusing_runtime = ConfigMaps mem_runtime" "Quotas refusing_runtime = Quotas mem_runtime"
  "Deployments refusing_runtime = Deployments mem_runtime" "StatefulSets refusing_runtime = StatefulSets mem_runtime"
  "Services refusing_runtime = Services mem_runtime" "Claims refusing_runtime = Claims mem_runtime"
  "Jobs refusing_runtime = Jobs mem_runtime" "Pods refusing_runtime = Pods mem_runtime"
  "Tenants refusing_runtime = Tenants mem_runtime" "RandRead refusing_runtime = RandRead mem_runtime"
  "TimeNow refusing_runtime = TimeNow mem_runtime" "ObserveDuration refusing_runtime = ObserveDuration mem_runtime"
  "RetryOnConflict refusing_runtime = RetryOnConflict mem_runtime"
  "ContainsFinalizer refusing_runtime = ContainsFinalizer mem_runtime"
  "AddFinalizer refusing_runtime = AddFinalizer mem_runtime"
  "RemoveFinalizer refusing_runtime = RemoveFinalizer mem_runtime"
  by (simp_all add: refusing_runtime_def)

lemma flaky_jobs: "resource (Jobs flaky_runtime) mem_view cl_jobs cl_jobs_update"
proof -
  let ?mem = "Jobs mem_runtime"
  have view: "mem_view (w\<lparr>w_clock := c\<rparr>) = mem_view w" for w c by (simp add: mem_view_def tenants_of_def)
  have same: "ApiGet (Jobs flaky_runtime) = ApiGet ?mem" "ApiList (Jobs flaky_runtime) = ApiList ?mem"
    "ApiUpdate (Jobs flaky_runtime) = ApiUpdate ?mem" "ApiDelete (Jobs flaky_runtime) = ApiDelete ?mem"
    by (simp_all add: flaky_runtime_def)
  have create: "ApiCreate (Jobs flaky_runtime) x w = (if w_clock w = 0 then (Err (ApiError ''timeout''), w\<lparr>w_clock := 1\<rparr>)
     else ApiCreate ?mem x w)" for x w
    by (simp add: flaky_runtime_def)
  have "readable (Jobs flaky_runtime) mem_view cl_jobs"
    using mem.job.readable_axioms unfolding readable_def same .
  moreover have "resource_axioms (Jobs flaky_runtime) mem_view cl_jobs cl_jobs_update"
    by (intro resource_axioms.intro; (unfold same create)?)
      (erule mem.job.update_ok mem.job.update_failed mem.job.delete_ok mem.job.delete_failed |
       rule mem.job.sel_upd mem.job.update_returns mem.job.delete_returns |
       (auto simp: view mem.job.create_returns split: if_splits dest: mem.job.create_ok mem.job.create_failed)[1])+
  ultimately show ?thesis by (rule resource.intro)
qed

lemma flaky_client: "cluster_client flaky_runtime mem_view"
  using mem_client flaky_jobs unfolding cluster_client_def cluster_client_axioms_def by simp

lemma refusing_client: "cluster_client refusing_runtime mem_view"
proof -
  have update: "StatusUpdate refusing_runtime = (\<lambda>t w. if w_version w = 1 then (Err Conflict, bump w) else mem_status_update t w)"
    by (simp add: refusing_runtime_def)
  have "status_resource (Tenants mem_runtime) mem_view cl_tenants cl_tenants_update (StatusUpdate refusing_runtime)"
    using mem.ten.status_resource_axioms
    unfolding status_resource_def status_resource_axioms_def update by (auto simp: mem_runtime_def)
  with mem_client show ?thesis unfolding cluster_client_def cluster_client_axioms_def by simp
qed

text \<open>A run whose outcome has been evaluated, in the form the properties take.\<close>

lemma evaluated: "fst (m w) = r \<Longrightarrow> m w = (r, snd (m w))"
  by (cases "m w") simp

end
