(* ===== verification/Quota.thy ===== *)
theory Quota
  imports Utils Samples
begin

text \<open>
  The resource quota of a tenant namespace (\<open>internal/controller/utils.go\<close>): the resource list
  computed from the tenant's spec, the creation of the quota, and the synchronisation of an
  existing quota with the computed list, entry by entry. Go maps are association lists; the
  loops over them follow the list.
\<close>

section \<open>The desired resources\<close>

text \<open>The constants \<open>corev1.ResourceLimitsCPU\<close> and so on.\<close>

abbreviation limits_cpu :: string where "limits_cpu \<equiv> ''limits.cpu''"

abbreviation requests_cpu :: string where "requests_cpu \<equiv> ''requests.cpu''"

abbreviation limits_memory :: string where "limits_memory \<equiv> ''limits.memory''"

abbreviation requests_memory :: string where "requests_memory \<equiv> ''requests.memory''"

abbreviation requests_storage :: string where "requests_storage \<equiv> ''requests.storage''"

abbreviation resource_pods :: string where "resource_pods \<equiv> ''pods''"

text \<open>\<open>cpuRequests.Set(parsed.MilliValue() * multiplier.MilliValue() / 1000)\<close>\<close>

definition cpu_request :: "'q quantity_pkg \<Rightarrow> 'q \<Rightarrow> 'q \<Rightarrow> 'q \<Rightarrow> 'q" where
  "cpu_request pkg cpuRequests parsed multiplier =
     QSet pkg (int64_div (QMilliValue pkg parsed * QMilliValue pkg multiplier) 1000) cpuRequests"

definition cpu_resources ::
  "'q quantity_pkg \<Rightarrow> bool \<Rightarrow> 'q \<Rightarrow> (string \<times> 'q) list \<Rightarrow> (string \<times> 'q) list" where
  "cpu_resources pkg dedicated limit desired =
     (if \<not> QIsZero pkg limit then
        let desired = AList.update limits_cpu limit desired;
            requestsMultiplier = (if \<not> dedicated then ''0.75'' else ''0.5'');
            cpuRequests = limit
        in case QParse pkg (QString pkg cpuRequests) of
             Inl _ \<Rightarrow> desired
           | Inr parsed \<Rightarrow>
               (case QParse pkg requestsMultiplier of
                  Inl _ \<Rightarrow> desired
                | Inr multiplier \<Rightarrow>
                    AList.update requests_cpu (cpu_request pkg cpuRequests parsed multiplier) desired)
      else desired)"

text \<open>\<open>memoryRequests.Set(MemoryLimit.Value() * requestsMultiplier / 100)\<close>\<close>

definition memory_request :: "'q quantity_pkg \<Rightarrow> bool \<Rightarrow> 'q \<Rightarrow> 'q" where
  "memory_request pkg dedicated limit =
     (let requestsMultiplier = (if \<not> dedicated then 75 else 60)
      in QSet pkg (int64_div (QValue pkg limit * requestsMultiplier) 100) limit)"

definition memory_resources ::
  "'q quantity_pkg \<Rightarrow> bool \<Rightarrow> 'q \<Rightarrow> (string \<times> 'q) list \<Rightarrow> (string \<times> 'q) list" where
  "memory_resources pkg dedicated limit desired =
     (if \<not> QIsZero pkg limit then
        AList.update requests_memory (memory_request pkg dedicated limit)
          (AList.update limits_memory limit desired)
      else desired)"

definition desired_resources :: "'q quantity_pkg \<Rightarrow> 'q tenant_environment \<Rightarrow> (string \<times> 'q) list" where
  "desired_resources pkg tenantEnv =
     (case ResourceQuotas (Spec tenantEnv) of
        None \<Rightarrow> []
      | Some quotas \<Rightarrow>
          let dedicated = DedicatedInstance (Database (Spec tenantEnv));
              desired = cpu_resources pkg dedicated (CPULimit quotas) [];
              desired = memory_resources pkg dedicated (MemoryLimit quotas) desired;
              desired = (if \<not> QIsZero pkg (StorageLimit quotas)
                         then AList.update requests_storage (StorageLimit quotas) desired else desired)
          in if 0 < sint (PodLimit quotas)
             then AList.update resource_pods (QNew pkg (word_of_int (sint (PodLimit quotas)))) desired
             else desired)"

section \<open>Synchronising an existing quota\<close>

fun sync_desired ::
  "'q quantity_pkg \<Rightarrow> (string \<times> 'q) list \<Rightarrow> 'q gomap \<Rightarrow> bool \<Rightarrow> ('w, 'q gomap \<times> bool) prog" where
  "sync_desired pkg [] hard updated = ret (hard, updated)"
| "sync_desired pkg ((key, val) # rest) hard updated =
     (if (case gm_lookup hard key of None \<Rightarrow> True | Some current \<Rightarrow> QCmp pkg current val \<noteq> 0)
      then (case gm_put key val hard of
              None \<Rightarrow> crash ''assignment to entry in nil map''
            | Some hard' \<Rightarrow> sync_desired pkg rest hard' True)
      else sync_desired pkg rest hard updated)"

fun drop_undesired ::
  "(string \<times> 'q) list \<Rightarrow> (string \<times> 'q) list \<Rightarrow> 'q gomap \<Rightarrow> bool \<Rightarrow> 'q gomap \<times> bool" where
  "drop_undesired desired [] hard updated = (hard, updated)"
| "drop_undesired desired ((key, _) # rest) hard updated =
     (if map_of desired key = None
      then drop_undesired desired rest (gm_delete key hard) True
      else drop_undesired desired rest hard updated)"

section \<open>The operations\<close>

definition quota_object :: "'q quantity_pkg \<Rightarrow> 'q tenant_environment \<Rightarrow> 'q resource_quota" where
  "quota_object pkg tenantEnv = \<lparr>ObjectMeta = no_meta\<lparr>
       MetaName := ''tenant-quota'',
       MetaNamespace := ''tenant-'' @ uid_of tenantEnv,
       MetaLabels := Some [
         (''tenant.core.mellifluus.io/tenant-uid'', uid_of tenantEnv),
         (''tenant.core.mellifluus.io/managed-by'', ''tenant-operator'')]\<rparr>,
     Hard = Some (desired_resources pkg tenantEnv)\<rparr>"

definition CreateResourceQuotaForTenant ::
  "('w, 'q) runtime \<Rightarrow> 'q tenant_environment \<Rightarrow> ('w, unit) prog" where
  "CreateResourceQuotaForTenant rt tenantEnv =
     (let namespaceName = ''tenant-'' @ uid_of tenantEnv;
          quotaName = ''tenant-quota'';
          pkg = Quantities rt;
          desired = desired_resources pkg tenantEnv in
      on_error (ApiGet (Quotas rt) namespaceName quotaName)
        (\<lambda>err. if is_not_found err
               then and_then (ApiCreate (Quotas rt) (quota_object pkg tenantEnv)) (\<lambda>_. ret ())
               else fail err)
        (\<lambda>resourceQuota.
           and_then (sync_desired pkg desired (Hard resourceQuota) False) (\<lambda>(hard, updated).
             let (hard, updated) = drop_undesired desired (gm_entries hard) hard updated in
             if updated
             then and_then (ApiUpdate (Quotas rt) (resourceQuota\<lparr>Hard := hard\<rparr>)) (\<lambda>_. ret ())
             else ret ())))"

definition DeleteResourceQuotaForTenant ::
  "('w, 'q) runtime \<Rightarrow> 'q tenant_environment \<Rightarrow> ('w, unit) prog" where
  "DeleteResourceQuotaForTenant rt tenantEnv =
     (let namespaceName = ''tenant-'' @ uid_of tenantEnv;
          quotaName = ''tenant-quota'' in
      on_error (ApiGet (Quotas rt) namespaceName quotaName)
        (\<lambda>err. if \<not> is_not_found err then fail err else ret ())
        (\<lambda>resourceQuota. and_then (ApiDelete (Quotas rt) resourceQuota None) (\<lambda>_. ret ())))"

lemma quota_key [simp]: "key_of (quota_object pkg t) = (''tenant-'' @ uid_of t, ''tenant-quota'')"
  by (simp add: quota_object_def key_of_def)

lemma quota_hard [simp]: "Hard (quota_object pkg t) = Some (desired_resources pkg t)"
  by (simp add: quota_object_def)

section \<open>Lemmas on the synchronisation\<close>

text \<open>Two entries agree when both are absent, or \<open>Cmp\<close> finds them equal.\<close>

definition agrees :: "'q quantity_pkg \<Rightarrow> 'q option \<Rightarrow> 'q option \<Rightarrow> bool" where
  "agrees pkg x y = (case x of None \<Rightarrow> y = None | Some a \<Rightarrow> (case y of None \<Rightarrow> False | Some b \<Rightarrow> QCmp pkg a b = 0))"

lemma agrees_simps [simp]:
  "agrees pkg None y \<longleftrightarrow> y = None" "agrees pkg (Some a) (Some b) \<longleftrightarrow> QCmp pkg a b = 0"
  "agrees pkg (Some a) None \<longleftrightarrow> False"
  by (simp_all add: agrees_def)

lemma desired_distinct: "distinct (map fst (desired_resources pkg t))"
  by (simp add: desired_resources_def cpu_resources_def memory_resources_def Let_def distinct_update
      split: option.splits sum.splits)

lemma sync_desired_Ok:
  assumes "sync_desired pkg desired hard upd w = (Ok (hard', upd'), w')"
    and "distinct (map fst desired)" and "\<And>q. QCmp pkg q q = 0"
  shows "w' = w"
    and "\<And>k. gm_lookup hard' k = (case map_of desired k of
             None \<Rightarrow> gm_lookup hard k
           | Some v \<Rightarrow> (if agrees pkg (gm_lookup hard k) (Some v) then gm_lookup hard k else Some v))"
    and "upd' \<longleftrightarrow> upd \<or> (\<exists>(k, v) \<in> set desired. \<not> agrees pkg (gm_lookup hard k) (Some v))"
    and "\<not> upd' \<Longrightarrow> hard' = hard"
proof -
  have "w' = w \<and> (\<forall>k. gm_lookup hard' k = (case map_of desired k of
             None \<Rightarrow> gm_lookup hard k
           | Some v \<Rightarrow> (if agrees pkg (gm_lookup hard k) (Some v) then gm_lookup hard k else Some v))) \<and>
    (upd' \<longleftrightarrow> upd \<or> (\<exists>(k, v) \<in> set desired. \<not> agrees pkg (gm_lookup hard k) (Some v))) \<and>
    (\<not> upd' \<longrightarrow> hard' = hard)"
    using assms
  proof (induction desired arbitrary: hard upd)
    case Nil
    then show ?case by simp
  next
    case (Cons kv rest)
    obtain k v where kv: "kv = (k, v)" by (cases kv)
    have fresh: "k \<notin> fst ` set rest" and dist: "distinct (map fst rest)"
      using Cons.prems(2) by (auto simp: kv)
    then have none: "map_of rest k = None" by (simp add: map_of_eq_None_iff)
    show ?case
    proof (cases "agrees pkg (gm_lookup hard k) (Some v)")
      case True
      then have "sync_desired pkg rest hard upd w = (Ok (hard', upd'), w')"
        using Cons.prems(1) by (auto simp: kv agrees_def split: option.splits)
      from Cons.IH [OF this dist Cons.prems(3)] True show ?thesis
        by (auto simp: kv none)
    next
      case False
      then obtain hard1 where put: "gm_put k v hard = Some hard1"
        and run: "sync_desired pkg rest hard1 True w = (Ok (hard', upd'), w')"
        using Cons.prems(1) by (auto simp: kv agrees_def split: option.splits if_splits)
      have rest: "gm_lookup hard1 j = gm_lookup hard j" if "j \<in> fst ` set rest" for j
        using gm_put_lookup [OF put] that fresh by auto
      from Cons.IH [OF run dist Cons.prems(3)] False fresh show ?thesis
        by (auto simp: kv none gm_put_lookup [OF put] Cons.prems(3) split: option.splits dest: map_of_SomeD)
    qed
  qed
  then show "w' = w"
    and "\<And>k. gm_lookup hard' k = (case map_of desired k of
             None \<Rightarrow> gm_lookup hard k
           | Some v \<Rightarrow> (if agrees pkg (gm_lookup hard k) (Some v) then gm_lookup hard k else Some v))"
    and "upd' \<longleftrightarrow> upd \<or> (\<exists>(k, v) \<in> set desired. \<not> agrees pkg (gm_lookup hard k) (Some v))"
    and "\<not> upd' \<Longrightarrow> hard' = hard"
    by blast+
qed

lemma drop_undesired_result:
  assumes "drop_undesired desired es hard upd = (hard', upd')"
  shows "gm_lookup hard' k = (if map_of desired k = None \<and> k \<in> fst ` set es then None else gm_lookup hard k)"
    and "upd' \<longleftrightarrow> upd \<or> (\<exists>k \<in> fst ` set es. map_of desired k = None)"
    and "\<not> upd' \<Longrightarrow> hard' = hard"
proof -
  have "gm_lookup hard' k = (if map_of desired k = None \<and> k \<in> fst ` set es then None else gm_lookup hard k) \<and>
    (upd' \<longleftrightarrow> upd \<or> (\<exists>k \<in> fst ` set es. map_of desired k = None)) \<and> (\<not> upd' \<longrightarrow> hard' = hard)"
    using assms
    by (induction desired es hard upd rule: drop_undesired.induct) (auto split: if_splits)
  then show "gm_lookup hard' k = (if map_of desired k = None \<and> k \<in> fst ` set es then None else gm_lookup hard k)"
    and "upd' \<longleftrightarrow> upd \<or> (\<exists>k \<in> fst ` set es. map_of desired k = None)"
    and "\<not> upd' \<Longrightarrow> hard' = hard"
    by blast+
qed

lemma gm_lookup_key: "gm_lookup m k = Some v \<Longrightarrow> k \<in> fst ` set (gm_entries m)"
  by (auto simp: gm_lookup_def dest: map_of_SomeD intro: rev_image_eqI)

lemma gm_entry_lookup: "(k, v) \<in> set (gm_entries m) \<Longrightarrow> gm_lookup m k \<noteq> None"
  unfolding gm_lookup_def by (metis weak_map_of_SomeI option.distinct(1))

context cluster_client
begin

lemma CreateResourceQuota_run:
  assumes run: "CreateResourceQuotaForTenant rt t w = (Ok (), w')"
    and refl: "\<And>q. QCmp (Quantities rt) q q = 0"
  defines "k \<equiv> (''tenant-'' @ uid_of t, ''tenant-quota'')"
    and "desired \<equiv> desired_resources (Quantities rt) t"
  obtains quota where "view w' = cl_quotas_update (\<lambda>m. m(k \<mapsto> quota)) (view w)"
    and "\<And>j. agrees (Quantities rt) (gm_lookup (Hard quota) j) (map_of desired j)"
    and "\<forall>old. cl_quotas (view w) k = Some old \<longrightarrow>
          (\<forall>j. agrees (Quantities rt) (gm_lookup (Hard old) j) (map_of desired j)) \<longrightarrow> view w' = view w"
  using run unfolding CreateResourceQuotaForTenant_def Let_def
proof (cases rule: on_error_Ok [consumes 1, case_names found missing])
  case (missing e w1)
  then have "is_not_found e" by (auto split: if_splits)
  with missing obtain q where create: "ApiCreate (Quotas rt) (quota_object (Quantities rt) t) w1 = (Ok q, w')"
    and w1: "view w1 = view w" "cl_quotas (view w) k = None"
    by (auto elim!: and_then_Ok dest!: quo.get_failed simp: k_def)
  from quo.create_ok [OF create] have "view w' = cl_quotas_update (\<lambda>m. m(k \<mapsto> q)) (view w)"
    and "Hard q = Some desired"
    by (auto simp: w1 k_def desired_def)
  moreover have "agrees (Quantities rt) (map_of desired j) (map_of desired j)" for j
    by (cases "map_of desired j") (simp_all add: refl)
  ultimately show ?thesis by (intro that [of q]) (auto simp: w1)
next
  case (found q w1)
  then have q: "cl_quotas (view w) k = Some q" and w1: "view w1 = view w"
    by (auto dest: quo.get_found simp: k_def)
  from found(2) obtain hard upd w2
    where sync: "sync_desired (Quantities rt) desired (Hard q) False w1 = (Ok (hard, upd), w2)"
      and rest: "(case drop_undesired desired (gm_entries hard) hard upd of (hard, updated) \<Rightarrow>
        if updated then and_then (ApiUpdate (Quotas rt) (q\<lparr>Hard := hard\<rparr>)) (\<lambda>_. ret ()) else ret ()) w2 = (Ok (), w')"
    by (auto simp: desired_def elim!: and_then_Ok)
  have dist: "distinct (map fst desired)" by (simp add: desired_def desired_distinct)
  note sync_facts = sync_desired_Ok [OF sync dist refl]
  obtain hard' upd' where drop: "drop_undesired desired (gm_entries hard) hard upd = (hard', upd')"
    by fastforce
  note drop_facts = drop_undesired_result [OF drop]
  have agree: "agrees (Quantities rt) (gm_lookup hard' j) (map_of desired j)" for j
    unfolding drop_facts(1) sync_facts(2) using refl gm_lookup_key [of hard j]
    by (cases "map_of desired j"; cases "gm_lookup (Hard q) j") (auto simp: sync_facts(2))
  show ?thesis
  proof (cases upd')
    case True
    then obtain q' where "ApiUpdate (Quotas rt) (q\<lparr>Hard := hard'\<rparr>) w1 = (Ok q', w')"
      using rest by (auto simp: drop sync_facts(1) elim!: and_then_Ok)
    from quo.update_ok [OF this] quo.keyed [OF q]
    have eff: "view w' = cl_quotas_update (\<lambda>m. m(k \<mapsto> q')) (view w)" and "Hard q' = hard'"
      by (auto simp: w1 with_server_fields_def key_of_def)
    moreover have False if "cl_quotas (view w) k = Some old"
        "\<And>j. agrees (Quantities rt) (gm_lookup (Hard old) j) (map_of desired j)" for old
    proof -
      have "old = q" using that(1) q by simp
      have "\<not> upd"
      proof
        assume upd
        then obtain j v where "(j, v) \<in> set desired"
          and "\<not> agrees (Quantities rt) (gm_lookup (Hard q) j) (Some v)"
          using sync_facts(3) by auto
        moreover from this dist have "map_of desired j = Some v" by simp
        ultimately show False using that(2) [of j] \<open>old = q\<close> by simp
      qed
      then have "hard = Hard q" by (rule sync_facts(4))
      with True \<open>\<not> upd\<close> obtain j v where "(j, v) \<in> set (gm_entries (Hard q))"
        and "map_of desired j = None"
        unfolding drop_facts(2) by auto
      moreover from this(1) have "gm_lookup (Hard q) j \<noteq> None"
        by (rule gm_entry_lookup)
      ultimately show False using that(2) [of j] \<open>old = q\<close> by (auto simp: agrees_def)
    qed
    ultimately show ?thesis using agree by (intro that [of q']) auto
  next
    case False
    then have "view w' = view w"
      using rest sync_facts(1) w1 by (simp add: drop)
    moreover from False have "\<not> upd" unfolding drop_facts(2) by simp
    with False have "Hard q = hard'" using drop_facts(3) sync_facts(4) by simp
    ultimately show ?thesis using agree q by (intro that [of q]) (auto simp: map_upd_triv)
  qed
qed

lemma quota_written:
  assumes "CreateResourceQuotaForTenant rt t w = (Ok (), w')" and "\<And>q. QCmp (Quantities rt) q q = 0"
  shows "\<exists>quota. view w' = cl_quotas_update
      (\<lambda>m. m((''tenant-'' @ uid_of t, ''tenant-quota'') \<mapsto> quota)) (view w) \<and>
    (\<forall>key. agrees (Quantities rt) (gm_lookup (Hard quota) key)
      (map_of (desired_resources (Quantities rt) t) key))"
  by (rule CreateResourceQuota_run [OF assms]) blast

lemma quota_not_rewritten:
  assumes "CreateResourceQuotaForTenant rt t w = (Ok (), w')" and "\<And>q. QCmp (Quantities rt) q q = 0"
    and "cl_quotas (view w) (''tenant-'' @ uid_of t, ''tenant-quota'') = Some old"
    and "\<And>key. agrees (Quantities rt) (gm_lookup (Hard old) key)
           (map_of (desired_resources (Quantities rt) t) key)"
  shows "view w' = view w"
  by (rule CreateResourceQuota_run [OF assms(1,2)]) (use assms(3,4) in blast)

end

section \<open>The computed requests\<close>

context quantity
begin

lemma cpu_request_amount:
  assumes "0 \<le> amount p" "0 \<le> amount m" and "amount p < 2 ^ 63" "amount m < 2 ^ 63"
    and "amount p * amount m < 2 ^ 63"
  shows "amount (cpu_request pkg q p m) = 1000 * (amount p * amount m div 1000)"
proof -
  have "sint (QMilliValue pkg p * QMilliValue pkg m) = amount p * amount m"
    using assms by (subst sint64_mult) (simp_all add: milli_value mult_nonneg_nonneg order.trans [of _ 0])
  then show ?thesis
    using assms by (simp add: cpu_request_def set_value int64_div_pos)
qed

lemma memory_request_amount:
  assumes "0 \<le> amount q" and "(amount q + 999) div 1000 * 75 < 2 ^ 63"
  shows "amount (memory_request pkg dedicated q) =
    1000 * ((amount q + 999) div 1000 * (if dedicated then 60 else 75) div 100)"
proof -
  let ?v = "(amount q + 999) div 1000"
  have v: "0 \<le> ?v" "?v * 60 < 2 ^ 63" using assms by auto
  have "sint (QValue pkg q) = ?v" using assms by (intro whole_value) auto
  then have "sint (QValue pkg q * 75) = ?v * 75" "sint (QValue pkg q * 60) = ?v * 60"
    using assms v by (subst sint64_mult; simp)+
  with v show ?thesis
    by (auto simp: memory_request_def Let_def set_value int64_div_pos)
qed

lemma cpu_resources_request:
  assumes "0 < amount limit" and "amount limit * 750 < 2 ^ 63"
  shows "\<exists>request. map_of (cpu_resources pkg dedicated limit []) requests_cpu = Some request \<and>
    amount request = 1000 * (amount limit * (if dedicated then 500 else 750) div 1000)"
proof -
  obtain p where p: "QParse pkg (QString pkg limit) = Inr p" "amount p = amount limit"
    using assms parse_string [of limit] by auto
  obtain m where m: "QParse pkg (if \<not> dedicated then ''0.75'' else ''0.5'') = Inr m"
      "amount m = (if dedicated then 500 else 750)"
    using parse_half parse_three_quarters by (cases dedicated) auto
  have "amount (cpu_request pkg limit p m) = 1000 * (amount p * amount m div 1000)"
    using assms by (intro cpu_request_amount) (auto simp: p m)
  moreover have "map_of (cpu_resources pkg dedicated limit []) requests_cpu = Some (cpu_request pkg limit p m)"
    unfolding cpu_resources_def Let_def m(1) p(1) using assms by (simp add: is_zero update_conv')
  ultimately show ?thesis by (simp add: p m)
qed

end

section \<open>Properties\<close>

text \<open>C32: a successful \<open>CreateResourceQuotaForTenant\<close> leaves a quota whose entries are exactly the
  desired ones (equal by \<open>Cmp\<close>, no entry more), and changes nothing else in the cluster.\<close>

theorem quota_synchronised:
  assumes "cluster_client rt view" and "quantity (Quantities rt) amount"
    and "CreateResourceQuotaForTenant rt t w = (Ok (), w')"
  shows "\<exists>quota. view w' = cl_quotas_update
      (\<lambda>m. m((''tenant-'' @ uid_of t, ''tenant-quota'') \<mapsto> quota)) (view w) \<and>
    (\<forall>key. agrees (Quantities rt) (gm_lookup (Hard quota) key)
      (map_of (desired_resources (Quantities rt) t) key))"
  by (rule cluster_client.quota_written [OF assms(1,3)]) (simp add: quantity.cmp_equal [OF assms(2)])

text \<open>A quota that already has the desired entries is not written again.\<close>

theorem quota_settled:
  assumes "cluster_client rt view" and "quantity (Quantities rt) amount"
    and "CreateResourceQuotaForTenant rt t w = (Ok (), w')"
    and "cl_quotas (view w) (''tenant-'' @ uid_of t, ''tenant-quota'') = Some old"
    and "\<forall>key. agrees (Quantities rt) (gm_lookup (Hard old) key)
           (map_of (desired_resources (Quantities rt) t) key)"
  shows "view w' = view w"
proof (rule cluster_client.quota_not_rewritten [OF assms(1,3) _ assms(4)])
  show "QCmp (Quantities rt) q q = 0" for q
    by (simp add: quantity.cmp_equal [OF assms(2)])
qed (use assms(5) in blast)

lemma map_of_requests_cpu:
  "map_of (desired_resources pkg t) requests_cpu =
     (case ResourceQuotas (Spec t) of
        None \<Rightarrow> None
      | Some quotas \<Rightarrow>
          map_of (cpu_resources pkg (DedicatedInstance (Database (Spec t))) (CPULimit quotas) []) requests_cpu)"
  by (simp add: desired_resources_def memory_resources_def Let_def update_conv' split: option.splits)

lemma cpu_resources_other:
  "k \<notin> {limits_cpu, requests_cpu} \<Longrightarrow> map_of (cpu_resources pkg dedicated limit desired) k = map_of desired k"
  by (auto simp: cpu_resources_def Let_def update_conv' split: sum.splits)

lemma map_of_requests_memory:
  "map_of (desired_resources pkg t) requests_memory =
     (case ResourceQuotas (Spec t) of
        None \<Rightarrow> None
      | Some quotas \<Rightarrow>
          if QIsZero pkg (MemoryLimit quotas) then None
          else Some (memory_request pkg (DedicatedInstance (Database (Spec t))) (MemoryLimit quotas)))"
  by (simp add: desired_resources_def memory_resources_def cpu_resources_other Let_def update_conv'
      split: option.splits)

text \<open>C34: the CPU request of a tenant's quota. The product of the limit and the multiplier, scaled
  back to thousandths of a core, is stored with \<open>Set\<close>, which takes whole cores: the request is a
  thousand times the intended share, so above the limit itself for every limit of at least two
  thousandths of a core.\<close>

theorem cpu_request_thousandfold:
  assumes "quantity pkg amount"
    and "ResourceQuotas (Spec t) = Some quotas"
    and "2 \<le> amount (CPULimit quotas)" and "amount (CPULimit quotas) * 750 < 2 ^ 63"
  shows "\<exists>request. map_of (desired_resources pkg t) requests_cpu = Some request \<and>
    amount request = 1000 * (amount (CPULimit quotas) *
      (if DedicatedInstance (Database (Spec t)) then 500 else 750) div 1000) \<and>
    amount (CPULimit quotas) < amount request"
proof -
  obtain request where "map_of (desired_resources pkg t) requests_cpu = Some request"
    and "amount request = 1000 * (amount (CPULimit quotas) *
      (if DedicatedInstance (Database (Spec t)) then 500 else 750) div 1000)"
    using quantity.cpu_resources_request [OF assms(1), of "CPULimit quotas"] assms(2,3,4)
    by (auto simp: map_of_requests_cpu)
  moreover from this(2) have "amount (CPULimit quotas) < amount request"
    using assms(3) by (auto split: if_splits)
  ultimately show ?thesis by blast
qed

text \<open>C35: the memory request of a tenant's quota is 60 percent of the limit for a dedicated
  database and 75 percent for a shared one, in whole bytes rounded down, and never above the limit,
  as long as 75 times the limit fits an \<open>int64\<close>.\<close>

theorem memory_request_share:
  assumes "quantity pkg amount"
    and "ResourceQuotas (Spec t) = Some quotas"
    and "amount (MemoryLimit quotas) = 1000 * bytes" and "0 < bytes" and "bytes * 75 < 2 ^ 63"
  shows "\<exists>request. map_of (desired_resources pkg t) requests_memory = Some request \<and>
    amount request = 1000 * (bytes * (if DedicatedInstance (Database (Spec t)) then 60 else 75) div 100) \<and>
    amount request \<le> amount (MemoryLimit quotas)"
proof -
  have "(1000 * bytes + 999) div 1000 = bytes" by simp
  with assms show ?thesis
    using quantity.memory_request_amount [OF assms(1), of "MemoryLimit quotas"]
    by (auto simp: map_of_requests_memory quantity.is_zero)
qed

lemma sync_desired_nil:
  "desired \<noteq> [] \<Longrightarrow> sync_desired pkg desired None upd w = (Panic ''assignment to entry in nil map'', w)"
  by (cases "(pkg, desired, None :: 'a gomap, upd)" rule: sync_desired.cases) auto

text \<open>C36: an existing quota whose \<open>Hard\<close> map is \<open>nil\<close> (one created while all limits were zero)
  cannot be synchronised with a non-empty list: nothing is written, and the assignment to the
  \<open>nil\<close> map panics whenever the quota could be read.\<close>

theorem quota_nil_hard_panics:
  assumes "cluster_client rt view"
    and "cl_quotas (view w) (''tenant-'' @ uid_of t, ''tenant-quota'') = Some old" and "Hard old = None"
    and "desired_resources (Quantities rt) t \<noteq> []"
    and "CreateResourceQuotaForTenant rt t w = (r, w')"
  shows "view w' = view w \<and>
    (if \<exists>q w1. ApiGet (Quotas rt) (''tenant-'' @ uid_of t) ''tenant-quota'' w = (Ok q, w1)
     then r = Panic ''assignment to entry in nil map'' else \<exists>e. r = Err e)"
proof -
  have quo: "resource (Quotas rt) view cl_quotas cl_quotas_update"
    using assms(1) by (simp add: cluster_client_def)
  note readable = resource.axioms(1) [OF quo]
  show ?thesis
  proof (cases "ApiGet (Quotas rt) (''tenant-'' @ uid_of t) ''tenant-quota'' w")
    case (Pair got w1)
    show ?thesis
    proof (cases got)
      case (Ok q)
      with Pair assms(2) have "q = old" "view w1 = view w"
        using readable.get_found [OF readable] by fastforce+
      with Ok Pair assms(3-5) show ?thesis
        by (simp add: CreateResourceQuotaForTenant_def Let_def on_error_run and_then_run sync_desired_nil)
    next
      case (Err e)
      with Pair assms(2) have "\<not> is_not_found e" "view w1 = view w"
        using readable.get_failed [OF readable] by fastforce+
      with Err Pair assms(5) show ?thesis
        by (auto simp: CreateResourceQuotaForTenant_def Let_def on_error_run)
    next
      case (Panic s)
      with Pair show ?thesis using readable.get_returns [OF readable] by fastforce
    qed
  qed
qed

section \<open>Witnesses\<close>

theorem quota_synchronised_witness:
  "\<exists>quota. mem_view (snd (CreateResourceQuotaForTenant mem_runtime (sample_tenant False) empty_world)) =
      cl_quotas_update (\<lambda>m. m((''tenant-'' @ uid_of (sample_tenant False), ''tenant-quota'') \<mapsto> quota))
        (mem_view empty_world) \<and>
    (\<forall>key. agrees (Quantities mem_runtime) (gm_lookup (Hard quota) key)
      (map_of (desired_resources (Quantities mem_runtime) (sample_tenant False)) key))"
proof -
  have "CreateResourceQuotaForTenant mem_runtime (sample_tenant False) empty_world =
      (Ok (), snd (CreateResourceQuotaForTenant mem_runtime (sample_tenant False) empty_world))"
    by (rule evaluated) code_simp
  then show ?thesis by (rule quota_synchronised [OF mem_client mem_quantity])
qed

theorem quota_settled_witness:
  "mem_view (snd (CreateResourceQuotaForTenant mem_runtime (sample_tenant True)
      (empty_world\<lparr>w_quotas := [quota_object mem_quantities (sample_tenant True)]\<rparr>))) =
    mem_view (empty_world\<lparr>w_quotas := [quota_object mem_quantities (sample_tenant True)]\<rparr>)"
proof (rule quota_settled [OF mem_client mem_quantity])
  let ?w = "empty_world\<lparr>w_quotas := [quota_object mem_quantities (sample_tenant True)]\<rparr>"
  show "CreateResourceQuotaForTenant mem_runtime (sample_tenant True) ?w =
      (Ok (), snd (CreateResourceQuotaForTenant mem_runtime (sample_tenant True) ?w))"
    by (rule evaluated) code_simp
  show "cl_quotas (mem_view (empty_world\<lparr>w_quotas := [quota_object mem_quantities (sample_tenant True)]\<rparr>))
      (''tenant-'' @ uid_of (sample_tenant True), ''tenant-quota'') =
      Some (quota_object mem_quantities (sample_tenant True))"
    by (simp add: mem_view_def stored_def)
  show "\<forall>key. agrees (Quantities mem_runtime)
      (gm_lookup (Hard (quota_object mem_quantities (sample_tenant True))) key)
      (map_of (desired_resources (Quantities mem_runtime) (sample_tenant True)) key)"
    by (simp add: agrees_def memq.cmp_equal split: option.splits)
qed

theorem cpu_request_thousandfold_witness:
  "\<exists>request. map_of (desired_resources mem_quantities (sample_tenant False)) requests_cpu = Some request \<and>
    request = 1500000 \<and> CPULimit sample_quotas < request"
  using cpu_request_thousandfold [OF memq.quantity_axioms, of "sample_tenant False" sample_quotas]
  by (simp add: sample_quotas_def)

theorem memory_request_share_witness:
  "\<exists>request. map_of (desired_resources mem_quantities (sample_tenant True)) requests_memory = Some request \<and>
    request = 644245094000 \<and> request \<le> MemoryLimit sample_quotas"
  using memory_request_share [OF memq.quantity_axioms, of "sample_tenant True" sample_quotas "2 ^ 30"]
  by (simp add: sample_quotas_def)

theorem quota_nil_hard_panics_witness:
  "fst (CreateResourceQuotaForTenant mem_runtime (sample_tenant False)
      (empty_world\<lparr>w_quotas := [(quota_object mem_quantities (sample_tenant False))\<lparr>Hard := None\<rparr>]\<rparr>)) =
    Panic ''assignment to entry in nil map''"
proof -
  let ?old = "(quota_object mem_quantities (sample_tenant False))\<lparr>Hard := None\<rparr>"
  let ?w = "empty_world\<lparr>w_quotas := [?old]\<rparr>"
  have key: "key_of ?old = (''tenant-'' @ uid_of (sample_tenant False), ''tenant-quota'')"
    by (simp add: quota_object_def key_of_def)
  have old: "cl_quotas (mem_view ?w) (''tenant-'' @ uid_of (sample_tenant False), ''tenant-quota'') = Some ?old"
    using key by (simp add: mem_view_def stored_def)
  have "ApiGet (Quotas mem_runtime) (''tenant-'' @ uid_of (sample_tenant False)) ''tenant-quota'' ?w = (Ok ?old, ?w)"
    using key by (simp add: mem_runtime_def mem_api_def mem_get_def stored_def)
  moreover have "desired_resources (Quantities mem_runtime) (sample_tenant False) \<noteq> []"
    by code_simp
  ultimately show ?thesis
    using quota_nil_hard_panics [OF mem_client old, of
      "fst (CreateResourceQuotaForTenant mem_runtime (sample_tenant False) ?w)"
      "snd (CreateResourceQuotaForTenant mem_runtime (sample_tenant False) ?w)"]
    by auto
qed

end
