(* ===== verification/Deployment.thy ===== *)
theory Deployment
  imports Utils Samples
begin

text \<open>
  The tenant's backend deployment (\<open>CreateTenantServiceDeployment\<close> of
  \<open>internal/controller/utils.go\<close>): created from a literal when missing, then brought to the
  replicas and the service version of the spec.
\<close>

section \<open>The literal\<close>

definition healthz_probe :: probe where
  "healthz_probe = \<lparr>ProbePath = ''/healthz'', ProbePort = 8080, InitialDelaySeconds = 0,
     PeriodSeconds = 0, TimeoutSeconds = 0, FailureThreshold = 0\<rparr>"

definition backend_container :: "'q \<Rightarrow> 'q \<Rightarrow> 'q \<Rightarrow> 'q \<Rightarrow> 'q container" where
  "backend_container requestCPU requestMemory limitCPU limitMemory = no_container\<lparr>
     ContainerName := ''backend'',
     Image := ''tenant-service:latest'',
     Ports := [\<lparr>ContainerPort = 8080, PortName = ''http''\<rparr>],
     ImagePullPolicy := ''Never'',
     Resources := \<lparr>
       Requests = Some [(''cpu'', requestCPU), (''memory'', requestMemory)],
       Limits = Some [(''cpu'', limitCPU), (''memory'', limitMemory)]\<rparr>,
     EnvFromSecrets := [''database-secret''],
     ReadinessProbe := Some (healthz_probe\<lparr>InitialDelaySeconds := 5, PeriodSeconds := 3,
       TimeoutSeconds := 1, FailureThreshold := 3\<rparr>),
     LivenessProbe := Some (healthz_probe\<lparr>InitialDelaySeconds := 15, PeriodSeconds := 10\<rparr>)\<rparr>"

definition backend_deployment ::
  "'q tenant_environment \<Rightarrow> 'q \<Rightarrow> 'q \<Rightarrow> 'q \<Rightarrow> 'q \<Rightarrow> 'q deployment" where
  "backend_deployment tenantEnv requestCPU requestMemory limitCPU limitMemory = \<lparr>
     ObjectMeta = no_meta\<lparr>
       MetaName := ''backend'',
       MetaNamespace := ''tenant-'' @ uid_of tenantEnv,
       MetaLabels := Some [
         (''tenant.core.mellifluus.io/tenant-uid'', uid_of tenantEnv),
         (''tenant.core.mellifluus.io/managed-by'', ''tenant-operator''),
         (''app'', ''backend'')]\<rparr>,
     DeploymentReplicas = int32Ptr (Replicas (Spec tenantEnv)),
     DeploymentSelector = Some [
       (''app'', ''backend''),
       (''tenant.core.mellifluus.io/tenant-uid'', uid_of tenantEnv)],
     DeploymentTemplate = \<lparr>
       TemplateLabels = Some [
         (''app'', ''backend''),
         (''tenant.core.mellifluus.io/tenant-uid'', uid_of tenantEnv),
         (''tenant.core.mellifluus.io/managed-by'', ''tenant-operator''),
         (''tenant.core.mellifluus.io/component'', ''backend-service'')],
       TemplateSpec = no_pod_spec\<lparr>Containers :=
         [backend_container requestCPU requestMemory limitCPU limitMemory]\<rparr>\<rparr>\<rparr>"

section \<open>The operation\<close>

text \<open>
  The part after the creation: replicas and the image of the first container follow the spec. A
  \<open>nil\<close> replicas pointer and an empty container list panic. The flag is \<open>updated\<close>.
\<close>

definition containers_of :: "'q deployment \<Rightarrow> 'q container list" where
  "containers_of d = Containers (TemplateSpec (DeploymentTemplate d))"

definition set_containers :: "'q container list \<Rightarrow> 'q deployment \<Rightarrow> 'q deployment" where
  "set_containers cs d = d\<lparr>DeploymentTemplate := (DeploymentTemplate d)\<lparr>
     TemplateSpec := (TemplateSpec (DeploymentTemplate d))\<lparr>Containers := cs\<rparr>\<rparr>\<rparr>"

definition roll_out ::
  "'q tenant_environment \<Rightarrow> 'q deployment \<Rightarrow> ('w, 'q deployment \<times> bool) prog" where
  "roll_out tenantEnv deployment =
     (case DeploymentReplicas deployment of
        None \<Rightarrow> crash ''invalid memory address or nil pointer dereference''
      | Some replicas \<Rightarrow>
          (let (deployment, updated) =
                 (if replicas \<noteq> Replicas (Spec tenantEnv)
                  then (deployment\<lparr>DeploymentReplicas := Some (Replicas (Spec tenantEnv))\<rparr>, True)
                  else (deployment, False));
               expectedImage = ''tenant-service:'' @ ServiceVersion (Spec tenantEnv)
           in (case containers_of deployment of
                 [] \<Rightarrow> crash ''index out of range [0] with length 0''
               | c # cs \<Rightarrow>
                   if Image c \<noteq> expectedImage
                   then ret (set_containers (c\<lparr>Image := expectedImage\<rparr> # cs) deployment, True)
                   else ret (deployment, updated))))"

definition CreateTenantServiceDeployment ::
  "('w, 'q) runtime \<Rightarrow> 'q tenant_environment \<Rightarrow> ('w, unit) prog" where
  "CreateTenantServiceDeployment rt tenantEnv =
     (let tenantNamespace = ''tenant-'' @ uid_of tenantEnv;
          deploymentName = ''backend'' in
      and_then
        (on_error (ApiGet (Deployments rt) tenantNamespace deploymentName)
           (\<lambda>err. if is_not_found err
                  then and_then (MustParse rt ''50m'') (\<lambda>requestCPU.
                       and_then (MustParse rt ''32Mi'') (\<lambda>requestMemory.
                       and_then (MustParse rt ''500m'') (\<lambda>limitCPU.
                       and_then (MustParse rt ''256Mi'') (\<lambda>limitMemory.
                         ApiCreate (Deployments rt)
                           (backend_deployment tenantEnv requestCPU requestMemory limitCPU limitMemory)))))
                  else fail err)
           ret)
        (\<lambda>deployment.
           and_then (roll_out tenantEnv deployment) (\<lambda>(deployment, updated).
             if updated
             then and_then (ApiUpdate (Deployments rt) deployment) (\<lambda>_. ret ())
             else ret ())))"

section \<open>Lemmas\<close>

lemma containers_simps [simp]:
  "containers_of (set_containers cs d) = cs"
  "containers_of (with_server_fields u v d) = containers_of d"
  "containers_of (d\<lparr>DeploymentReplicas := r\<rparr>) = containers_of d"
  "DeploymentReplicas (set_containers cs d) = DeploymentReplicas d"
  "ObjectMeta (set_containers cs d) = ObjectMeta d"
  "DeploymentSelector (set_containers cs d) = DeploymentSelector d"
  "key_of (set_containers cs d) = key_of d"
  "key_of (d\<lparr>DeploymentReplicas := r\<rparr>) = key_of d"
  by (simp_all add: containers_of_def set_containers_def with_server_fields_def key_of_def)

lemma backend_deployment_simps [simp]:
  "key_of (backend_deployment t a b c d) = (''tenant-'' @ uid_of t, ''backend'')"
  "DeploymentReplicas (backend_deployment t a b c d) = Some (Replicas (Spec t))"
  "containers_of (backend_deployment t a b c d) = [backend_container a b c d]"
  by (simp_all add: backend_deployment_def key_of_def int32Ptr_def containers_of_def)

text \<open>The deployment runs the version and the number of replicas the spec asks for.\<close>

definition rolled_out :: "'q tenant_environment \<Rightarrow> 'q deployment \<Rightarrow> bool" where
  "rolled_out t d \<longleftrightarrow> DeploymentReplicas d = Some (Replicas (Spec t)) \<and>
     (case containers_of d of [] \<Rightarrow> False | c # _ \<Rightarrow> Image c = ''tenant-service:'' @ ServiceVersion (Spec t))"

text \<open>A roll-out touches the replicas and the first image only.\<close>

definition same_deployment :: "'q deployment \<Rightarrow> 'q deployment \<Rightarrow> bool" where
  "same_deployment d d' \<longleftrightarrow> labels_of d' = labels_of d \<and> DeploymentSelector d' = DeploymentSelector d \<and>
     TemplateLabels (DeploymentTemplate d') = TemplateLabels (DeploymentTemplate d) \<and>
     tl (containers_of d') = tl (containers_of d) \<and>
     (\<exists>image. hd (containers_of d') = (hd (containers_of d))\<lparr>Image := image\<rparr>)"

lemma same_deployment_refl [simp]: "same_deployment d d"
  by (auto simp: same_deployment_def intro: exI [where x = "Image (hd (containers_of d))"])

lemma same_image [simp]: "\<exists>image. c = c\<lparr>Image := image\<rparr>"
  by (rule exI [where x = "Image c"]) simp

lemma roll_out_Ok:
  assumes "roll_out t d w = (Ok (d', updated), w')"
  shows "w' = w" and "key_of d' = key_of d" and "rolled_out t d'" and "same_deployment d d'"
    and "updated \<longleftrightarrow> \<not> rolled_out t d" and "\<not> updated \<Longrightarrow> d' = d"
proof -
  obtain r c cs where r: "DeploymentReplicas d = Some r" and cs: "containers_of d = c # cs"
    using assms by (auto simp: roll_out_def Let_def split: option.splits list.splits if_splits)
  have "w' = w \<and> key_of d' = key_of d \<and> rolled_out t d' \<and> same_deployment d d' \<and>
      (updated \<longleftrightarrow> \<not> rolled_out t d) \<and> (\<not> updated \<longrightarrow> d' = d)"
    using assms r cs
    by (auto simp: roll_out_def Let_def rolled_out_def same_deployment_def set_containers_def
        key_of_def containers_of_def split: if_splits)
  then show "w' = w" "key_of d' = key_of d" "rolled_out t d'" "same_deployment d d'"
    "updated \<longleftrightarrow> \<not> rolled_out t d" "\<not> updated \<Longrightarrow> d' = d"
    by blast+
qed

lemma rolled_out_server [simp]: "rolled_out t (with_server_fields u v d) = rolled_out t d"
  by (simp add: rolled_out_def)

lemma same_deployment_server [simp]:
  "same_deployment d (with_server_fields u v d') = same_deployment d d'"
  "same_deployment (with_server_fields u v d) d' = same_deployment d d'"
  by (simp_all add: same_deployment_def)

context cluster_client
begin

lemma CreateDeployment_Ok:
  assumes run: "CreateTenantServiceDeployment rt t w = (Ok (), w')"
  defines "k \<equiv> (''tenant-'' @ uid_of t, ''backend'')"
  obtains d where "view w' = cl_deployments_update (\<lambda>m. m(k \<mapsto> d)) (view w)" and "rolled_out t d"
    and "\<forall>old. cl_deployments (view w) k = Some old \<longrightarrow>
           same_deployment old d \<and> (rolled_out t old \<longrightarrow> view w' = view w)"
proof -
  obtain d1 w1 d2 updated w2
    where pre: "on_error (ApiGet (Deployments rt) (''tenant-'' @ uid_of t) ''backend'')
           (\<lambda>err. if is_not_found err
                  then and_then (MustParse rt ''50m'') (\<lambda>requestCPU.
                       and_then (MustParse rt ''32Mi'') (\<lambda>requestMemory.
                       and_then (MustParse rt ''500m'') (\<lambda>limitCPU.
                       and_then (MustParse rt ''256Mi'') (\<lambda>limitMemory.
                         ApiCreate (Deployments rt)
                           (backend_deployment t requestCPU requestMemory limitCPU limitMemory)))))
                  else fail err)
           ret w = (Ok d1, w1)"
      and roll: "roll_out t d1 w1 = (Ok (d2, updated), w2)"
      and rest: "(if updated then and_then (ApiUpdate (Deployments rt) d2) (\<lambda>_. ret ()) else ret ()) w2 = (Ok (), w')"
    using run unfolding CreateTenantServiceDeployment_def Let_def
    by (elim and_then_Ok) (auto simp del: append_Cons)
  have got: "(\<exists>q1 q2 q3 q4 w0. ApiCreate (Deployments rt) (backend_deployment t q1 q2 q3 q4) w0 = (Ok d1, w1) \<and>
        view w0 = view w \<and> cl_deployments (view w) k = None) \<or>
      (cl_deployments (view w) k = Some d1 \<and> view w1 = view w)"
    using pre
  proof (cases rule: on_error_Ok [consumes 1, case_names found missing])
    case (found d w0)
    then show ?thesis unfolding k_def by (auto dest: dep.get_found simp del: append_Cons)
  next
    case (missing e w0)
    from missing(1) have "view w0 = view w" "is_not_found e \<Longrightarrow> cl_deployments (view w) k = None"
      unfolding k_def by (auto dest: dep.get_failed simp del: append_Cons)
    with missing(2) show ?thesis
      by (auto elim!: and_then_Ok MustParse_Ok split: if_splits simp del: append_Cons) blast
  qed
  note roll_facts = roll_out_Ok [OF roll]
  note rest = rest [unfolded roll_facts(1)]
  have key: "key_of d1 = k" and w1: "view w1 = cl_deployments_update (\<lambda>m. m(k \<mapsto> d1)) (view w)"
    using got dep.keyed [of w k d1] by (auto dest!: dep.create_ok simp: k_def map_upd_triv)
  show ?thesis
  proof (cases updated)
    case True
    then obtain d3 where upd: "ApiUpdate (Deployments rt) d2 w1 = (Ok d3, w')"
      using rest by (auto elim!: and_then_Ok)
    then obtain v where d3: "d3 = with_server_fields (uid_of d2) v d2"
      and w': "view w' = cl_deployments_update (\<lambda>m. m(k \<mapsto> d3)) (view w1)"
      using dep.update_ok [OF upd] roll_facts(2) key by auto
    show ?thesis
    proof (rule that [of d3])
      show "view w' = cl_deployments_update (\<lambda>m. m(k \<mapsto> d3)) (view w)"
        by (simp add: w' w1)
      show "rolled_out t d3" using roll_facts(3) d3 by simp
      show "\<forall>old. cl_deployments (view w) k = Some old \<longrightarrow>
          same_deployment old d3 \<and> (rolled_out t old \<longrightarrow> view w' = view w)"
        using got roll_facts(4,5) True d3 by auto
    qed
  next
    case False
    then have "w' = w1" and "d2 = d1" using rest roll_facts(6) by auto
    with got roll_facts(3,5) False w1 show ?thesis
      by (intro that [of d1]) auto
  qed
qed

end

section \<open>Properties\<close>

text \<open>C31: after a successful \<open>CreateTenantServiceDeployment\<close> the tenant's \<open>backend\<close> deployment has
  the replicas of the spec and runs the image of the spec's service version, also when it was just
  created with the image \<open>latest\<close>; of an existing deployment nothing but the replicas and the first
  image is changed, and no other object of the cluster is touched.\<close>

theorem deployment_rolled_out:
  assumes "cluster_client rt view" and "CreateTenantServiceDeployment rt t w = (Ok (), w')"
  shows "\<exists>d. view w' = cl_deployments_update (\<lambda>m. m((''tenant-'' @ uid_of t, ''backend'') \<mapsto> d)) (view w) \<and>
    rolled_out t d \<and>
    (case cl_deployments (view w) (''tenant-'' @ uid_of t, ''backend'') of
       None \<Rightarrow> True | Some old \<Rightarrow> same_deployment old d)"
  by (rule cluster_client.CreateDeployment_Ok [OF assms]) (auto split: option.split)

text \<open>A deployment that already has the replicas and the image of the spec is not written.\<close>

theorem deployment_settled:
  assumes "cluster_client rt view" and "CreateTenantServiceDeployment rt t w = (Ok (), w')"
    and "cl_deployments (view w) (''tenant-'' @ uid_of t, ''backend'') = Some old" and "rolled_out t old"
  shows "view w' = view w"
  by (rule cluster_client.CreateDeployment_Ok [OF assms(1,2)]) (use assms(3,4) in blast)

section \<open>Witnesses\<close>

theorem deployment_rolled_out_witness:
  "\<exists>d. mem_view (snd (CreateTenantServiceDeployment mem_runtime (sample_tenant False) empty_world)) =
      cl_deployments_update (\<lambda>m. m((''tenant-'' @ uid_of (sample_tenant False), ''backend'') \<mapsto> d))
        (mem_view empty_world) \<and> rolled_out (sample_tenant False) d"
proof -
  have "CreateTenantServiceDeployment mem_runtime (sample_tenant False) empty_world =
      (Ok (), snd (CreateTenantServiceDeployment mem_runtime (sample_tenant False) empty_world))"
    by (rule evaluated) code_simp
  from deployment_rolled_out [OF mem_client this] show ?thesis by blast
qed

definition sample_deployment :: "int deployment" where
  "sample_deployment = set_containers
     [(backend_container 50 50 50 50)\<lparr>Image := ''tenant-service:1.0.0''\<rparr>]
     (backend_deployment (sample_tenant False) 50 50 50 50)"

theorem deployment_settled_witness:
  "mem_view (snd (CreateTenantServiceDeployment mem_runtime (sample_tenant False)
      (empty_world\<lparr>w_deployments := [sample_deployment]\<rparr>))) =
    mem_view (empty_world\<lparr>w_deployments := [sample_deployment]\<rparr>)"
proof (rule deployment_settled [OF mem_client])
  show "CreateTenantServiceDeployment mem_runtime (sample_tenant False)
      (empty_world\<lparr>w_deployments := [sample_deployment]\<rparr>) =
      (Ok (), snd (CreateTenantServiceDeployment mem_runtime (sample_tenant False)
      (empty_world\<lparr>w_deployments := [sample_deployment]\<rparr>)))"
    by (rule evaluated) code_simp
  have "key_of sample_deployment = (''tenant-'' @ uid_of (sample_tenant False), ''backend'')"
    unfolding sample_deployment_def containers_simps by (rule backend_deployment_simps(1))
  then show "cl_deployments (mem_view (empty_world\<lparr>w_deployments := [sample_deployment]\<rparr>))
      (''tenant-'' @ uid_of (sample_tenant False), ''backend'') = Some sample_deployment"
    by (simp add: mem_view_def stored_def)
  show "rolled_out (sample_tenant False) sample_deployment"
    by code_simp
qed

end
