(* ===== verification/PgInstance.thy ===== *)
theory PgInstance
  imports Utils Samples
begin

text \<open>
  The objects of one PostgreSQL instance (\<open>internal/controller/utils_postgres.go\<close>): the
  configuration maps, the master secret, the stateful set, the service, the tenant's credentials
  and the job that creates the tenant's database, with the literals the code writes, and
  \<open>createPostgreSQLInstance\<close>, which puts them together.
\<close>

section \<open>Configuration maps\<close>

definition config_map_object :: "string \<Rightarrow> string gomap \<Rightarrow> config_map" where
  "config_map_object ns data = \<lparr>ObjectMeta = no_meta\<lparr>
       MetaName := ''postgresql-config'',
       MetaNamespace := ns,
       MetaLabels := Some [
         (''app'', ''postgresql''),
         (''tenant.core.mellifluus.io/managed-by'', ''tenant-operator'')]\<rparr>,
     ConfigData = data\<rparr>"

text \<open>\<open>postgresqlConfigs.ReadFile\<close> on the files embedded in the binary.\<close>

definition read_config :: "('w, 'q) runtime \<Rightarrow> string \<Rightarrow> ('w, string) prog" where
  "read_config rt f = (case ReadFile rt f of Inl e \<Rightarrow> fail e | Inr s \<Rightarrow> ret s)"

definition shared_config_literal :: "('w, 'q) runtime \<Rightarrow> ('w, config_map) prog" where
  "shared_config_literal rt =
     and_then (wrapping ''failed to read postgresql.conf'' (read_config rt ''configs/postgresql.conf''))
       (\<lambda>postgresqlConf.
          and_then (wrapping ''failed to read pg_hba.conf'' (read_config rt ''configs/pg_hba.conf''))
            (\<lambda>pgHbaConf. ret (config_map_object ''shared-services'' (Some [
               (''postgresql.conf'', postgresqlConf), (''pg_hba.conf'', pgHbaConf)]))))"

definition ensureSharedPostgreSQLConfigMap :: "('w, 'q) runtime \<Rightarrow> ('w, unit) prog" where
  "ensureSharedPostgreSQLConfigMap rt =
     on_error (ApiGet (ConfigMaps rt) ''shared-services'' ''postgresql-config'')
       (\<lambda>err. if is_not_found err
              then and_then (shared_config_literal rt) (\<lambda>configMap.
                   and_then (wrapping ''failed to create shared PostgreSQL config ConfigMap''
                               (ApiCreate (ConfigMaps rt) configMap))
                     (\<lambda>_. ret ()))
              else fail err)
       (\<lambda>_. ret ())"

definition copyPostgreSQLConfigMapToNamespace :: "('w, 'q) runtime \<Rightarrow> string \<Rightarrow> ('w, unit) prog" where
  "copyPostgreSQLConfigMapToNamespace rt targetNamespace =
     and_then (wrapping ''failed to get shared PostgreSQL config''
                 (ApiGet (ConfigMaps rt) ''shared-services'' ''postgresql-config''))
       (\<lambda>sourceConfigMap.
          on_error (ApiGet (ConfigMaps rt) targetNamespace ''postgresql-config'')
            (\<lambda>err. if is_not_found err
                   then and_then (ret (config_map_object targetNamespace (ConfigData sourceConfigMap)))
                     (\<lambda>targetConfigMap.
                        and_then (wrapping (''failed to copy PostgreSQL config ConfigMap to namespace '' @ targetNamespace)
                                    (ApiCreate (ConfigMaps rt) targetConfigMap))
                          (\<lambda>_. ret ()))
                   else fail err)
            (\<lambda>_. ret ()))"

section \<open>Credentials\<close>

record database_credentials =
  CredHost :: string
  CredPort :: string
  CredDatabase :: string
  CredUsername :: string
  CredPassword :: string

definition tenant_secret_object :: "'q tenant_environment \<Rightarrow> database_credentials \<Rightarrow> secret" where
  "tenant_secret_object tenantEnv creds = \<lparr>ObjectMeta = no_meta\<lparr>
       MetaName := ''database-secret'',
       MetaNamespace := ''tenant-'' @ uid_of tenantEnv,
       MetaLabels := Some [
         (''tenant.core.mellifluus.io/tenant-uid'', uid_of tenantEnv),
         (''tenant.core.mellifluus.io/managed-by'', ''tenant-operator'')]\<rparr>,
     SecretType = ''Opaque'',
     SecretData = Some [
       (''DB_HOST'', CredHost creds),
       (''DB_PORT'', CredPort creds),
       (''DB_NAME'', CredDatabase creds),
       (''DB_USERNAME'', CredUsername creds),
       (''DB_PASSWORD'', CredPassword creds)]\<rparr>"

text \<open>\<open>string(secret.Data[k])\<close>: a missing key reads as the empty string.\<close>

definition secret_value :: "secret \<Rightarrow> string \<Rightarrow> string" where
  "secret_value secret k = (case gm_lookup (SecretData secret) k of None \<Rightarrow> '''' | Some v \<Rightarrow> v)"

definition secret_credentials :: "secret \<Rightarrow> database_credentials" where
  "secret_credentials secret = \<lparr>
     CredHost = secret_value secret ''DB_HOST'',
     CredPort = secret_value secret ''DB_PORT'',
     CredDatabase = secret_value secret ''DB_NAME'',
     CredUsername = secret_value secret ''DB_USERNAME'',
     CredPassword = secret_value secret ''DB_PASSWORD''\<rparr>"

definition new_tenant_secret ::
  "('w, 'q) runtime \<Rightarrow> 'q tenant_environment \<Rightarrow> string \<Rightarrow> string \<Rightarrow> ('w, secret) prog" where
  "new_tenant_secret rt tenantEnv serviceName instanceNamespaceName =
     and_then (slice_to (uid_of tenantEnv) 8) (\<lambda>short.
       let databaseName = ''tenant_'' @ short; tenantUsername = ''tenant_'' @ short in
       and_then (wrapping ''failed to generate tenant password'' (generatePassword rt 24))
         (\<lambda>tenantPassword. ret (tenant_secret_object tenantEnv \<lparr>
            CredHost = serviceName @ ''.'' @ instanceNamespaceName @ ''.svc.cluster.local'',
            CredPort = ''5432'',
            CredDatabase = databaseName,
            CredUsername = tenantUsername,
            CredPassword = tenantPassword\<rparr>)))"

definition createTenantPostgreSQLSecret ::
  "('w, 'q) runtime \<Rightarrow> 'q tenant_environment \<Rightarrow> string \<Rightarrow> string \<Rightarrow> ('w, database_credentials) prog" where
  "createTenantPostgreSQLSecret rt tenantEnv serviceName instanceNamespaceName =
     (let tenantNamespaceName = ''tenant-'' @ uid_of tenantEnv;
          secretName = ''database-secret'' in
      on_error (ApiGet (Secrets rt) tenantNamespaceName secretName)
        (\<lambda>err. if is_not_found err
               then and_then (new_tenant_secret rt tenantEnv serviceName instanceNamespaceName) (\<lambda>secret.
                    and_then (ApiCreate (Secrets rt) secret) (\<lambda>secret. ret (secret_credentials secret)))
               else fail err)
        (\<lambda>secret. ret (secret_credentials secret)))"

section \<open>The master secret\<close>

definition master_secret_object :: "string \<Rightarrow> string \<Rightarrow> string \<Rightarrow> secret" where
  "master_secret_object ns secretName password = \<lparr>ObjectMeta = no_meta\<lparr>
       MetaName := secretName,
       MetaNamespace := ns,
       MetaLabels := Some [
         (''tenant.core.mellifluus.io/managed-by'', ''tenant-operator''),
         (''app'', ''postgresql'')]\<rparr>,
     SecretType = ''Opaque'',
     SecretData = Some [
       (''POSTGRES_DB'', ''postgres''),
       (''POSTGRES_USER'', ''postgres''),
       (''POSTGRES_PASSWORD'', password)]\<rparr>"

definition createPostgreSQLSecret :: "('w, 'q) runtime \<Rightarrow> string \<Rightarrow> ('w, string) prog" where
  "createPostgreSQLSecret rt ns =
     and_then (wrapping ''failed to generate an id'' (generateId rt 6)) (\<lambda>id.
       let secretName = ''postgresql-master-secret-'' @ id in
       on_error (ApiGet (Secrets rt) ns secretName)
         (\<lambda>err. if is_not_found err
                then and_then
                  (and_then (wrapping ''failed to generate secure password'' (generatePassword rt 32))
                     (\<lambda>password. ret (master_secret_object ns secretName password)))
                  (\<lambda>secret. and_then (ApiCreate (Secrets rt) secret) (\<lambda>_. ret secretName))
                else fail err)
         (\<lambda>_. ret secretName))"

section \<open>The stateful set\<close>

definition postgres_labels :: "'q tenant_environment \<Rightarrow> string \<Rightarrow> (string \<times> string) list" where
  "postgres_labels tenantEnv statefulSetName =
     (let labels = [
        (''tenant.core.mellifluus.io/managed-by'', ''tenant-operator''),
        (''app'', statefulSetName)]
      in if DedicatedInstance (Database (Spec tenantEnv))
         then AList.update ''tenant.core.mellifluus.io/tenant-uid'' (uid_of tenantEnv) labels
         else AList.update ''tenant.core.mellifluus.io/shared-instance'' ''true'' labels)"

definition postgres_container ::
  "string \<Rightarrow> string \<Rightarrow> 'q \<Rightarrow> 'q \<Rightarrow> 'q \<Rightarrow> 'q \<Rightarrow> 'q container" where
  "postgres_container version secretName limitCPU limitMemory requestCPU requestMemory = no_container\<lparr>
     ContainerName := ''postgresql'',
     Image := ''postgres:'' @ version @ ''-alpine'',
     EnvFromSecrets := [secretName],
     Ports := [\<lparr>ContainerPort = 5432, PortName = ''postgresql''\<rparr>],
     Resources := \<lparr>
       Requests = Some [(''cpu'', requestCPU), (''memory'', requestMemory)],
       Limits = Some [(''cpu'', limitCPU), (''memory'', limitMemory)]\<rparr>,
     VolumeMounts := [
       \<lparr>MountName = ''postgresql-storage'', MountPath = ''/var/lib/postgresql/data'',
         SubPath = '''', ReadOnly = False\<rparr>,
       \<lparr>MountName = ''postgresql-config'', MountPath = ''/etc/postgresql/postgresql.conf'',
         SubPath = ''postgresql.conf'', ReadOnly = True\<rparr>,
       \<lparr>MountName = ''postgresql-config'', MountPath = ''/etc/postgresql/pg_hba.conf'',
         SubPath = ''pg_hba.conf'', ReadOnly = True\<rparr>],
     Command := [
       ''docker-entrypoint.sh'',
       ''postgres'',
       ''-c'', ''config_file=/etc/postgresql/postgresql.conf'',
       ''-c'', ''hba_file=/etc/postgresql/pg_hba.conf'']\<rparr>"

definition storage_claim_template :: "'q \<Rightarrow> 'q persistent_volume_claim" where
  "storage_claim_template storageSize = \<lparr>
     ObjectMeta = no_meta\<lparr>MetaName := ''postgresql-storage''\<rparr>,
     AccessModes = [''ReadWriteOnce''],
     ClaimRequests = Some [(''storage'', storageSize)]\<rparr>"

definition postgres_stateful_set ::
  "'q tenant_environment \<Rightarrow> string \<Rightarrow> string \<Rightarrow> string \<Rightarrow> 'q \<Rightarrow> 'q container \<Rightarrow> 'q stateful_set" where
  "postgres_stateful_set tenantEnv ns statefulSetName secretName storageSize container = \<lparr>
     ObjectMeta = no_meta\<lparr>
       MetaName := statefulSetName,
       MetaNamespace := ns,
       MetaLabels := Some (postgres_labels tenantEnv statefulSetName)\<rparr>,
     StatefulSetReplicas = int32Ptr 1,
     StatefulSetSelector = Some [(''app'', statefulSetName)],
     StatefulSetTemplate = \<lparr>
       TemplateLabels = Some [(''app'', statefulSetName)],
       TemplateSpec = no_pod_spec\<lparr>
         Containers := [container],
         Volumes := [\<lparr>VolumeName = ''postgresql-config'', VolumeConfigMap = ''postgresql-config''\<rparr>],
         PriorityClassName := ''system-cluster-critical''\<rparr>\<rparr>,
     VolumeClaimTemplates = [storage_claim_template storageSize]\<rparr>"

definition postgres_literal ::
  "('w, 'q) runtime \<Rightarrow> 'q tenant_environment \<Rightarrow> string \<Rightarrow> string \<Rightarrow> string \<Rightarrow> ('w, 'q stateful_set) prog" where
  "postgres_literal rt tenantEnv ns statefulSetName secretName =
     (let version = ''15''; cpuLimit = ''500m''; memoryLimit = ''1Gi'' in
      and_then (MustParse rt ''1Gi'') (\<lambda>storageSize.
      and_then (MustParse rt cpuLimit) (\<lambda>limitCPU.
      and_then (MustParse rt memoryLimit) (\<lambda>limitMemory.
      and_then (MustParse rt ''50m'') (\<lambda>requestCPU.
      and_then (MustParse rt ''32Mi'') (\<lambda>requestMemory.
        ret (postgres_stateful_set tenantEnv ns statefulSetName secretName storageSize
          (postgres_container version secretName limitCPU limitMemory requestCPU requestMemory))))))))"

definition createPostgreSQLStatefulSet ::
  "('w, 'q) runtime \<Rightarrow> 'q tenant_environment \<Rightarrow> string \<Rightarrow> string \<Rightarrow> ('w, string) prog" where
  "createPostgreSQLStatefulSet rt tenantEnv ns secretName =
     and_then (slice_last secretName 6) (\<lambda>id.
       let statefulSetName = ''postgresql-'' @ id in
       on_error (ApiGet (StatefulSets rt) ns statefulSetName)
         (\<lambda>err. if is_not_found err
                then and_then (postgres_literal rt tenantEnv ns statefulSetName secretName) (\<lambda>statefulSet.
                     and_then (ApiCreate (StatefulSets rt) statefulSet) (\<lambda>_. ret statefulSetName))
                else fail err)
         (\<lambda>_. ret statefulSetName))"

section \<open>The service\<close>

definition postgres_service :: "'q tenant_environment \<Rightarrow> string \<Rightarrow> string \<Rightarrow> string \<Rightarrow> service" where
  "postgres_service tenantEnv ns serviceName statefulSetName = \<lparr>ObjectMeta = no_meta\<lparr>
       MetaName := serviceName,
       MetaNamespace := ns,
       MetaLabels := Some [
         (''tenant.core.mellifluus.io/tenant-uid'', uid_of tenantEnv),
         (''tenant.core.mellifluus.io/managed-by'', ''tenant-operator''),
         (''app'', statefulSetName)]\<rparr>,
     ServiceSelector = Some [(''app'', statefulSetName)],
     ServicePorts = [\<lparr>Port = 5432, TargetPort = 5432, Protocol = ''TCP'', ServicePortName = statefulSetName\<rparr>],
     ServiceType = ''ClusterIP''\<rparr>"

definition createPostgreSQLService ::
  "('w, 'q) runtime \<Rightarrow> 'q tenant_environment \<Rightarrow> string \<Rightarrow> string \<Rightarrow> ('w, string) prog" where
  "createPostgreSQLService rt tenantEnv ns statefulSetName =
     and_then (slice_last statefulSetName 6) (\<lambda>id.
       let serviceName = ''postgresql-'' @ id in
       on_error (ApiGet (Services rt) ns serviceName)
         (\<lambda>err. if is_not_found err
                then and_then (ret (postgres_service tenantEnv ns serviceName statefulSetName)) (\<lambda>service.
                     and_then (ApiCreate (Services rt) service) (\<lambda>_. ret serviceName))
                else fail err)
         (\<lambda>_. ret serviceName))"

section \<open>Jobs on a database\<close>

text \<open>
  The shell scripts of the jobs, line by line. In an escaped line a tilde stands for the
  backslash, which the strings here cannot hold; the scripts have no tilde of their own.
\<close>

definition escaped :: "string \<Rightarrow> string" where
  "escaped s = map (\<lambda>c. if c = CHR ''~'' then CHR 0x5C else c) s"

definition script_of_lines :: "string list \<Rightarrow> string" where
  "script_of_lines ls = strings_Join ls (CHR 0x0A)"

definition init_script_lines :: "string \<Rightarrow> string \<Rightarrow> string \<Rightarrow> string list" where
  \<open>init_script_lines host username database = [
     ''#!/bin/bash'',
     ''    set -e'',
     '''',
     ''    DB_HOST="'' @ host @ ''"'',
     ''    TENANT_USERNAME="'' @ username @ ''"'',
     ''    DATABASE_NAME="'' @ database @ ''"'',
     '''',
     ''    echo "Waiting for PostgreSQL to be ready..."'',
     ''    until pg_isready -h $DB_HOST -p 5432 -U postgres; do'',
     ''      echo "PostgreSQL is unavailable - sleeping"'',
     ''      sleep 2'',
     ''    done'',
     '''',
     ''    echo "PostgreSQL is ready - creating database and user..."'',
     '''',
     ''    # Create database if it doesn't exist'',
     escaped ''    PGPASSWORD="$POSTGRES_PASSWORD" psql -h $DB_HOST -p 5432 -U postgres -tc "SELECT 1 FROM pg_database WHERE datname = '$DATABASE_NAME'" | grep -q 1 || PGPASSWORD="$POSTGRES_PASSWORD" psql -h $DB_HOST -p 5432 -U postgres -c "CREATE DATABASE ~"$DATABASE_NAME~";"'',
     '''',
     ''    # Create user if it doesn't exist (using TENANT_PASSWORD environment variable)'',
     escaped ''    PGPASSWORD="$POSTGRES_PASSWORD" psql -h $DB_HOST -p 5432 -U postgres -tc "SELECT 1 FROM pg_roles WHERE rolname='$TENANT_USERNAME'" | grep -q 1 || PGPASSWORD="$POSTGRES_PASSWORD" psql -h $DB_HOST -p 5432 -U postgres -c "CREATE USER ~"$TENANT_USERNAME~" WITH PASSWORD '$TENANT_PASSWORD';"'',
     '''',
     ''    # Grant database-level privileges'',
     escaped ''    PGPASSWORD="$POSTGRES_PASSWORD" psql -h $DB_HOST -p 5432 -U postgres -c "GRANT ALL PRIVILEGES ON DATABASE ~"$DATABASE_NAME~" TO ~"$TENANT_USERNAME~";"'',
     '''',
     ''    # Grant schema-level privileges (connect to the tenant database)'',
     escaped ''    PGPASSWORD="$POSTGRES_PASSWORD" psql -h $DB_HOST -p 5432 -U postgres -d "$DATABASE_NAME" -c "GRANT USAGE, CREATE ON SCHEMA public TO ~"$TENANT_USERNAME~";"'',
     '''',
     ''    # Grant privileges on all existing tables and sequences (if any)'',
     escaped ''    PGPASSWORD="$POSTGRES_PASSWORD" psql -h $DB_HOST -p 5432 -U postgres -d "$DATABASE_NAME" -c "GRANT ALL PRIVILEGES ON ALL TABLES IN SCHEMA public TO ~"$TENANT_USERNAME~";"'',
     escaped ''    PGPASSWORD="$POSTGRES_PASSWORD" psql -h $DB_HOST -p 5432 -U postgres -d "$DATABASE_NAME" -c "GRANT ALL PRIVILEGES ON ALL SEQUENCES IN SCHEMA public TO ~"$TENANT_USERNAME~";"'',
     '''',
     ''    # Set default privileges for future objects created by any user'',
     escaped ''    PGPASSWORD="$POSTGRES_PASSWORD" psql -h $DB_HOST -p 5432 -U postgres -d "$DATABASE_NAME" -c "ALTER DEFAULT PRIVILEGES IN SCHEMA public GRANT ALL PRIVILEGES ON TABLES TO ~"$TENANT_USERNAME~";"'',
     escaped ''    PGPASSWORD="$POSTGRES_PASSWORD" psql -h $DB_HOST -p 5432 -U postgres -d "$DATABASE_NAME" -c "ALTER DEFAULT PRIVILEGES IN SCHEMA public GRANT ALL PRIVILEGES ON SEQUENCES TO ~"$TENANT_USERNAME~";"'',
     '''',
     ''    echo "Database initialization completed successfully!"'',
     ''  '']\<close>

text \<open>The parts the literals of the two jobs have in common.\<close>

definition db_job :: "string \<Rightarrow> string \<Rightarrow> string \<Rightarrow> string \<Rightarrow> string \<Rightarrow> string \<Rightarrow> env_var list \<Rightarrow>
    'q \<Rightarrow> 'q \<Rightarrow> 'q \<Rightarrow> 'q \<Rightarrow> 'q job" where
  "db_job jobName ns tenantUID ssName containerName sqlScript env
       requestCPU requestMemory limitCPU limitMemory = \<lparr>
     ObjectMeta = no_meta\<lparr>
       MetaName := jobName,
       MetaNamespace := ns,
       MetaLabels := Some [
         (''tenant.core.mellifluus.io/tenant-uid'', tenantUID),
         (''tenant.core.mellifluus.io/managed-by'', ''tenant-operator''),
         (''tenant.core.mellifluus.io/ss-name'', ssName)]\<rparr>,
     BackoffLimit = int32Ptr 3,
     JobTemplate = \<lparr>
       TemplateLabels = None,
       TemplateSpec = no_pod_spec\<lparr>
         RestartPolicy := ''Never'',
         Containers := [no_container\<lparr>
           ContainerName := containerName,
           Image := ''postgres:15-alpine'',
           Command := [''/bin/sh'', ''-c''],
           Args := [sqlScript],
           Env := env,
           Resources := \<lparr>
             Requests = Some [(''cpu'', requestCPU), (''memory'', requestMemory)],
             Limits = Some [(''cpu'', limitCPU), (''memory'', limitMemory)]\<rparr>\<rparr>]\<rparr>\<rparr>,
     JobConditions = []\<rparr>"

definition master_password_env :: "string \<Rightarrow> env_var" where
  "master_password_env masterSecretName =
     \<lparr>EnvName = ''POSTGRES_PASSWORD'', EnvValue = EnvSecretKey masterSecretName ''POSTGRES_PASSWORD''\<rparr>"

definition job_quantities :: "('w, 'q) runtime \<Rightarrow> ('q \<Rightarrow> 'q \<Rightarrow> 'q \<Rightarrow> 'q \<Rightarrow> 'q job) \<Rightarrow> ('w, 'q job) prog" where
  "job_quantities rt literal =
     and_then (MustParse rt ''50m'') (\<lambda>requestCPU.
     and_then (MustParse rt ''32Mi'') (\<lambda>requestMemory.
     and_then (MustParse rt ''200m'') (\<lambda>limitCPU.
     and_then (MustParse rt ''256Mi'') (\<lambda>limitMemory.
       ret (literal requestCPU requestMemory limitCPU limitMemory)))))"

text \<open>A job that exists is left alone, completed or not; the difference is only logged.\<close>

definition job_completed :: "'q job \<Rightarrow> bool" where
  "job_completed job \<longleftrightarrow>
     list_ex (\<lambda>c. ConditionType c = ''Complete'' \<and> ConditionStatus c = ''True'') (JobConditions job)"

definition init_job_literal ::
  "('w, 'q) runtime \<Rightarrow> 'q tenant_environment \<Rightarrow> string \<Rightarrow> string \<Rightarrow> string \<Rightarrow> database_credentials \<Rightarrow>
    ('w, 'q job) prog" where
  "init_job_literal rt tenantEnv jobName masterSecretName instanceNamespace tenantCreds =
     (let sqlScript = script_of_lines
            (init_script_lines (CredHost tenantCreds) (CredUsername tenantCreds) (CredDatabase tenantCreds))
      in job_quantities rt (db_job jobName instanceNamespace (uid_of tenantEnv)
           (hd (strings_Split CHR ''.'' (CredHost tenantCreds))) ''db-init'' sqlScript
           [master_password_env masterSecretName,
            \<lparr>EnvName = ''TENANT_PASSWORD'', EnvValue = EnvLiteral (CredPassword tenantCreds)\<rparr>]))"

definition createDatabaseInitJob ::
  "('w, 'q) runtime \<Rightarrow> 'q tenant_environment \<Rightarrow> string \<Rightarrow> string \<Rightarrow> database_credentials \<Rightarrow> ('w, unit) prog" where
  "createDatabaseInitJob rt tenantEnv masterSecretName instanceNamespace tenantCreds =
     and_then (slice_to (uid_of tenantEnv) 8) (\<lambda>short.
       let jobName = ''db-init-'' @ short in
       on_error (ApiGet (Jobs rt) instanceNamespace jobName)
         (\<lambda>err. if is_not_found err
                then and_then (init_job_literal rt tenantEnv jobName masterSecretName instanceNamespace tenantCreds)
                  (\<lambda>job. and_then (wrapping ''failed to create database initialization job''
                                    (ApiCreate (Jobs rt) job)) (\<lambda>_. ret ()))
                else fail err)
         (\<lambda>job. if job_completed job then ret () else ret ()))"

section \<open>The whole instance\<close>

definition createPostgreSQLInstance :: "('w, 'q) runtime \<Rightarrow> 'q tenant_environment \<Rightarrow> ('w, string) prog" where
  "createPostgreSQLInstance rt tenantEnv =
     (let dedicated = DedicatedInstance (Database (Spec tenantEnv));
          targetNamespace = (if dedicated then ''tenant-'' @ uid_of tenantEnv else ''shared-services'') in
      and_then
        (if dedicated
         then wrapping ''failed to copy PostgreSQL ConfigMap to tenant namespace''
                (copyPostgreSQLConfigMapToNamespace rt targetNamespace)
         else ret ()) (\<lambda>_.
      and_then (createPostgreSQLSecret rt targetNamespace) (\<lambda>secretName.
      and_then (createPostgreSQLStatefulSet rt tenantEnv targetNamespace secretName) (\<lambda>statefulSetName.
      and_then (createPostgreSQLService rt tenantEnv targetNamespace statefulSetName) (\<lambda>serviceName.
      and_then (createTenantPostgreSQLSecret rt tenantEnv serviceName targetNamespace) (\<lambda>tenantDbCreds.
      and_then (createDatabaseInitJob rt tenantEnv secretName targetNamespace tenantDbCreds) (\<lambda>_.
        ret statefulSetName)))))))"

section \<open>Names of an instance\<close>

text \<open>
  Everything that belongs to one instance is named after its identifier: a part that builds a name
  and a part that reads the identifier back have to fit.
\<close>

locale id_names =
  fixes mk :: "string \<Rightarrow> string"
    and id_in :: "string \<Rightarrow> (unit, string) prog"
  assumes id_in_mk: "length i = 6 \<Longrightarrow> id_in (mk i) = ret i"
begin

lemma mk_inject:
  assumes "length i = 6" and "length j = 6" and "mk i = mk j"
  shows "i = j"
proof -
  have "(ret i :: (unit, string) prog) = ret j"
    using id_in_mk [OF assms(1)] id_in_mk [OF assms(2)] assms(3) by metis
  then have "(ret i :: (unit, string) prog) () = ret j ()" by (rule fun_cong)
  then show ?thesis by simp
qed

end

definition master_secret_name :: "string \<Rightarrow> string" where
  "master_secret_name i = ''postgresql-master-secret-'' @ i"

definition instance_name :: "string \<Rightarrow> string" where
  "instance_name i = ''postgresql-'' @ i"

lemma slice_last_append: "length i = n \<Longrightarrow> slice_last (p @ i) n = ret i"
  by (simp add: slice_last_def)

interpretation master_names: id_names master_secret_name "\<lambda>s. slice_last s 6"
  by unfold_locales (simp only: master_secret_name_def slice_last_append)

interpretation instance_names: id_names instance_name "\<lambda>s. slice_last s 6"
  by unfold_locales (simp only: instance_name_def slice_last_append)

definition is_instance_id :: "string \<Rightarrow> bool" where
  "is_instance_id i \<longleftrightarrow> length i = 6 \<and> set i \<subseteq> set id_charset"

lemma instance_id_no_dot: "is_instance_id i \<Longrightarrow> CHR ''.'' \<notin> set (instance_name i)"
proof -
  assume "is_instance_id i"
  moreover have "CHR ''.'' \<notin> set id_charset" by (simp add: id_charset_def)
  ultimately have "CHR ''.'' \<notin> set i" by (auto simp: is_instance_id_def)
  then show ?thesis by (simp add: instance_name_def)
qed

section \<open>Keys and labels of the literals\<close>

lemma literal_keys [simp]:
  "key_of (config_map_object ns d) = (ns, ''postgresql-config'')"
  "key_of (tenant_secret_object t c) = (''tenant-'' @ uid_of t, ''database-secret'')"
  "key_of (master_secret_object ns n p) = (ns, n)"
  "key_of (postgres_stateful_set t ns n s q ctr) = (ns, n)"
  "key_of (postgres_service t ns n s) = (ns, n)"
  "key_of (db_job j ns u s cn sc env q1 q2 q3 q4) = (ns, j)"
  by (simp_all add: config_map_object_def tenant_secret_object_def master_secret_object_def
      postgres_stateful_set_def postgres_service_def db_job_def key_of_def)

lemma config_map_data [simp]: "ConfigData (config_map_object ns d) = d"
  by (simp add: config_map_object_def)

lemma credentials_roundtrip [simp]: "secret_credentials (tenant_secret_object t c) = c"
  by (simp add: secret_credentials_def secret_value_def tenant_secret_object_def)

lemma credentials_server [simp]: "secret_credentials (with_server_fields u v s) = secret_credentials s"
  by (simp add: secret_credentials_def secret_value_def)

lemma shared_label:
  "gm_lookup (labels_of (postgres_stateful_set t ns n s q c)) shared_instance_label =
     (if DedicatedInstance (Database (Spec t)) then None else Some ''true'')"
  "gm_lookup (labels_of (postgres_stateful_set t ns n s q c)) SharedInstanceTenantCountLabel = None"
  by (simp_all add: postgres_stateful_set_def postgres_labels_def SharedInstanceTenantCountLabel_def Let_def)

lemma job_labels [simp]:
  "labels_of (db_job j ns u s cn sc env a b c d) = Some [
     (''tenant.core.mellifluus.io/tenant-uid'', u),
     (''tenant.core.mellifluus.io/managed-by'', ''tenant-operator''),
     (''tenant.core.mellifluus.io/ss-name'', s)]"
  by (simp add: db_job_def)

lemma host_instance:
  "CHR ''.'' \<notin> set s \<Longrightarrow> hd (strings_Split CHR ''.'' (s @ ''.'' @ ns @ ''.svc.cluster.local'')) = s"
  by (simp add: Split_append_sep)

section \<open>What the literals' programs produce\<close>

lemma shared_config_literal_Ok:
  assumes "shared_config_literal rt w = (Ok x, w')"
  shows "w' = w" and "\<exists>conf hba. ReadFile rt ''configs/postgresql.conf'' = Inr conf \<and>
    ReadFile rt ''configs/pg_hba.conf'' = Inr hba \<and>
    x = config_map_object ''shared-services'' (Some [(''postgresql.conf'', conf), (''pg_hba.conf'', hba)])"
  using assms unfolding shared_config_literal_def
  by (auto simp: read_config_def elim!: and_then_Ok split: sum.splits)

lemma job_quantities_Ok:
  assumes "job_quantities rt l w = (Ok x, w')"
  shows "w' = w" and "\<exists>a b c d. x = l a b c d"
  using assms unfolding job_quantities_def by (auto elim!: and_then_Ok MustParse_Ok) blast

lemma postgres_literal_Ok:
  assumes "postgres_literal rt t ns n s w = (Ok x, w')"
  shows "w' = w" and "\<exists>q c. x = postgres_stateful_set t ns n s q c"
  using assms unfolding postgres_literal_def Let_def by (auto elim!: and_then_Ok MustParse_Ok) blast

section \<open>Contracts\<close>

text \<open>The credentials a fresh tenant secret holds.\<close>

definition fresh_credentials :: "'q tenant_environment \<Rightarrow> string \<Rightarrow> string \<Rightarrow> database_credentials \<Rightarrow> bool" where
  "fresh_credentials t s ns creds \<longleftrightarrow>
     CredHost creds = s @ ''.'' @ ns @ ''.svc.cluster.local'' \<and> CredPort creds = ''5432'' \<and>
     CredDatabase creds = ''tenant_'' @ take 8 (uid_of t) \<and>
     CredUsername creds = ''tenant_'' @ take 8 (uid_of t) \<and>
     length (CredPassword creds) = 24 \<and> set (CredPassword creds) \<subseteq> set password_charset"

context cluster_client
begin

lemma new_tenant_secret_Ok:
  assumes "new_tenant_secret rt t s ns w = (Ok x, w')"
  shows "view w' = view w \<and> key_of x = (''tenant-'' @ uid_of t, ''database-secret'') \<and>
    (\<exists>creds. x = tenant_secret_object t creds \<and> fresh_credentials t s ns creds)"
proof -
  obtain pw w1 where pw: "generatePassword rt 24 w = (Ok pw, w1)" and w': "w' = w1"
    and x: "x = tenant_secret_object t \<lparr>
      CredHost = s @ ''.'' @ ns @ ''.svc.cluster.local'', CredPort = ''5432'',
      CredDatabase = ''tenant_'' @ take 8 (uid_of t), CredUsername = ''tenant_'' @ take 8 (uid_of t),
      CredPassword = pw\<rparr>"
    using assms unfolding new_tenant_secret_def Let_def
    by (auto elim!: and_then_Ok slice_to_Ok simp del: append_Cons)
  note facts = generatePassword_Ok [OF pw]
  have "fresh_credentials t s ns \<lparr>
      CredHost = s @ ''.'' @ ns @ ''.svc.cluster.local'', CredPort = ''5432'',
      CredDatabase = ''tenant_'' @ take 8 (uid_of t), CredUsername = ''tenant_'' @ take 8 (uid_of t),
      CredPassword = pw\<rparr>"
    using facts by (simp add: fresh_credentials_def)
  with x facts(3) show ?thesis unfolding w' x literal_keys by blast
qed

lemma tenant_secret_Ok:
  assumes "createTenantPostgreSQLSecret rt t s ns w = (Ok creds, w')"
  defines "k \<equiv> (''tenant-'' @ uid_of t, ''database-secret'')"
  shows "(\<exists>secret. cl_secrets (view w) k = Some secret \<and> creds = secret_credentials secret \<and> view w' = view w) \<or>
    (cl_secrets (view w) k = None \<and> fresh_credentials t s ns creds \<and>
     (\<exists>u v. view w' = cl_secrets_update (\<lambda>m. m(k \<mapsto>
        with_server_fields u v (tenant_secret_object t creds))) (view w)))"
  using sec.get_or_make [where good = "\<lambda>x. \<exists>c. x = tenant_secret_object t c \<and> fresh_credentials t s ns c",
      OF assms(1) [unfolded createTenantPostgreSQLSecret_def Let_def] new_tenant_secret_Ok]
  unfolding k_def by auto blast

lemma master_secret_Ok:
  assumes "createPostgreSQLSecret rt n w = (Ok name, w')"
  shows "\<exists>i. is_instance_id i \<and> name = master_secret_name i \<and>
    (cl_secrets (view w) (n, name) \<noteq> None \<and> view w' = view w \<or>
     cl_secrets (view w) (n, name) = None \<and>
     (\<exists>pw u v. length pw = 32 \<and> set pw \<subseteq> set password_charset \<and>
        view w' = cl_secrets_update (\<lambda>m. m((n, name) \<mapsto>
          with_server_fields u v (master_secret_object n name pw))) (view w)))"
proof -
  obtain i w1 where i: "generateId rt 6 w = (Ok i, w1)"
    and run: "on_error (ApiGet (Secrets rt) n (master_secret_name i))
         (\<lambda>err. if is_not_found err
                then and_then
                  (and_then (wrapping ''failed to generate secure password'' (generatePassword rt 32))
                     (\<lambda>password. ret (master_secret_object n (master_secret_name i) password)))
                  (\<lambda>secret. and_then (ApiCreate (Secrets rt) secret) (\<lambda>_. ret (master_secret_name i)))
                else fail err)
         (\<lambda>_. ret (master_secret_name i)) w1 = (Ok name, w')"
    using assms unfolding createPostgreSQLSecret_def Let_def master_secret_name_def
    by (elim and_then_Ok) (simp only: wrapping_Ok)
  have made: "view w' = view w \<and> key_of x = (n, master_secret_name i) \<and>
      (\<exists>pw. length pw = 32 \<and> set pw \<subseteq> set password_charset \<and> x = master_secret_object n (master_secret_name i) pw)"
    if "and_then (wrapping ''failed to generate secure password'' (generatePassword rt 32))
          (\<lambda>password. ret (master_secret_object n (master_secret_name i) password)) w = (Ok x, w')" for w x w'
    using that by (auto elim!: and_then_Ok dest: generatePassword_Ok) (blast dest: generatePassword_Ok)
  have "is_instance_id i" and "view w1 = view w"
    using generateId_Ok [OF i] by (auto simp: is_instance_id_def)
  then show ?thesis using sec.get_or_make [OF run made] by auto
qed

end

definition last_six :: "string \<Rightarrow> string" where
  "last_six s = drop (length s - 6) s"

lemma last_six_names [simp]:
  "length i = 6 \<Longrightarrow> last_six (master_secret_name i) = i"
  "length i = 6 \<Longrightarrow> last_six (instance_name i) = i"
  by (simp_all add: last_six_def master_secret_name_def instance_name_def)

context cluster_client
begin

lemma stateful_set_Ok:
  assumes "createPostgreSQLStatefulSet rt t n s w = (Ok name, w')"
  defines "k \<equiv> (n, instance_name (last_six s))"
  shows "name = instance_name (last_six s) \<and> 6 \<le> length s \<and>
    (cl_stateful_sets (view w) k \<noteq> None \<and> view w' = view w \<or>
     cl_stateful_sets (view w) k = None \<and>
     (\<exists>q c u v. view w' = cl_stateful_sets_update (\<lambda>m. m(k \<mapsto>
        with_server_fields u v (postgres_stateful_set t n name s q c))) (view w)))"
proof -
  have len: "6 \<le> length s"
    and run: "on_error (ApiGet (StatefulSets rt) n (instance_name (last_six s)))
         (\<lambda>err. if is_not_found err
                then and_then (postgres_literal rt t n (instance_name (last_six s)) s) (\<lambda>statefulSet.
                     and_then (ApiCreate (StatefulSets rt) statefulSet) (\<lambda>_. ret (instance_name (last_six s))))
                else fail err)
         (\<lambda>_. ret (instance_name (last_six s))) w = (Ok name, w')"
    using assms(1) unfolding createPostgreSQLStatefulSet_def Let_def instance_name_def last_six_def
    by (auto elim!: and_then_Ok [of "slice_last s 6"] slice_last_Ok simp del: append_Cons)
  have "view w' = view w \<and> key_of x = (n, instance_name (last_six s)) \<and>
      (\<exists>q c. x = postgres_stateful_set t n (instance_name (last_six s)) s q c)"
    if "postgres_literal rt t n (instance_name (last_six s)) s w = (Ok x, w')" for w x w'
    using postgres_literal_Ok [OF that] by auto
  from sts.get_or_make [OF run this] len show ?thesis unfolding k_def by auto blast
qed

end

sublocale cluster_client \<subseteq> pg_set: provides "createPostgreSQLStatefulSet rt t n s" view
    cl_stateful_sets cl_stateful_sets_update "(n, instance_name (last_six s))"
    "\<lambda>x. \<exists>q c. x = postgres_stateful_set t n (instance_name (last_six s)) s q c" for t n s
proof
  fix w r w'
  assume "createPostgreSQLStatefulSet rt t n s w = (Ok r, w')"
  from stateful_set_Ok [OF this]
  show "cl_stateful_sets (view w) (n, instance_name (last_six s)) \<noteq> None \<and> view w' = view w \<or>
      cl_stateful_sets (view w) (n, instance_name (last_six s)) = None \<and>
      (\<exists>x u v. (\<exists>q c. x = postgres_stateful_set t n (instance_name (last_six s)) s q c) \<and>
        view w' = cl_stateful_sets_update (\<lambda>m. m((n, instance_name (last_six s)) \<mapsto> with_server_fields u v x)) (view w))"
    by blast
qed simp

sublocale cluster_client \<subseteq> pg_secret: provides "createTenantPostgreSQLSecret rt t s n" view
    cl_secrets cl_secrets_update "(''tenant-'' @ uid_of t, ''database-secret'')"
    "\<lambda>x. \<exists>creds. x = tenant_secret_object t creds \<and> fresh_credentials t s n creds" for t s n
proof
  fix w r w'
  assume "createTenantPostgreSQLSecret rt t s n w = (Ok r, w')"
  from tenant_secret_Ok [OF this]
  show "cl_secrets (view w) (''tenant-'' @ uid_of t, ''database-secret'') \<noteq> None \<and> view w' = view w \<or>
      cl_secrets (view w) (''tenant-'' @ uid_of t, ''database-secret'') = None \<and>
      (\<exists>x u v. (\<exists>creds. x = tenant_secret_object t creds \<and> fresh_credentials t s n creds) \<and>
        view w' = cl_secrets_update (\<lambda>m. m((''tenant-'' @ uid_of t, ''database-secret'') \<mapsto>
          with_server_fields u v x)) (view w))"
    by blast
qed simp

context cluster_client
begin

lemma service_Ok:
  assumes "createPostgreSQLService rt t n s w = (Ok name, w')"
  defines "k \<equiv> (n, instance_name (last_six s))"
  shows "name = instance_name (last_six s) \<and>
    (cl_services (view w) k \<noteq> None \<and> view w' = view w \<or>
     cl_services (view w) k = None \<and>
     (\<exists>u v. view w' = cl_services_update (\<lambda>m. m(k \<mapsto>
        with_server_fields u v (postgres_service t n name s))) (view w)))"
proof -
  have run: "on_error (ApiGet (Services rt) n (instance_name (last_six s)))
         (\<lambda>err. if is_not_found err
                then and_then (ret (postgres_service t n (instance_name (last_six s)) s)) (\<lambda>service.
                     and_then (ApiCreate (Services rt) service) (\<lambda>_. ret (instance_name (last_six s))))
                else fail err)
         (\<lambda>_. ret (instance_name (last_six s))) w = (Ok name, w')"
    using assms(1) unfolding createPostgreSQLService_def Let_def instance_name_def last_six_def
    by (auto elim!: and_then_Ok [of "slice_last s 6"] slice_last_Ok simp del: append_Cons)
  show ?thesis
    using svc.get_or_make [OF run, where good = "\<lambda>x. x = postgres_service t n (instance_name (last_six s)) s"]
    unfolding k_def by auto
qed

lemma init_job_literal_Ok:
  assumes "init_job_literal rt t j m n creds w = (Ok x, w')"
  shows "view w' = view w \<and> key_of x = (n, j) \<and>
    labels_of x = Some [(tenant_uid_label, uid_of t), (managed_by_label, ''tenant-operator''),
      (ss_name_label, hd (strings_Split CHR ''.'' (CredHost creds)))]"
  using job_quantities_Ok [OF assms [unfolded init_job_literal_def Let_def]] by auto

lemma init_job_Ok:
  assumes "createDatabaseInitJob rt t m n creds w = (Ok (), w')"
  defines "k \<equiv> (n, ''db-init-'' @ take 8 (uid_of t))"
  shows "8 \<le> length (uid_of t) \<and>
    (cl_jobs (view w) k \<noteq> None \<and> view w' = view w \<or>
     cl_jobs (view w) k = None \<and>
     (\<exists>x u v. labels_of x = Some [(tenant_uid_label, uid_of t), (managed_by_label, ''tenant-operator''),
         (ss_name_label, hd (strings_Split CHR ''.'' (CredHost creds)))] \<and>
        view w' = cl_jobs_update (\<lambda>m. m(k \<mapsto> with_server_fields u v x)) (view w)))"
proof -
  have len: "8 \<le> length (uid_of t)"
    and run: "on_error (ApiGet (Jobs rt) n (''db-init-'' @ take 8 (uid_of t)))
         (\<lambda>err. if is_not_found err
                then and_then (init_job_literal rt t (''db-init-'' @ take 8 (uid_of t)) m n creds)
                  (\<lambda>job. and_then (wrapping ''failed to create database initialization job''
                                    (ApiCreate (Jobs rt) job)) (\<lambda>_. ret ()))
                else fail err)
         (\<lambda>_. ret ()) w = (Ok (), w')"
    using assms(1) unfolding createDatabaseInitJob_def Let_def if_cancel
    by (auto elim!: and_then_Ok [of "slice_to (uid_of t) 8"] slice_to_Ok simp del: append_Cons)
  have "view w' = view w \<and> key_of x = (n, ''db-init-'' @ take 8 (uid_of t)) \<and>
      labels_of x = Some [(tenant_uid_label, uid_of t), (managed_by_label, ''tenant-operator''),
         (ss_name_label, hd (strings_Split CHR ''.'' (CredHost creds)))]"
    if "init_job_literal rt t (''db-init-'' @ take 8 (uid_of t)) m n creds w = (Ok x, w')" for w x w'
    using init_job_literal_Ok [OF that] by blast
  note made = job.get_or_make [OF run this]
  from made show ?thesis unfolding k_def using len wrapping_Ok by (auto 4 4)
qed

lemma copy_config_Ok:
  assumes "copyPostgreSQLConfigMapToNamespace rt n w = (Ok (), w')"
  shows "\<exists>source. cl_config_maps (view w) (''shared-services'', ''postgresql-config'') = Some source \<and>
    (cl_config_maps (view w) (n, ''postgresql-config'') \<noteq> None \<and> view w' = view w \<or>
     cl_config_maps (view w) (n, ''postgresql-config'') = None \<and>
     (\<exists>u v. view w' = cl_config_maps_update (\<lambda>m. m((n, ''postgresql-config'') \<mapsto>
        with_server_fields u v (config_map_object n (ConfigData source)))) (view w)))"
proof -
  obtain source w1 where get: "ApiGet (ConfigMaps rt) ''shared-services'' ''postgresql-config'' w = (Ok source, w1)"
    and run: "on_error (ApiGet (ConfigMaps rt) n ''postgresql-config'')
            (\<lambda>err. if is_not_found err
                   then and_then (ret (config_map_object n (ConfigData source)))
                     (\<lambda>targetConfigMap.
                        and_then (wrapping (''failed to copy PostgreSQL config ConfigMap to namespace '' @ n)
                                    (ApiCreate (ConfigMaps rt) targetConfigMap))
                          (\<lambda>_. ret ()))
                   else fail err)
            (\<lambda>_. ret ()) w1 = (Ok (), w')"
    using assms unfolding copyPostgreSQLConfigMapToNamespace_def
    by (elim and_then_Ok) (simp only: wrapping_Ok)
  from get have "cl_config_maps (view w) (''shared-services'', ''postgresql-config'') = Some source"
    and "view w1 = view w" by (auto dest: cm.get_found)
  then show ?thesis
    using cm.get_or_make [OF run, where good = "\<lambda>x. x = config_map_object n (ConfigData source)"] by auto
qed

end

sublocale cluster_client \<subseteq> pg_service: ensures "createPostgreSQLService rt t n s" view
    cl_services cl_services_update "postgres_service t n (instance_name (last_six s)) s" for t n s
proof
  fix w w' r
  assume "createPostgreSQLService rt t n s w = (Ok r, w')"
  from service_Ok [OF this]
  show "cl_services (view w) (key_of (postgres_service t n (instance_name (last_six s)) s)) \<noteq> None \<and> view w' = view w \<or>
      cl_services (view w) (key_of (postgres_service t n (instance_name (last_six s)) s)) = None \<and>
      (\<exists>u v. view w' = cl_services_update (\<lambda>m. m(key_of (postgres_service t n (instance_name (last_six s)) s) \<mapsto>
         with_server_fields u v (postgres_service t n (instance_name (last_six s)) s))) (view w))"
    unfolding literal_keys by blast
qed simp

sublocale cluster_client \<subseteq> pg_job: provides "createDatabaseInitJob rt t m n creds" view
    cl_jobs cl_jobs_update "(n, ''db-init-'' @ take 8 (uid_of t))"
    "\<lambda>x. labels_of x = Some [(tenant_uid_label, uid_of t), (managed_by_label, ''tenant-operator''),
         (ss_name_label, hd (strings_Split CHR ''.'' (CredHost creds)))]" for t m n creds
proof
  fix w w' and r :: unit
  assume "createDatabaseInitJob rt t m n creds w = (Ok r, w')"
  then have "createDatabaseInitJob rt t m n creds w = (Ok (), w')" by simp
  from init_job_Ok [OF this]
  show "cl_jobs (view w) (n, ''db-init-'' @ take 8 (uid_of t)) \<noteq> None \<and> view w' = view w \<or>
      cl_jobs (view w) (n, ''db-init-'' @ take 8 (uid_of t)) = None \<and>
      (\<exists>x u v. labels_of x = Some [(tenant_uid_label, uid_of t), (managed_by_label, ''tenant-operator''),
         (ss_name_label, hd (strings_Split CHR ''.'' (CredHost creds)))] \<and>
        view w' = cl_jobs_update (\<lambda>m. m((n, ''db-init-'' @ take 8 (uid_of t)) \<mapsto>
          with_server_fields u v x)) (view w))"
    by blast
qed simp

sublocale cluster_client \<subseteq> shared_config: provides "ensureSharedPostgreSQLConfigMap rt" view
    cl_config_maps cl_config_maps_update "(''shared-services'', ''postgresql-config'')"
    "\<lambda>x. \<exists>conf hba. ReadFile rt ''configs/postgresql.conf'' = Inr conf \<and>
       ReadFile rt ''configs/pg_hba.conf'' = Inr hba \<and>
       ConfigData x = Some [(''postgresql.conf'', conf), (''pg_hba.conf'', hba)]"
proof
  fix w w' and r :: unit
  assume run: "ensureSharedPostgreSQLConfigMap rt w = (Ok r, w')"
  have made: "view w' = view w \<and> key_of x = (''shared-services'', ''postgresql-config'') \<and>
      (\<exists>conf hba. ReadFile rt ''configs/postgresql.conf'' = Inr conf \<and>
        ReadFile rt ''configs/pg_hba.conf'' = Inr hba \<and>
        ConfigData x = Some [(''postgresql.conf'', conf), (''pg_hba.conf'', hba)])"
    if "shared_config_literal rt w = (Ok x, w')" for w x w'
    using shared_config_literal_Ok [OF that] by auto
  have creates: "ApiCreate (ConfigMaps rt) x w = (Ok y, w')"
    if "wrapping ''failed to create shared PostgreSQL config ConfigMap'' (ApiCreate (ConfigMaps rt) x) w = (Ok y, w')"
    for x w y w'
    using that by (rule wrapping_Ok [THEN iffD1])
  from cm.get_or_make [OF run [unfolded ensureSharedPostgreSQLConfigMap_def] made creates]
  show "cl_config_maps (view w) (''shared-services'', ''postgresql-config'') \<noteq> None \<and> view w' = view w \<or>
      cl_config_maps (view w) (''shared-services'', ''postgresql-config'') = None \<and>
      (\<exists>x u v. (\<exists>conf hba. ReadFile rt ''configs/postgresql.conf'' = Inr conf \<and>
          ReadFile rt ''configs/pg_hba.conf'' = Inr hba \<and>
          ConfigData x = Some [(''postgresql.conf'', conf), (''pg_hba.conf'', hba)]) \<and>
        view w' = cl_config_maps_update (\<lambda>m. m((''shared-services'', ''postgresql-config'') \<mapsto>
          with_server_fields u v x)) (view w))"
    by blast
qed simp

context cluster_client
begin

lemma vsteps_read_config: "preorder_rel P \<Longrightarrow> vsteps view P (read_config rt f)"
  unfolding read_config_def by (cases "ReadFile rt f") (auto intro: vsteps_rules)

text \<open>Whatever comes of it, setting up an instance only adds objects.\<close>

lemma instance_adds:
  "vsteps view only_adds (copyPostgreSQLConfigMapToNamespace rt n)"
  "vsteps view only_adds (createPostgreSQLSecret rt n)"
  "vsteps view only_adds (createPostgreSQLStatefulSet rt t n s)"
  "vsteps view only_adds (createPostgreSQLService rt t n s)"
  "vsteps view only_adds (createTenantPostgreSQLSecret rt t s n)"
  "vsteps view only_adds (createDatabaseInitJob rt t m n creds)"
  unfolding copyPostgreSQLConfigMapToNamespace_def createPostgreSQLSecret_def
    createPostgreSQLStatefulSet_def createPostgreSQLService_def createTenantPostgreSQLSecret_def
    createDatabaseInitJob_def new_tenant_secret_def postgres_literal_def init_job_literal_def
    job_quantities_def Let_def
  by (intro adds_rules vsteps_generate)+

lemma createPostgreSQLInstance_adds: "vsteps view only_adds (createPostgreSQLInstance rt t)"
  unfolding createPostgreSQLInstance_def Let_def by (intro adds_rules instance_adds)

end

context cluster_client
begin

lemma copy_if_Ok:
  assumes "(if b then wrapping msg (copyPostgreSQLConfigMapToNamespace rt n) else ret ()) w = (Ok u, w')"
  shows "only_adds (view w) (view w')"
    and "b \<Longrightarrow> cl_config_maps (view w') (n, ''postgresql-config'') \<noteq> None"
    and "cl_secrets (view w') = cl_secrets (view w)" and "cl_jobs (view w') = cl_jobs (view w)"
proof -
  have "only_adds (view w) (view w') \<and> (b \<longrightarrow> cl_config_maps (view w') (n, ''postgresql-config'') \<noteq> None) \<and>
    cl_secrets (view w') = cl_secrets (view w) \<and> cl_jobs (view w') = cl_jobs (view w)"
  proof (cases b)
    case True
    with assms have run: "copyPostgreSQLConfigMapToNamespace rt n w = (Ok (), w')" by simp
    from copy_config_Ok [OF this] vsteps_run [OF instance_adds(1) run] show ?thesis by auto
  next
    case False
    with assms show ?thesis by (simp add: only_adds_def)
  qed
  then show "only_adds (view w) (view w')"
    and "b \<Longrightarrow> cl_config_maps (view w') (n, ''postgresql-config'') \<noteq> None"
    and "cl_secrets (view w') = cl_secrets (view w)" and "cl_jobs (view w') = cl_jobs (view w)"
    by blast+
qed

lemma instance_Ok:
  assumes run: "createPostgreSQLInstance rt t w = (Ok name, w')"
  defines "n \<equiv> (if DedicatedInstance (Database (Spec t)) then ''tenant-'' @ uid_of t else ''shared-services'')"
  obtains i creds w1 w2 w3 w4 w5 where "is_instance_id i" and "name = instance_name i"
    and "only_adds (view w) (view w1)"
    and "cl_secrets (view w1) = cl_secrets (view w)" and "cl_jobs (view w1) = cl_jobs (view w)"
    and "DedicatedInstance (Database (Spec t)) \<Longrightarrow> cl_config_maps (view w1) (n, ''postgresql-config'') \<noteq> None"
    and "createPostgreSQLSecret rt n w1 = (Ok (master_secret_name i), w2)"
    and "createPostgreSQLStatefulSet rt t n (master_secret_name i) w2 = (Ok name, w3)"
    and "createPostgreSQLService rt t n name w3 = (Ok name, w4)"
    and "createTenantPostgreSQLSecret rt t name n w4 = (Ok creds, w5)"
    and "createDatabaseInitJob rt t (master_secret_name i) n creds w5 = (Ok (), w')"
proof -
  obtain w1 w2 w3 w4 w5 u secretName serviceName creds v
    where copy: "(if DedicatedInstance (Database (Spec t))
           then wrapping ''failed to copy PostgreSQL ConfigMap to tenant namespace''
                  (copyPostgreSQLConfigMapToNamespace rt n)
           else ret ()) w = (Ok u, w1)"
      and secret: "createPostgreSQLSecret rt n w1 = (Ok secretName, w2)"
      and set: "createPostgreSQLStatefulSet rt t n secretName w2 = (Ok name, w3)"
      and service: "createPostgreSQLService rt t n name w3 = (Ok serviceName, w4)"
      and creds: "createTenantPostgreSQLSecret rt t serviceName n w4 = (Ok creds, w5)"
      and job: "createDatabaseInitJob rt t secretName n creds w5 = (Ok v, w')"
    using run unfolding createPostgreSQLInstance_def Let_def n_def [symmetric]
    by (elim and_then_Ok ret_Ok) (hypsubst, rule that)
  obtain i where i: "is_instance_id i" "secretName = master_secret_name i"
    using master_secret_Ok [OF secret] by blast
  then have name: "name = instance_name i"
    using stateful_set_Ok [OF set] by (simp add: is_instance_id_def)
  then have "serviceName = name"
    using service_Ok [OF service] i by (simp add: is_instance_id_def)
  with i name copy_if_Ok [OF copy] secret set service creds job show ?thesis
    by (intro that [of i w1 w2 w3 w4 creds w5]) simp_all
qed

end

lemma only_adds_trans: "\<lbrakk>only_adds a b; only_adds b c\<rbrakk> \<Longrightarrow> only_adds a c"
  using only_adds_preorder unfolding preorder_rel_def by (meson transpD)

lemma only_adds_present:
  "\<lbrakk>only_adds v v'; cl_secrets v k \<noteq> None\<rbrakk> \<Longrightarrow> cl_secrets v' k \<noteq> None"
  "\<lbrakk>only_adds v v'; cl_stateful_sets v k \<noteq> None\<rbrakk> \<Longrightarrow> cl_stateful_sets v' k \<noteq> None"
  "\<lbrakk>only_adds v v'; cl_services v k \<noteq> None\<rbrakk> \<Longrightarrow> cl_services v' k \<noteq> None"
  "\<lbrakk>only_adds v v'; cl_config_maps v k \<noteq> None\<rbrakk> \<Longrightarrow> cl_config_maps v' k \<noteq> None"
  by (drule (1) only_adds_kept, simp | (auto, drule (1) only_adds_kept, simp))+

context cluster_client
begin

lemma instance_objects:
  assumes run: "createPostgreSQLInstance rt t w = (Ok name, w')"
  defines "n \<equiv> (if DedicatedInstance (Database (Spec t)) then ''tenant-'' @ uid_of t else ''shared-services'')"
  shows "\<exists>i. is_instance_id i \<and> name = instance_name i \<and>
    cl_secrets (view w') (n, master_secret_name i) \<noteq> None \<and>
    cl_stateful_sets (view w') (n, name) \<noteq> None \<and> cl_services (view w') (n, name) \<noteq> None \<and>
    cl_jobs (view w') (n, ''db-init-'' @ take 8 (uid_of t)) \<noteq> None \<and>
    cl_secrets (view w') (''tenant-'' @ uid_of t, ''database-secret'') \<noteq> None"
proof (rule instance_Ok [OF run, folded n_def])
  fix i creds w1 w2 w3 w4 w5
  assume i: "is_instance_id i" and name: "name = instance_name i"
    and secret: "createPostgreSQLSecret rt n w1 = (Ok (master_secret_name i), w2)"
    and set: "createPostgreSQLStatefulSet rt t n (master_secret_name i) w2 = (Ok name, w3)"
    and service: "createPostgreSQLService rt t n name w3 = (Ok name, w4)"
    and creds: "createTenantPostgreSQLSecret rt t name n w4 = (Ok creds, w5)"
    and job: "createDatabaseInitJob rt t (master_secret_name i) n creds w5 = (Ok (), w')"
  have six: "length i = 6" using i by (simp add: is_instance_id_def)
  note add3 = vsteps_run [OF instance_adds(3) set] and add4 = vsteps_run [OF instance_adds(4) service]
    and add5 = vsteps_run [OF instance_adds(5) creds] and add6 = vsteps_run [OF instance_adds(6) job]
  have "cl_secrets (view w2) (n, master_secret_name i) \<noteq> None"
    using master_secret_Ok [OF secret] by auto
  then have "cl_secrets (view w') (n, master_secret_name i) \<noteq> None"
    by (intro only_adds_present(1) [OF add6] only_adds_present(1) [OF add5]
        only_adds_present(1) [OF add4] only_adds_present(1) [OF add3])
  moreover have "cl_stateful_sets (view w3) (n, name) \<noteq> None"
    using pg_set.provided [OF set] six by (simp add: name)
  then have "cl_stateful_sets (view w') (n, name) \<noteq> None"
    by (intro only_adds_present(2) [OF add6] only_adds_present(2) [OF add5] only_adds_present(2) [OF add4])
  moreover have "cl_services (view w4) (n, name) \<noteq> None"
    using pg_service.ensured [OF service] six by (simp add: name)
  then have "cl_services (view w') (n, name) \<noteq> None"
    by (intro only_adds_present(3) [OF add6] only_adds_present(3) [OF add5])
  moreover have "cl_secrets (view w') (''tenant-'' @ uid_of t, ''database-secret'') \<noteq> None"
    by (intro only_adds_present(1) [OF add6] pg_secret.provided [OF creds])
  moreover note pg_job.provided [OF job]
  ultimately show ?thesis using i name by blast
qed

lemma instance_connection:
  assumes run: "createPostgreSQLInstance rt t w = (Ok name, w')"
    and fresh: "cl_secrets (view w) (''tenant-'' @ uid_of t, ''database-secret'') = None"
  defines "n \<equiv> (if DedicatedInstance (Database (Spec t)) then ''tenant-'' @ uid_of t else ''shared-services'')"
  assumes no_job: "cl_jobs (view w) (n, ''db-init-'' @ take 8 (uid_of t)) = None"
  shows "\<exists>secret job. cl_secrets (view w') (''tenant-'' @ uid_of t, ''database-secret'') = Some secret \<and>
    fresh_credentials t name n (secret_credentials secret) \<and>
    cl_jobs (view w') (n, ''db-init-'' @ take 8 (uid_of t)) = Some job \<and>
    gm_lookup (labels_of job) ss_name_label = Some name"
proof (rule instance_Ok [OF run, folded n_def])
  fix i creds w1 w2 w3 w4 w5
  assume i: "is_instance_id i" and name: "name = instance_name i"
    and secret: "createPostgreSQLSecret rt n w1 = (Ok (master_secret_name i), w2)"
    and set: "createPostgreSQLStatefulSet rt t n (master_secret_name i) w2 = (Ok name, w3)"
    and service: "createPostgreSQLService rt t n name w3 = (Ok name, w4)"
    and creds: "createTenantPostgreSQLSecret rt t name n w4 = (Ok creds, w5)"
    and job: "createDatabaseInitJob rt t (master_secret_name i) n creds w5 = (Ok (), w')"
    and w1: "cl_secrets (view w1) = cl_secrets (view w)" "cl_jobs (view w1) = cl_jobs (view w)"
  let ?k = "(''tenant-'' @ uid_of t, ''database-secret'')"
  have six: "length i = 6" using i by (simp add: is_instance_id_def)
  have no_dot: "CHR ''.'' \<notin> set name" using instance_id_no_dot [OF i] by (simp add: name)
  have "?k \<noteq> (n, master_secret_name i)" by (simp add: master_secret_name_def)
  then have w2: "cl_secrets (view w2) ?k = None" "cl_jobs (view w2) = cl_jobs (view w)"
    using master_secret_Ok [OF secret] fresh w1 by auto
  have w3: "cl_secrets (view w3) = cl_secrets (view w2)" "cl_jobs (view w3) = cl_jobs (view w2)"
    using stateful_set_Ok [OF set] by auto
  have w4: "cl_secrets (view w4) = cl_secrets (view w3)" "cl_jobs (view w4) = cl_jobs (view w3)"
    using service_Ok [OF service] by auto
  have "cl_secrets (view w4) ?k = None" using w2 w3 w4 by simp
  then obtain s where s: "cl_secrets (view w5) ?k = Some s" "secret_credentials s = creds"
    and fresh_creds: "fresh_credentials t name n creds" and w5: "cl_jobs (view w5) = cl_jobs (view w4)"
    using tenant_secret_Ok [OF creds] by auto
  have host: "hd (strings_Split CHR ''.'' (CredHost creds)) = name"
    using fresh_creds host_instance [OF no_dot] by (simp add: fresh_credentials_def)
  have "cl_jobs (view w5) (n, ''db-init-'' @ take 8 (uid_of t)) = None"
    using no_job w2(2) w3(2) w4(2) w5 by simp
  from pg_job.provided_fresh [OF job this] host
  have "\<exists>j. cl_jobs (view w') (n, ''db-init-'' @ take 8 (uid_of t)) = Some j \<and>
      gm_lookup (labels_of j) ss_name_label = Some name" by auto
  moreover have "cl_secrets (view w') ?k = Some s"
    by (rule only_adds_kept(1) [OF vsteps_run [OF instance_adds(6) job] s(1)])
  ultimately show ?thesis using s(2) fresh_creds by blast
qed

end

section \<open>Properties\<close>

text \<open>C29: when \<open>createPostgreSQLInstance\<close> succeeds, an instance is complete: for one fresh-format
  identifier the master secret, the stateful set and the service exist in the target namespace
  under the names built from it, the init job of the tenant exists there, and the tenant's
  \<open>database-secret\<close> exists in the tenant's namespace.\<close>

theorem instance_complete:
  assumes "cluster_client rt view" and "createPostgreSQLInstance rt t w = (Ok name, w')"
  shows "let n = (if DedicatedInstance (Database (Spec t)) then ''tenant-'' @ uid_of t else ''shared-services'') in
    \<exists>i. is_instance_id i \<and> name = instance_name i \<and>
      cl_secrets (view w') (n, master_secret_name i) \<noteq> None \<and>
      cl_stateful_sets (view w') (n, name) \<noteq> None \<and> cl_services (view w') (n, name) \<noteq> None \<and>
      cl_jobs (view w') (n, ''db-init-'' @ take 8 (uid_of t)) \<noteq> None \<and>
      cl_secrets (view w') (''tenant-'' @ uid_of t, ''database-secret'') \<noteq> None"
  unfolding Let_def using cluster_client.instance_objects [OF assms] .

text \<open>C30: for a tenant that has neither credentials nor an init job yet, the stored credentials point
  to the new instance, name the tenant's own database and user and carry a 24-character password,
  and the init job is labelled with the instance's stateful set.\<close>

theorem instance_connects_tenant:
  assumes "cluster_client rt view" and "createPostgreSQLInstance rt t w = (Ok name, w')"
    and "n = (if DedicatedInstance (Database (Spec t)) then ''tenant-'' @ uid_of t else ''shared-services'')"
    and "cl_secrets (view w) (''tenant-'' @ uid_of t, ''database-secret'') = None"
    and "cl_jobs (view w) (n, ''db-init-'' @ take 8 (uid_of t)) = None"
  shows "\<exists>secret job. cl_secrets (view w') (''tenant-'' @ uid_of t, ''database-secret'') = Some secret \<and>
    fresh_credentials t name n (secret_credentials secret) \<and>
    cl_jobs (view w') (n, ''db-init-'' @ take 8 (uid_of t)) = Some job \<and>
    gm_lookup (labels_of job) ss_name_label = Some name"
  unfolding assms(3)
  by (rule cluster_client.instance_connection [OF assms(1,2,4) assms(5) [unfolded assms(3)]])

text \<open>Setting up an instance never changes or removes what is already stored, whether it
  succeeds, fails half-way or panics.\<close>

theorem instance_only_adds:
  assumes "cluster_client rt view" and "createPostgreSQLInstance rt t w = (r, w')"
  shows "only_adds (view w) (view w')"
  by (rule vsteps_run [OF cluster_client.createPostgreSQLInstance_adds [OF assms(1)] assms(2)])

text \<open>The credentials \<open>createTenantPostgreSQLSecret\<close> returns are the ones stored in the tenant's
  secret: those of an existing secret, which stays as it is, or freshly generated ones.\<close>

theorem tenant_secret_returned:
  assumes "cluster_client rt view" and "createTenantPostgreSQLSecret rt t s n w = (Ok creds, w')"
  shows "\<exists>secret. cl_secrets (view w') (''tenant-'' @ uid_of t, ''database-secret'') = Some secret \<and>
    secret_credentials secret = creds \<and>
    (if cl_secrets (view w) (''tenant-'' @ uid_of t, ''database-secret'') = None
     then fresh_credentials t s n creds else view w' = view w)"
  using cluster_client.tenant_secret_Ok [OF assms] by (auto simp del: append_Cons)

section \<open>Witnesses\<close>

lemma sample_instance:
  "createPostgreSQLInstance mem_runtime (sample_tenant False) empty_world =
    (Ok ''postgresql-hknqtw'', snd (createPostgreSQLInstance mem_runtime (sample_tenant False) empty_world))"
  by (rule evaluated) code_simp

theorem instance_complete_witness:
  "\<exists>i. is_instance_id i \<and> ''postgresql-hknqtw'' = instance_name i \<and>
    cl_secrets (mem_view (snd (createPostgreSQLInstance mem_runtime (sample_tenant False) empty_world)))
      (''shared-services'', master_secret_name i) \<noteq> None"
  using instance_complete [OF mem_client sample_instance] unfolding Let_def by auto

theorem instance_connects_tenant_witness:
  "\<exists>secret. cl_secrets (mem_view (snd (createPostgreSQLInstance mem_runtime (sample_tenant False) empty_world)))
      (''tenant-'' @ uid_of (sample_tenant False), ''database-secret'') = Some secret \<and>
    fresh_credentials (sample_tenant False) ''postgresql-hknqtw'' ''shared-services'' (secret_credentials secret)"
proof -
  have "cl_secrets (mem_view empty_world) k = None" "cl_jobs (mem_view empty_world) k = None" for k
    by (simp_all add: mem_view_def empty_world_def stored_def)
  from instance_connects_tenant [OF mem_client sample_instance, of "''shared-services''", OF _ this]
  show ?thesis by auto
qed

theorem instance_only_adds_witness:
  "only_adds (mem_view empty_world)
    (mem_view (snd (createPostgreSQLInstance mem_runtime (sample_tenant False) empty_world)))"
  by (rule instance_only_adds [OF mem_client sample_instance])

theorem tenant_secret_returned_witness:
  "\<exists>creds secret. createTenantPostgreSQLSecret mem_runtime (sample_tenant True) ''postgresql-abcdef'' ''shared-services'' empty_world =
      (Ok creds, snd (createTenantPostgreSQLSecret mem_runtime (sample_tenant True) ''postgresql-abcdef'' ''shared-services'' empty_world)) \<and>
    cl_secrets (mem_view (snd (createTenantPostgreSQLSecret mem_runtime (sample_tenant True) ''postgresql-abcdef'' ''shared-services'' empty_world)))
      (''tenant-'' @ uid_of (sample_tenant True), ''database-secret'') = Some secret \<and>
    secret_credentials secret = creds"
proof -
  let ?run = "createTenantPostgreSQLSecret mem_runtime (sample_tenant True) ''postgresql-abcdef'' ''shared-services'' empty_world"
  have "\<not> (case fst ?run of Ok _ \<Rightarrow> False | _ \<Rightarrow> True)" by code_simp
  then obtain creds where "?run = (Ok creds, snd ?run)"
    by (cases ?run) (auto split: result.splits)
  from this tenant_secret_returned [OF mem_client this] show ?thesis by auto
qed

end
