(* ===== verification/PgShared.thy ===== *)
theory PgShared
  imports PgInstance
begin

text \<open>
  The shared PostgreSQL instances (\<open>internal/controller/utils_postgres.go\<close>): the list of tenants
  kept in an annotation of the stateful set and its length kept in a label, the search for an
  instance with room, the registration and the removal of a tenant, and the cleanup of an instance
  that lost its last tenant.
\<close>

section \<open>The tenant list\<close>

text \<open>Reading the annotation: the empty string stands for the empty list.\<close>

definition parse_tenant_list :: "string \<Rightarrow> string list" where
  "parse_tenant_list s = (if s \<noteq> '''' then strings_Split CHR '','' s else [])"

definition tenant_list_of :: "'q stateful_set \<Rightarrow> string list" where
  "tenant_list_of statefulSet =
     parse_tenant_list (case gm_lookup (annotations_of statefulSet) ''tenant.core.mellifluus.io/tenant-list'' of
       None \<Rightarrow> '''' | Some s \<Rightarrow> s)"

text \<open>Writing a list and its length; both maps are made when \<open>nil\<close>.\<close>

definition store_tenant_list :: "string list \<Rightarrow> 'q stateful_set \<Rightarrow> 'q stateful_set" where
  "store_tenant_list tenantList statefulSet =
     statefulSet\<lparr>ObjectMeta := (ObjectMeta statefulSet)\<lparr>
       MetaAnnotations := Some (AList.update ''tenant.core.mellifluus.io/tenant-list''
         (strings_Join tenantList CHR '','') (gm_entries (annotations_of statefulSet))),
       MetaLabels := Some (AList.update SharedInstanceTenantCountLabel
         (strconv_Itoa (int (length tenantList))) (gm_entries (labels_of statefulSet)))\<rparr>\<rparr>"

section \<open>Finding an instance with room\<close>

definition shared_selector :: "(string \<times> string) list" where
  "shared_selector = [(''tenant.core.mellifluus.io/shared-instance'', ''true'')]"

definition tenant_count_text :: "'q stateful_set \<Rightarrow> string" where
  "tenant_count_text ss =
     (case gm_lookup (labels_of ss) SharedInstanceTenantCountLabel of None \<Rightarrow> ''0'' | Some s \<Rightarrow> s)"

definition tenant_count_of :: "'q stateful_set \<Rightarrow> int option" where
  "tenant_count_of ss = strconv_Atoi (tenant_count_text ss)"

fun first_available :: "'q stateful_set list \<Rightarrow> string option" where
  "first_available [] = None"
| "first_available (ss # rest) =
     (case tenant_count_of ss of
        None \<Rightarrow> first_available rest
      | Some tenantCount \<Rightarrow>
          if tenantCount < MaxTenantsPerSharedInstance then Some (name_of ss) else first_available rest)"

definition findAvailableSharedInstance :: "('w, 'q) runtime \<Rightarrow> ('w, string) prog" where
  "findAvailableSharedInstance rt =
     and_then (ApiList (StatefulSets rt) ''shared-services'' shared_selector) (\<lambda>items.
       case first_available items of
         Some n \<Rightarrow> ret n
       | None \<Rightarrow> fail (ErrorString ''no available shared PostgreSQL instances found''))"

section \<open>Registering a tenant\<close>

text \<open>The function \<open>RetryOnConflict\<close> runs: one attempt to add the tenant.\<close>

definition add_attempt :: "('w, 'q) runtime \<Rightarrow> string \<Rightarrow> string \<Rightarrow> ('w, unit) prog" where
  "add_attempt rt tenantUID instanceName =
     and_then (ApiGet (StatefulSets rt) ''shared-services'' instanceName) (\<lambda>statefulSet.
       let tenantList = tenant_list_of statefulSet in
       if tenantUID \<in> set tenantList then ret ()
       else and_then (ApiUpdate (StatefulSets rt) (store_tenant_list (tenantList @ [tenantUID]) statefulSet))
              (\<lambda>_. ret ()))"

definition addTenantToSharedInstance ::
  "('w, 'q) runtime \<Rightarrow> 'q tenant_environment \<Rightarrow> string \<Rightarrow> ('w, unit) prog" where
  "addTenantToSharedInstance rt tenantEnv instanceName =
     and_then (RetryOnConflict rt (add_attempt rt (uid_of tenantEnv) instanceName)) (\<lambda>_. ret ())"

section \<open>The claims of an instance\<close>

definition claim_of_template :: "string \<Rightarrow> string \<Rightarrow> string \<Rightarrow> bool" where
  "claim_of_template ssName templateName claimName =
     (let expectedPrefix = templateName @ ''-'' @ ssName @ ''-'' in
      strings_HasPrefix claimName expectedPrefix \<and>
      strconv_Atoi (strings_TrimPrefix claimName expectedPrefix) \<noteq> None)"

definition getPostgreSQLPVCsByLabels ::
  "('w, 'q) runtime \<Rightarrow> 'q stateful_set \<Rightarrow> ('w, 'q persistent_volume_claim list) prog" where
  "getPostgreSQLPVCsByLabels rt statefulSet =
     and_then (wrapping ''failed to list PVCs'' (ApiList (Claims rt) (namespace_of statefulSet) []))
       (\<lambda>items. ret (filter (\<lambda>pvc. list_ex
          (\<lambda>vct. claim_of_template (name_of statefulSet) (name_of vct) (name_of pvc))
          (VolumeClaimTemplates statefulSet)) items))"

section \<open>Cleaning up an instance\<close>

text \<open>\<open>delErr != nil && !IsNotFound(delErr)\<close> adds an error to the list and the cleanup goes on.\<close>

definition deleting :: "string \<Rightarrow> ('w, unit) prog \<Rightarrow> ('w, go_error list) prog" where
  "deleting msg m = on_error m (\<lambda>delErr. if \<not> is_not_found delErr then ret [Wrapf msg delErr] else ret []) (\<lambda>_. ret [])"

fun delete_each :: "('x \<Rightarrow> ('w, go_error list) prog) \<Rightarrow> 'x list \<Rightarrow> ('w, go_error list) prog" where
  "delete_each f [] = ret []"
| "delete_each f (x # xs) = and_then (f x) (\<lambda>es. and_then (delete_each f xs) (\<lambda>es'. ret (es @ es')))"

definition cleanup_claims ::
  "('w, 'q) runtime \<Rightarrow> 'q stateful_set option \<Rightarrow> ('w, go_error list) prog" where
  "cleanup_claims rt found =
     (case found of
        None \<Rightarrow> ret []
      | Some statefulSet \<Rightarrow>
          on_error (getPostgreSQLPVCsByLabels rt statefulSet)
            (\<lambda>pvcErr. ret [Wrapf ''failed to get PVCs'' pvcErr])
            (delete_each (\<lambda>pvc. deleting (''failed to delete PVC '' @ name_of pvc) (ApiDelete (Claims rt) pvc None))))"

definition cleanup_stateful_set ::
  "('w, 'q) runtime \<Rightarrow> 'q stateful_set option \<Rightarrow> ('w, go_error list) prog" where
  "cleanup_stateful_set rt found =
     (case found of
        None \<Rightarrow> ret []
      | Some statefulSet \<Rightarrow>
          deleting ''failed to delete StatefulSet'' (ApiDelete (StatefulSets rt) statefulSet None))"

definition cleanup_service :: "('w, 'q) runtime \<Rightarrow> string \<Rightarrow> ('w, go_error list) prog" where
  "cleanup_service rt serviceName =
     on_error (ApiGet (Services rt) ''shared-services'' serviceName)
       (\<lambda>getErr. if \<not> is_not_found getErr then ret [Wrapf ''failed to get Service'' getErr] else ret [])
       (\<lambda>service. deleting ''failed to delete Service'' (ApiDelete (Services rt) service None))"

definition cleanup_master_secret :: "('w, 'q) runtime \<Rightarrow> string \<Rightarrow> ('w, go_error list) prog" where
  "cleanup_master_secret rt masterSecretName =
     on_error (ApiGet (Secrets rt) ''shared-services'' masterSecretName)
       (\<lambda>getErr. if \<not> is_not_found getErr then ret [Wrapf ''failed to get Secret'' getErr] else ret [])
       (\<lambda>secret. deleting ''failed to delete Secret'' (ApiDelete (Secrets rt) secret None))"

definition instance_job_selector :: "string \<Rightarrow> (string \<times> string) list" where
  "instance_job_selector statefulSetName = [
     (''tenant.core.mellifluus.io/managed-by'', ''tenant-operator''),
     (''tenant.core.mellifluus.io/ss-name'', statefulSetName)]"

definition cleanup_jobs :: "('w, 'q) runtime \<Rightarrow> string \<Rightarrow> ('w, go_error list) prog" where
  "cleanup_jobs rt statefulSetName =
     on_error (ApiList (Jobs rt) ''shared-services'' (instance_job_selector statefulSetName))
       (\<lambda>listErr. ret [Wrapf ''failed to list Jobs'' listErr])
       (delete_each (\<lambda>job. deleting (''failed to delete Job '' @ name_of job)
          (ApiDelete (Jobs rt) job (Some ''Background''))))"

definition cleanupSharedPostgreSQLInstance :: "('w, 'q) runtime \<Rightarrow> string \<Rightarrow> ('w, unit) prog" where
  "cleanupSharedPostgreSQLInstance rt statefulSetName =
     and_then
       (on_error (ApiGet (StatefulSets rt) ''shared-services'' statefulSetName)
          (\<lambda>err. if is_not_found err then ret None else fail (Wrapf ''failed to get StatefulSet'' err))
          (\<lambda>statefulSet. ret (Some statefulSet)))
       (\<lambda>found.
          if 11 < length statefulSetName \<and> strings_HasPrefix statefulSetName ''postgresql-''
          then let id = drop 11 statefulSetName in
            and_then (cleanup_claims rt found) (\<lambda>es1.
            and_then (cleanup_stateful_set rt found) (\<lambda>es2.
            and_then (cleanup_service rt (''postgresql-'' @ id)) (\<lambda>es3.
            and_then (cleanup_master_secret rt (''postgresql-master-secret-'' @ id)) (\<lambda>es4.
            and_then (cleanup_jobs rt statefulSetName) (\<lambda>es5.
              let cleanupErrors = es1 @ es2 @ es3 @ es4 @ es5 in
              if 0 < length cleanupErrors then fail (CleanupErrors cleanupErrors) else ret ())))))
          else fail (ErrorString (''invalid StatefulSet name format: '' @ statefulSetName)))"

section \<open>Removing a tenant\<close>

definition remove_script_lines :: "string \<Rightarrow> string \<Rightarrow> string \<Rightarrow> string list" where
  \<open>remove_script_lines hostname username database = [
     ''#!/bin/bash'',
     ''        set -e'',
     '''',
     ''        DB_HOST="'' @ hostname @ ''"'',
     ''        TENANT_USERNAME="'' @ username @ ''"'',
     ''        DATABASE_NAME="'' @ database @ ''"'',
     '''',
     ''        echo "Waiting for PostgreSQL to be ready..."'',
     ''        until pg_isready -h $DB_HOST -p 5432 -U postgres; do'',
     ''          echo "PostgreSQL is unavailable - sleeping"'',
     ''          sleep 2'',
     ''        done'',
     '''',
     ''        echo "PostgreSQL is ready - deleting database and user..."'',
     '''',
     ''        # Drop the database if it exists'',
     escaped ''        PGPASSWORD="$POSTGRES_PASSWORD" psql -h $DB_HOST -p 5432 -U postgres -tc "SELECT 1 FROM pg_database WHERE datname = '$DATABASE_NAME'" | grep -q 1 && PGPASSWORD="$POSTGRES_PASSWORD" psql -h $DB_HOST -p 5432 -U postgres -c "DROP DATABASE IF EXISTS ~"$DATABASE_NAME~";"'',
     ''        # Drop the user if it exists'',
     escaped ''        PGPASSWORD="$POSTGRES_PASSWORD" psql -h $DB_HOST -p 5432 -U postgres -tc "SELECT 1 FROM pg_roles WHERE rolname='$TENANT_USERNAME'" | grep -q 1 && PGPASSWORD="$POSTGRES_PASSWORD" psql -h $DB_HOST -p 5432 -U postgres -c "DROP USER IF EXISTS ~"$TENANT_USERNAME~";"'',
     '''',
     ''        echo "Database removal completed successfully!"'',
     ''      '']\<close>

definition remove_job_literal ::
  "('w, 'q) runtime \<Rightarrow> string \<Rightarrow> string \<Rightarrow> string \<Rightarrow> ('w, 'q job) prog" where
  "remove_job_literal rt tenantUID jobName ssName =
     and_then (slice_last ssName 6) (\<lambda>id.
     and_then (slice_to tenantUID 8) (\<lambda>short.
       let masterSecretName = ''postgresql-master-secret-'' @ id;
           hostname = ssName @ ''.'' @ ''shared-services'' @ ''.svc.cluster.local'';
           tenantUsername = ''tenant_'' @ short;
           tenantDatabase = ''tenant_'' @ short
       in job_quantities rt (db_job jobName ''shared-services'' tenantUID ssName ''db-remove''
            (script_of_lines (remove_script_lines hostname tenantUsername tenantDatabase))
            [master_password_env masterSecretName])))"

text \<open>The part after the list was updated, while other tenants remain.\<close>

definition createRemovalJob :: "('w, 'q) runtime \<Rightarrow> string \<Rightarrow> string \<Rightarrow> ('w, unit) prog" where
  "createRemovalJob rt tenantUID ssName =
     and_then (slice_to tenantUID 8) (\<lambda>short.
       let jobName = ''db-remove-'' @ short in
       on_error (ApiGet (Jobs rt) ''shared-services'' jobName)
         (\<lambda>err. if is_not_found err
                then and_then (remove_job_literal rt tenantUID jobName ssName) (\<lambda>job.
                     and_then (wrapping ''failed to create database removal job'' (ApiCreate (Jobs rt) job))
                       (\<lambda>_. ret ()))
                else fail err)
         (\<lambda>job. if job_completed job then ret () else ret ()))"

text \<open>The loop over the instances stops at the first one that lists the tenant.\<close>

fun remove_from_first :: "('w, 'q) runtime \<Rightarrow> string \<Rightarrow> 'q stateful_set list \<Rightarrow> ('w, unit) prog" where
  "remove_from_first rt tenantUID [] = ret ()"
| "remove_from_first rt tenantUID (ss # rest) =
     (let tenantList = tenant_list_of ss;
          tenantFound = (tenantUID \<in> set tenantList);
          newTenantList = filter (\<lambda>existingTenant. existingTenant \<noteq> tenantUID) tenantList
      in if tenantFound
         then and_then (ApiUpdate (StatefulSets rt) (store_tenant_list newTenantList ss)) (\<lambda>ss.
                if length newTenantList = 0
                then and_then (ignoring (cleanupSharedPostgreSQLInstance rt (name_of ss))) (\<lambda>_. ret ())
                else createRemovalJob rt tenantUID (name_of ss))
         else remove_from_first rt tenantUID rest)"

definition removeTenantFromSharedInstance :: "('w, 'q) runtime \<Rightarrow> string \<Rightarrow> ('w, unit) prog" where
  "removeTenantFromSharedInstance rt tenantUID =
     and_then (ApiList (StatefulSets rt) ''shared-services'' shared_selector)
       (remove_from_first rt tenantUID)"

section \<open>Tenant lists as text\<close>

text \<open>
  A list stored as text is read back unchanged when its members are \<open>valid\<close>; the registry of an
  instance rests on this and on the length being readable.
\<close>

locale list_codec =
  fixes encode :: "'a list \<Rightarrow> string"
    and decode :: "string \<Rightarrow> 'a list"
    and valid :: "'a \<Rightarrow> bool"
  assumes decode_encode: "list_all valid xs \<Longrightarrow> decode (encode xs) = xs"
begin

lemma encode_inject: "\<lbrakk>list_all valid xs; list_all valid ys; encode xs = encode ys\<rbrakk> \<Longrightarrow> xs = ys"
  by (metis decode_encode)

end

text \<open>A tenant identifier is not empty and has no comma; Kubernetes identifiers are UUIDs.\<close>

definition valid_uid :: "string \<Rightarrow> bool" where
  "valid_uid u \<longleftrightarrow> u \<noteq> '''' \<and> CHR '','' \<notin> set u"

interpretation uid_list: list_codec "\<lambda>us. strings_Join us CHR '',''" parse_tenant_list valid_uid
proof
  fix us :: "string list"
  assume valid: "list_all valid_uid us"
  show "parse_tenant_list (strings_Join us CHR '','') = us"
  proof (cases "us = []")
    case True
    then show ?thesis by (simp add: parse_tenant_list_def)
  next
    case False
    moreover have "us \<noteq> [[]]" using valid by (auto simp: valid_uid_def)
    moreover have "\<forall>u \<in> set us. CHR '','' \<notin> set u"
      using valid by (auto simp: list_all_iff valid_uid_def)
    ultimately show ?thesis by (simp add: parse_tenant_list_def Join_eq_Nil Split_Join)
  qed
qed

section \<open>The registry of an instance\<close>

text \<open>
  The tenants an instance serves, as a contract between the operations that store a list and the
  ones that read it or its length. \<open>consistent\<close> is the invariant: no tenant twice, and the stored
  count is the length of the list.
\<close>

locale tenant_registry =
  fixes members :: "'r \<Rightarrow> string list"
    and count :: "'r \<Rightarrow> string"
    and store :: "string list \<Rightarrow> 'r \<Rightarrow> 'r"
    and valid :: "string \<Rightarrow> bool"
    and consistent :: "'r \<Rightarrow> bool"
  assumes members_store: "list_all valid us \<Longrightarrow> members (store us r) = us"
    and count_store: "count (store us r) = strconv_Itoa (int (length us))"
    and consistent_iff: "consistent r \<longleftrightarrow>
          distinct (members r) \<and> list_all valid (members r) \<and> count r = strconv_Itoa (int (length (members r)))"
begin

lemma consistent_store: "\<lbrakk>distinct us; list_all valid us\<rbrakk> \<Longrightarrow> consistent (store us r)"
  by (simp add: consistent_iff members_store count_store)

lemma enrol:
  assumes "consistent r" and "valid u" and "u \<notin> set (members r)"
  shows "consistent (store (members r @ [u]) r)" and "members (store (members r @ [u]) r) = members r @ [u]"
  using assms by (auto simp: consistent_iff members_store count_store)

lemma expel:
  assumes "consistent r"
  shows "consistent (store (filter (\<lambda>x. x \<noteq> u) (members r)) r)"
    and "members (store (filter (\<lambda>x. x \<noteq> u) (members r)) r) = filter (\<lambda>x. x \<noteq> u) (members r)"
proof -
  let ?us = "filter (\<lambda>x. x \<noteq> u) (members r)"
  have "distinct ?us" "list_all valid ?us" using assms by (auto simp: consistent_iff list_all_iff)
  then show "consistent (store ?us r)" "members (store ?us r) = ?us"
    by (simp_all add: consistent_store members_store)
qed

lemma expel_enrolled:
  assumes "consistent r" and "valid u" and "u \<notin> set (members r)"
  shows "members (store (filter (\<lambda>x. x \<noteq> u) (members (store (members r @ [u]) r))) (store (members r @ [u]) r)) =
    members r"
proof -
  have "members (store (members r @ [u]) r) = members r @ [u]" using assms by (rule enrol(2))
  moreover have "filter (\<lambda>x. x \<noteq> u) (members r @ [u]) = members r"
    using assms(3) by (auto simp: filter_id_conv)
  moreover have "list_all valid (members r)" using assms(1) by (simp add: consistent_iff)
  ultimately show ?thesis by (simp add: members_store)
qed

lemma count_reading:
  "consistent r \<Longrightarrow> strconv_Atoi (count r) =
    (if int (length (members r)) < 2 ^ 63 then Some (int (length (members r))) else None)"
  by (simp add: consistent_iff Atoi_Itoa_nat)

lemma count_readable:
  "\<lbrakk>consistent r; int (length (members r)) < 2 ^ 63\<rbrakk> \<Longrightarrow> strconv_Atoi (count r) = Some (int (length (members r)))"
  by (simp add: count_reading)

end

lemma store_tenant_list_simps [simp]:
  "gm_lookup (annotations_of (store_tenant_list us ss)) tenant_list_annotation = Some (strings_Join us CHR '','')"
  "gm_lookup (labels_of (store_tenant_list us ss)) SharedInstanceTenantCountLabel = Some (strconv_Itoa (int (length us)))"
  "k \<noteq> SharedInstanceTenantCountLabel \<Longrightarrow> gm_lookup (labels_of (store_tenant_list us ss)) k = gm_lookup (labels_of ss) k"
  "key_of (store_tenant_list us ss) = key_of ss"
  "name_of (store_tenant_list us ss) = name_of ss"
  "uid_of (store_tenant_list us ss) = uid_of ss"
  by (simp_all add: store_tenant_list_def update_conv' key_of_def gm_lookup_def)

definition registry_consistent :: "'q stateful_set \<Rightarrow> bool" where
  "registry_consistent ss \<longleftrightarrow> distinct (tenant_list_of ss) \<and> list_all valid_uid (tenant_list_of ss) \<and>
     tenant_count_text ss = strconv_Itoa (int (length (tenant_list_of ss)))"

interpretation registry: tenant_registry tenant_list_of tenant_count_text store_tenant_list valid_uid registry_consistent
proof
  show "list_all valid_uid us \<Longrightarrow> tenant_list_of (store_tenant_list us r) = us" for us and r :: "'q stateful_set"
    by (simp add: tenant_list_of_def uid_list.decode_encode)
  show "tenant_count_text (store_tenant_list us r) = strconv_Itoa (int (length us))"
    for us and r :: "'q stateful_set"
    by (simp add: tenant_count_text_def)
qed (rule registry_consistent_def)

text \<open>The server's fields and a pending deletion do not matter to it, and a new instance has an empty one.\<close>

lemma registry_server [simp]:
  "tenant_list_of (with_server_fields a b ss) = tenant_list_of ss"
  "tenant_count_text (with_server_fields a b ss) = tenant_count_text ss"
  "registry_consistent (with_server_fields a b ss) = registry_consistent ss"
  "tenant_list_of (terminating x b ss) = tenant_list_of ss"
  "registry_consistent (terminating x b ss) = registry_consistent ss"
  by (simp_all add: tenant_list_of_def tenant_count_text_def registry_consistent_def)

lemma registry_fresh [simp]:
  "tenant_list_of (postgres_stateful_set t ns n s q c) = []"
  "registry_consistent (postgres_stateful_set t ns n s q c)"
proof -
  show "tenant_list_of (postgres_stateful_set t ns n s q c) = []"
    by (simp add: tenant_list_of_def parse_tenant_list_def postgres_stateful_set_def)
  then show "registry_consistent (postgres_stateful_set t ns n s q c)"
    by (simp add: registry_consistent_def tenant_count_text_def shared_label(2))
qed

section \<open>Searching and registering\<close>

lemma first_available_Some:
  "first_available xs = Some n \<Longrightarrow>
    \<exists>ss \<in> set xs. name_of ss = n \<and> (\<exists>c. tenant_count_of ss = Some c \<and> c < MaxTenantsPerSharedInstance)"
  by (induction xs) (auto split: option.splits if_splits)

lemma first_available_None:
  "first_available xs = None \<Longrightarrow> ss \<in> set xs \<Longrightarrow> tenant_count_of ss = Some c \<Longrightarrow> MaxTenantsPerSharedInstance \<le> c"
  by (induction xs) (auto split: option.splits if_splits)

text \<open>The shared instances of a cluster, by name.\<close>

definition shared_instance :: "'q cluster \<Rightarrow> string \<Rightarrow> 'q stateful_set option" where
  "shared_instance v n =
     (case cl_stateful_sets v (''shared-services'', n) of
        None \<Rightarrow> None
      | Some ss \<Rightarrow> if matches_labels shared_selector ss then Some ss else None)"

lemma shared_instance_Some:
  "shared_instance v n = Some ss \<longleftrightarrow>
     cl_stateful_sets v (''shared-services'', n) = Some ss \<and>
     gm_lookup (labels_of ss) shared_instance_label = Some ''true''"
  by (auto simp: shared_instance_def matches_labels_def shared_selector_def split: option.splits)

context cluster_client
begin

lemma listed_instances:
  assumes "ApiList (StatefulSets rt) ''shared-services'' shared_selector w = (Ok xs, w')"
  shows "view w' = view w" and "ss \<in> set xs \<longleftrightarrow> shared_instance (view w) (name_of ss) = Some ss"
    and "distinct (map name_of xs)"
  using sts.list_found [OF assms] by (auto simp: shared_instance_def split: option.splits)

lemma find_Ok:
  assumes "findAvailableSharedInstance rt w = (Ok n, w')"
  shows "view w' = view w \<and> (\<exists>ss c. shared_instance (view w) n = Some ss \<and> tenant_count_of ss = Some c \<and> c < 10)"
proof -
  obtain xs w1 where list: "ApiList (StatefulSets rt) ''shared-services'' shared_selector w = (Ok xs, w1)"
    and "first_available xs = Some n" and "w' = w1"
    using assms unfolding findAvailableSharedInstance_def
    by (auto elim!: and_then_Ok split: option.splits)
  with listed_instances [OF list] first_available_Some [of xs n] show ?thesis
    by (auto simp: MaxTenantsPerSharedInstance_def)
qed

lemma find_Err:
  assumes "findAvailableSharedInstance rt w = (Err e, w')"
  shows "view w' = view w \<and>
    ((\<exists>w1. ApiList (StatefulSets rt) ''shared-services'' shared_selector w = (Err e, w1)) \<or>
     (\<forall>n ss c. shared_instance (view w) n = Some ss \<longrightarrow> tenant_count_of ss = Some c \<longrightarrow> 10 \<le> c))"
  using assms unfolding findAvailableSharedInstance_def
proof (cases rule: and_then_cases)
  case (ok xs w1)
  then have none: "first_available xs = None" and "w' = w1" by (auto split: option.splits)
  have "10 \<le> c" if "shared_instance (view w) n = Some ss" "tenant_count_of ss = Some c" for n ss c
  proof -
    have "name_of ss = n"
      using that(1) sts.keyed [of w "(''shared-services'', n)" ss] by (auto simp: shared_instance_Some key_of_def)
    then have "ss \<in> set xs" using listed_instances(2) [OF ok(1)] that(1) by simp
    then show ?thesis using first_available_None [OF none _ that(2)] by (simp add: MaxTenantsPerSharedInstance_def)
  qed
  with listed_instances(1) [OF ok(1)] \<open>w' = w1\<close> show ?thesis by blast
next
  case (err e')
  then show ?thesis using sts.list_view by auto
qed auto

lemma find_returns: "findAvailableSharedInstance rt w \<noteq> (Panic s, w')"
  unfolding findAvailableSharedInstance_def
  by (auto elim!: and_then_cases simp: sts.list_returns split: option.splits)

text \<open>The retries do not show: only the last attempt can have written.\<close>

lemma add_last_attempt:
  assumes "addTenantToSharedInstance rt t n w = (Ok (), w')"
  obtains w1 where "view w1 = view w" and "add_attempt rt (uid_of t) n w1 = (Ok (), w')"
proof -
  obtain u where "RetryOnConflict rt (add_attempt rt (uid_of t) n) w = (Ok u, w')"
    using assms unfolding addTenantToSharedInstance_def by (auto elim!: and_then_Ok)
  then have run: "attempts (add_attempt rt (uid_of t) n) w (Ok ()) w'"
    by (auto dest: retry_attempts)
  have quiet: "view w1 = view w" if "add_attempt rt (uid_of t) n w = (Err e, w1)" "is_conflict e" for w e w1
    using that unfolding add_attempt_def Let_def
    by (elim and_then_cases) (auto dest!: sts.get_view sts.update_failed split: if_splits elim!: and_then_cases)
  show ?thesis
    by (rule attempts_last [OF run preorder_frame [of view]]) (use quiet that in auto)
qed

lemma add_Ok:
  assumes "addTenantToSharedInstance rt t n w = (Ok (), w')"
  shows "\<exists>ss. cl_stateful_sets (view w) (''shared-services'', n) = Some ss \<and>
    (if uid_of t \<in> set (tenant_list_of ss) then view w' = view w
     else \<exists>v. view w' = cl_stateful_sets_update (\<lambda>m. m((''shared-services'', n) \<mapsto>
       with_server_fields (uid_of ss) v (store_tenant_list (tenant_list_of ss @ [uid_of t]) ss))) (view w))"
proof -
  obtain w1 where w1: "view w1 = view w" and run: "add_attempt rt (uid_of t) n w1 = (Ok (), w')"
    using assms by (rule add_last_attempt)
  obtain ss w2 where get: "ApiGet (StatefulSets rt) ''shared-services'' n w1 = (Ok ss, w2)"
    and rest: "(if uid_of t \<in> set (tenant_list_of ss) then ret ()
      else and_then (ApiUpdate (StatefulSets rt) (store_tenant_list (tenant_list_of ss @ [uid_of t]) ss))
        (\<lambda>_. ret ())) w2 = (Ok (), w')"
    using run unfolding add_attempt_def Let_def by (elim and_then_Ok) 
  from sts.get_found [OF get] w1
  have ss: "cl_stateful_sets (view w) (''shared-services'', n) = Some ss" and w2: "view w2 = view w" by auto
  with sts.keyed [of w _ ss] have key: "key_of ss = (''shared-services'', n)" by blast
  from rest w2 have "if uid_of t \<in> set (tenant_list_of ss) then view w' = view w
     else \<exists>v. view w' = cl_stateful_sets_update (\<lambda>m. m((''shared-services'', n) \<mapsto>
       with_server_fields (uid_of ss) v (store_tenant_list (tenant_list_of ss @ [uid_of t]) ss))) (view w)"
    by (auto elim!: and_then_Ok dest!: sts.update_ok simp: key) blast
  with ss show ?thesis by blast
qed

end

section \<open>Cleanup\<close>

lemma deleting_nil:
  "deleting msg m w = (Ok [], w') \<Longrightarrow>
    \<exists>r. m w = (r, w') \<and> (r = Ok () \<or> (\<exists>e. r = Err e \<and> is_not_found e))"
  unfolding deleting_def by (erule on_error_Ok) (auto split: if_splits)

lemma vsteps_delete_each:
  assumes "preorder_rel P" and "\<And>x. vsteps view P (f x)"
  shows "vsteps view P (delete_each f xs)"
proof (induction xs)
  case Nil
  show ?case unfolding delete_each.simps by (rule vsteps_control(1) [OF assms(1)])
next
  case (Cons x xs)
  show ?case unfolding delete_each.simps
    by (intro vsteps_control(1,7) [OF assms(1)] assms(2) Cons.IH)
qed

lemma delete_each_all:
  assumes "delete_each f xs w = (Ok [], w')" and "x \<in> set xs"
    and finished: "\<And>x w w'. f x w = (Ok [], w') \<Longrightarrow> Q x (view w) (view w')"
    and R: "preorder_rel R" and frame: "\<And>x. vsteps view R (f x)"
    and before: "\<And>x a b c. \<lbrakk>R a b; Q x b c\<rbrakk> \<Longrightarrow> Q x a c"
    and after: "\<And>x a b c. \<lbrakk>Q x a b; R b c\<rbrakk> \<Longrightarrow> Q x a c"
  shows "Q x (view w) (view w')"
  using assms(1,2)
proof (induction xs arbitrary: w)
  case (Cons y ys)
  from Cons.prems(1) obtain w1 where first: "f y w = (Ok [], w1)" and rest: "delete_each f ys w1 = (Ok [], w')"
    by (auto elim!: and_then_Ok)
  have frames: "vsteps view R (delete_each f ys)" for ys
    by (rule vsteps_delete_each [OF R frame])
  show ?case
  proof (cases "x = y")
    case True
    with finished [OF first] after vsteps_run [OF frames rest] show ?thesis by blast
  next
    case False
    with Cons.prems(2) have "Q x (view w1) (view w')" by (intro Cons.IH rest) simp
    with before vsteps_run [OF frame first] show ?thesis by blast
  qed
qed simp

context cluster_client
begin

lemma vsteps_deleting: "\<lbrakk>preorder_rel P; vsteps view P m\<rbrakk> \<Longrightarrow> vsteps view P (deleting msg m)"
  unfolding deleting_def by (intro vsteps_rules)

lemma cleanup_reaps:
  "vsteps view only_reaps (cleanup_claims rt found)"
  "vsteps view only_reaps (cleanup_stateful_set rt found)"
  "vsteps view only_reaps (cleanup_service rt s)"
  "vsteps view only_reaps (cleanup_master_secret rt s)"
  "vsteps view only_reaps (cleanup_jobs rt s)"
  unfolding cleanup_claims_def cleanup_stateful_set_def cleanup_service_def cleanup_master_secret_def
    cleanup_jobs_def getPostgreSQLPVCsByLabels_def
  by (intro reaps_rules vsteps_deleting vsteps_delete_each)+

lemma cleanupSharedPostgreSQLInstance_reaps: "vsteps view only_reaps (cleanupSharedPostgreSQLInstance rt n)"
  unfolding cleanupSharedPostgreSQLInstance_def Let_def by (intro reaps_rules cleanup_reaps)

lemma cleanup_stateful_set_gone:
  assumes "cleanup_stateful_set rt (Some ss) w = (Ok [], w')"
  shows "gone (cl_stateful_sets (view w)) (cl_stateful_sets (view w')) (key_of ss)"
  using assms unfolding cleanup_stateful_set_def by (auto dest!: deleting_nil dest: sts.delete_gone)

lemma cleanup_service_gone:
  assumes "cleanup_service rt s w = (Ok [], w')"
  shows "gone (cl_services (view w)) (cl_services (view w')) (''shared-services'', s)"
  using assms unfolding cleanup_service_def
proof (cases rule: on_error_Ok [consumes 1, case_names found missing])
  case (found x w1)
  then have "view w1 = view w" and "key_of x = (''shared-services'', s)"
    by (auto dest!: svc.get_found dest: svc.keyed)
  with found(2) show ?thesis by (auto dest!: deleting_nil dest: svc.delete_gone)
next
  case (missing e w1)
  then show ?thesis by (auto dest!: svc.get_failed simp: gone_def split: if_splits)
qed

lemma cleanup_master_secret_gone:
  assumes "cleanup_master_secret rt s w = (Ok [], w')"
  shows "gone (cl_secrets (view w)) (cl_secrets (view w')) (''shared-services'', s)"
  using assms unfolding cleanup_master_secret_def
proof (cases rule: on_error_Ok [consumes 1, case_names found missing])
  case (found x w1)
  then have "view w1 = view w" and "key_of x = (''shared-services'', s)"
    by (auto dest!: sec.get_found dest: sec.keyed)
  with found(2) show ?thesis by (auto dest!: deleting_nil dest: sec.delete_gone)
next
  case (missing e w1)
  then show ?thesis by (auto dest!: sec.get_failed simp: gone_def split: if_splits)
qed

lemma cleanup_jobs_gone:
  assumes "cleanup_jobs rt s w = (Ok [], w')"
    and "cl_jobs (view w) (''shared-services'', j) = Some x" and "matches_labels (instance_job_selector s) x"
  shows "gone (cl_jobs (view w)) (cl_jobs (view w')) (''shared-services'', j)"
  using assms(1) unfolding cleanup_jobs_def
proof (cases rule: on_error_Ok [consumes 1, case_names found missing])
  case (found xs w1)
  have "key_of x = (''shared-services'', j)" by (rule job.keyed [OF assms(2)])
  then have j: "name_of x = j" "key_of x = (''shared-services'', j)" by (auto simp: key_of_def)
  with job.list_found [OF found(1)] assms(2,3) have "x \<in> set xs" and w1: "view w1 = view w" by auto
  have "gone (cl_jobs (view w1)) (cl_jobs (view w')) (key_of x)"
    by (rule delete_each_all [OF found(2) \<open>x \<in> set xs\<close>, where R = only_reaps and view = view and
          Q = "\<lambda>x v v'. gone (cl_jobs v) (cl_jobs v') (key_of x)"])
      (auto dest!: deleting_nil dest: job.delete_gone simp: only_reaps_def
         intro: reaped_gone gone_reaped intro!: vsteps_deleting deletes_reap)
  then show ?thesis by (simp add: w1 j)
qed simp

lemma cleanup_claims_gone:
  assumes "cleanup_claims rt (Some ss) w = (Ok [], w')"
    and "cl_claims (view w) (namespace_of ss, c) = Some pvc"
    and "\<exists>vct \<in> set (VolumeClaimTemplates ss). claim_of_template (name_of ss) (name_of vct) c"
  shows "gone (cl_claims (view w)) (cl_claims (view w')) (namespace_of ss, c)"
  using assms(1) unfolding cleanup_claims_def option.case
proof (cases rule: on_error_Ok [consumes 1, case_names found missing])
  case (found xs w1)
  have "key_of pvc = (namespace_of ss, c)" by (rule pvc.keyed [OF assms(2)])
  then have c: "name_of pvc = c" "key_of pvc = (namespace_of ss, c)" by (auto simp: key_of_def)
  from found(1) obtain items where list: "ApiList (Claims rt) (namespace_of ss) [] w = (Ok items, w1)"
    and xs: "xs = filter (\<lambda>pvc. list_ex
          (\<lambda>vct. claim_of_template (name_of ss) (name_of vct) (name_of pvc)) (VolumeClaimTemplates ss)) items"
    unfolding getPostgreSQLPVCsByLabels_def by (auto elim!: and_then_Ok)
  from pvc.list_found [OF list] assms(2) c have "pvc \<in> set items" and w1: "view w1 = view w"
    by (auto simp: matches_labels_def)
  with assms(3) have "pvc \<in> set xs" by (auto simp: xs list_ex_iff c)
  have "gone (cl_claims (view w1)) (cl_claims (view w')) (key_of pvc)"
    by (rule delete_each_all [OF found(2) \<open>pvc \<in> set xs\<close>, where R = only_reaps and view = view and
          Q = "\<lambda>x v v'. gone (cl_claims v) (cl_claims v') (key_of x)"])
      (auto dest!: deleting_nil dest: pvc.delete_gone simp: only_reaps_def
         intro: reaped_gone gone_reaped intro!: vsteps_deleting deletes_reap)
  then show ?thesis by (simp add: w1 c)
qed simp

end

context cluster_client
begin

lemma cleanup_Ok:
  assumes run: "cleanupSharedPostgreSQLInstance rt n w = (Ok (), w')"
  obtains i found w0 w1 w2 w3 w4 where "n = instance_name i" and "i \<noteq> ''''" and "view w0 = view w"
    and "found = cl_stateful_sets (view w) (''shared-services'', n)"
    and "cleanup_claims rt found w0 = (Ok [], w1)" and "cleanup_stateful_set rt found w1 = (Ok [], w2)"
    and "cleanup_service rt n w2 = (Ok [], w3)"
    and "cleanup_master_secret rt (master_secret_name i) w3 = (Ok [], w4)"
    and "cleanup_jobs rt n w4 = (Ok [], w')"
proof -
  obtain found w0 where get: "on_error (ApiGet (StatefulSets rt) ''shared-services'' n)
          (\<lambda>err. if is_not_found err then ret None else fail (Wrapf ''failed to get StatefulSet'' err))
          (\<lambda>statefulSet. ret (Some statefulSet)) w = (Ok found, w0)"
    and rest: "(if 11 < length n \<and> strings_HasPrefix n ''postgresql-''
          then let id = drop 11 n in
            and_then (cleanup_claims rt found) (\<lambda>es1.
            and_then (cleanup_stateful_set rt found) (\<lambda>es2.
            and_then (cleanup_service rt (''postgresql-'' @ id)) (\<lambda>es3.
            and_then (cleanup_master_secret rt (''postgresql-master-secret-'' @ id)) (\<lambda>es4.
            and_then (cleanup_jobs rt n) (\<lambda>es5.
              let cleanupErrors = es1 @ es2 @ es3 @ es4 @ es5 in
              if 0 < length cleanupErrors then fail (CleanupErrors cleanupErrors) else ret ())))))
          else fail (ErrorString (''invalid StatefulSet name format: '' @ n))) w0 = (Ok (), w')"
    using run unfolding cleanupSharedPostgreSQLInstance_def by (elim and_then_Ok)
  have valid: "11 < length n \<and> strings_HasPrefix n ''postgresql-''"
    using rest by (cases "11 < length n \<and> strings_HasPrefix n ''postgresql-''") auto
  then obtain i where i: "n = ''postgresql-'' @ i" by (auto simp: HasPrefix_iff simp del: append_Cons)
  from i valid have "i \<noteq> ''''" by auto
  from i have drop: "drop 11 n = i" by simp
  from get have found: "view w0 = view w" "found = cl_stateful_sets (view w) (''shared-services'', n)"
    by (auto elim!: on_error_Ok dest: sts.get_found sts.get_failed split: if_splits)
  obtain es1 es2 es3 es4 es5 w1 w2 w3 w4 w5
    where steps: "cleanup_claims rt found w0 = (Ok es1, w1)" "cleanup_stateful_set rt found w1 = (Ok es2, w2)"
      "cleanup_service rt (''postgresql-'' @ i) w2 = (Ok es3, w3)"
      "cleanup_master_secret rt (''postgresql-master-secret-'' @ i) w3 = (Ok es4, w4)"
      "cleanup_jobs rt n w4 = (Ok es5, w5)"
      and last: "(if 0 < length (es1 @ es2 @ es3 @ es4 @ es5) then fail (CleanupErrors (es1 @ es2 @ es3 @ es4 @ es5))
        else ret ()) w5 = (Ok (), w')"
    using rest unfolding if_P [OF valid] Let_def drop by (elim and_then_Ok)
  then have "es1 = [] \<and> es2 = [] \<and> es3 = [] \<and> es4 = [] \<and> es5 = [] \<and> w5 = w'"
    by (auto split: if_splits)
  with steps found i \<open>i \<noteq> ''''\<close> show ?thesis
    by (intro that [of i w0 found w1 w2 w3 w4]) (simp_all only: instance_name_def master_secret_name_def not_False_eq_True)
qed

lemma cleanup_complete_run:
  assumes run: "cleanupSharedPostgreSQLInstance rt n w = (Ok (), w')"
  shows "\<exists>i. n = instance_name i \<and>
    gone (cl_stateful_sets (view w)) (cl_stateful_sets (view w')) (''shared-services'', n) \<and>
    gone (cl_services (view w)) (cl_services (view w')) (''shared-services'', n) \<and>
    gone (cl_secrets (view w)) (cl_secrets (view w')) (''shared-services'', master_secret_name i) \<and>
    (\<forall>j x. cl_jobs (view w) (''shared-services'', j) = Some x \<longrightarrow> matches_labels (instance_job_selector n) x \<longrightarrow>
       gone (cl_jobs (view w)) (cl_jobs (view w')) (''shared-services'', j)) \<and>
    (\<forall>ss c pvc. cl_stateful_sets (view w) (''shared-services'', n) = Some ss \<longrightarrow>
       cl_claims (view w) (''shared-services'', c) = Some pvc \<longrightarrow>
       (\<exists>vct \<in> set (VolumeClaimTemplates ss). claim_of_template n (name_of vct) c) \<longrightarrow>
       gone (cl_claims (view w)) (cl_claims (view w')) (''shared-services'', c))"
proof (rule cleanup_Ok [OF run])
  fix i found w0 w1 w2 w3 w4
  assume n: "n = instance_name i" and w0: "view w0 = view w"
    and found: "found = cl_stateful_sets (view w) (''shared-services'', n)"
    and c1: "cleanup_claims rt found w0 = (Ok [], w1)"
    and c2: "cleanup_stateful_set rt found w1 = (Ok [], w2)"
    and c3: "cleanup_service rt n w2 = (Ok [], w3)"
    and c4: "cleanup_master_secret rt (master_secret_name i) w3 = (Ok [], w4)"
    and c5: "cleanup_jobs rt n w4 = (Ok [], w')"
  have r1: "only_reaps (view w) (view w1)" using vsteps_run [OF cleanup_reaps(1) c1] by (simp add: w0)
  note r2 = vsteps_run [OF cleanup_reaps(2) c2] and r3 = vsteps_run [OF cleanup_reaps(3) c3]
    and r4 = vsteps_run [OF cleanup_reaps(4) c4] and r5 = vsteps_run [OF cleanup_reaps(5) c5]
  have trans: "only_reaps a c" if "only_reaps a b" "only_reaps b c" for a b c :: "'b cluster"
    using only_reaps_preorder that unfolding preorder_rel_def by (meson transpD)
  have w2: "only_reaps (view w) (view w2)" by (rule trans [OF r1 r2])
  have w3: "only_reaps (view w) (view w3)" by (rule trans [OF w2 r3])
  have w4: "only_reaps (view w) (view w4)" by (rule trans [OF w3 r4])
  have after2: "only_reaps (view w2) (view w')" by (rule trans [OF r3 trans [OF r4 r5]])
  have after1: "only_reaps (view w1) (view w')" by (rule trans [OF r2 after2])
  have after3: "only_reaps (view w3) (view w')" by (rule trans [OF r4 r5])
  have "gone (cl_stateful_sets (view w)) (cl_stateful_sets (view w')) (''shared-services'', n)"
  proof (cases found)
    case None
    then have "reaped (cl_stateful_sets (view w)) (cl_stateful_sets (view w'))"
      using trans [OF w4 r5] by (simp add: only_reaps_def)
    from reapedD [OF this, of "(''shared-services'', n)"] None found show ?thesis by (auto simp: gone_def)
  next
    case (Some ss)
    then have "key_of ss = (''shared-services'', n)" using sts.keyed [of w _ ss] found by simp
    then have "gone (cl_stateful_sets (view w1)) (cl_stateful_sets (view w2)) (''shared-services'', n)"
      using cleanup_stateful_set_gone c2 Some by metis
    with r1 after2 show ?thesis by (auto simp: only_reaps_def intro: gone_reaped reaped_gone)
  qed
  moreover have "gone (cl_services (view w)) (cl_services (view w')) (''shared-services'', n)"
    using cleanup_service_gone [OF c3] w2 after3 by (auto simp: only_reaps_def intro: gone_reaped reaped_gone)
  moreover have "gone (cl_secrets (view w)) (cl_secrets (view w')) (''shared-services'', master_secret_name i)"
    using cleanup_master_secret_gone [OF c4] w3 r5 by (auto simp: only_reaps_def intro: gone_reaped reaped_gone)
  moreover have "gone (cl_jobs (view w)) (cl_jobs (view w')) (''shared-services'', j)"
    if j: "cl_jobs (view w) (''shared-services'', j) = Some x" "matches_labels (instance_job_selector n) x" for j x
  proof -
    have reap: "reaped (cl_jobs (view w)) (cl_jobs (view w4))" using w4 by (simp add: only_reaps_def)
    from reapedD [OF this, of "(''shared-services'', j)"] show ?thesis
    proof
      assume "cl_jobs (view w4) (''shared-services'', j) = cl_jobs (view w) (''shared-services'', j)"
      with j(1) have "cl_jobs (view w4) (''shared-services'', j) = Some x" by simp
      from cleanup_jobs_gone [OF c5 this j(2)] reap show ?thesis by (blast intro: reaped_gone)
    next
      assume "gone (cl_jobs (view w)) (cl_jobs (view w4)) (''shared-services'', j)"
      with r5 show ?thesis by (auto simp: only_reaps_def intro: gone_reaped)
    qed
  qed
  moreover have "gone (cl_claims (view w)) (cl_claims (view w')) (''shared-services'', c)"
    if ss: "cl_stateful_sets (view w) (''shared-services'', n) = Some ss"
      and c: "cl_claims (view w) (''shared-services'', c) = Some pvc"
      and t: "\<exists>vct \<in> set (VolumeClaimTemplates ss). claim_of_template n (name_of vct) c" for ss c pvc
  proof -
    from ss have "namespace_of ss = ''shared-services''" "name_of ss = n"
      using sts.keyed [OF ss] by (auto simp: key_of_def)
    with cleanup_claims_gone [of ss w0 w1 c pvc] c1 found ss c t w0
    have "gone (cl_claims (view w)) (cl_claims (view w1)) (''shared-services'', c)" by simp
    with after1 show ?thesis by (auto simp: only_reaps_def intro: gone_reaped)
  qed
  ultimately show ?thesis using n by blast
qed

end

section \<open>Removal\<close>

context cluster_client
begin

lemma removal_job_Ok:
  assumes "createRemovalJob rt u n w = (Ok (), w')"
  defines "k \<equiv> (''shared-services'', ''db-remove-'' @ take 8 u)"
  shows "cl_jobs (view w) k \<noteq> None \<and> view w' = view w \<or>
    cl_jobs (view w) k = None \<and>
    (\<exists>x a b. labels_of x = Some [(tenant_uid_label, u), (managed_by_label, ''tenant-operator''), (ss_name_label, n)] \<and>
       view w' = cl_jobs_update (\<lambda>m. m(k \<mapsto> with_server_fields a b x)) (view w))"
proof -
  have run: "on_error (ApiGet (Jobs rt) ''shared-services'' (''db-remove-'' @ take 8 u))
         (\<lambda>err. if is_not_found err
                then and_then (remove_job_literal rt u (''db-remove-'' @ take 8 u) n) (\<lambda>job.
                     and_then (wrapping ''failed to create database removal job'' (ApiCreate (Jobs rt) job))
                       (\<lambda>_. ret ()))
                else fail err)
         (\<lambda>_. ret ()) w = (Ok (), w')"
    using assms(1) unfolding createRemovalJob_def Let_def if_cancel
    by (auto elim!: and_then_Ok [of "slice_to u 8"] slice_to_Ok simp del: append_Cons)
  have "view w' = view w \<and> key_of x = (''shared-services'', ''db-remove-'' @ take 8 u) \<and>
      labels_of x = Some [(tenant_uid_label, u), (managed_by_label, ''tenant-operator''), (ss_name_label, n)]"
    if literal: "remove_job_literal rt u (''db-remove-'' @ take 8 u) n w = (Ok x, w')" for w x w'
  proof -
    obtain l where "job_quantities rt (db_job (''db-remove-'' @ take 8 u) ''shared-services'' u n ''db-remove''
        (script_of_lines l) [master_password_env (''postgresql-master-secret-'' @ drop (length n - 6) n)]) w = (Ok x, w')"
      using literal unfolding remove_job_literal_def Let_def
      by (elim and_then_Ok slice_last_Ok slice_to_Ok) (hypsubst, rule that)
    from job_quantities_Ok [OF this] show ?thesis by auto
  qed
  note made = job.get_or_make [OF run this]
  from made show ?thesis unfolding k_def using wrapping_Ok by (auto 4 4)
qed

lemma vsteps_remove_job:
  "vsteps view only_adds (createRemovalJob rt u n)"
  unfolding createRemovalJob_def remove_job_literal_def job_quantities_def Let_def
  by (intro adds_rules)

text \<open>What the loop does: nothing, or it strikes the tenant off one instance that lists it.\<close>

lemma remove_from_first_cases:
  assumes "remove_from_first rt u xs w = (r, w')"
  obtains (unlisted) "\<forall>ss \<in> set xs. u \<notin> set (tenant_list_of ss)" and "r = Ok ()" and "w' = w"
  | (listed) ss where "ss \<in> set xs" and "u \<in> set (tenant_list_of ss)"
      and "and_then (ApiUpdate (StatefulSets rt)
             (store_tenant_list (filter (\<lambda>x. x \<noteq> u) (tenant_list_of ss)) ss)) (\<lambda>ss'.
             if length (filter (\<lambda>x. x \<noteq> u) (tenant_list_of ss)) = 0
             then and_then (ignoring (cleanupSharedPostgreSQLInstance rt (name_of ss'))) (\<lambda>_. ret ())
             else createRemovalJob rt u (name_of ss')) w = (r, w')"
  using assms
proof (induction xs arbitrary: thesis)
  case Nil
  then show ?case by simp
next
  case (Cons ss xs)
  show ?case
  proof (cases "u \<in> set (tenant_list_of ss)")
    case True
    with Cons.prems(3) show ?thesis by (intro Cons.prems(2) [of ss]) (simp_all add: Let_def)
  next
    case False
    with Cons.prems(3) have "remove_from_first rt u xs w = (r, w')" by (simp add: Let_def)
    then show ?thesis
    proof (rule Cons.IH [rotated 2])
      assume "\<forall>ss\<in>set xs. u \<notin> set (tenant_list_of ss)" "r = Ok ()" "w' = w"
      with False show ?thesis by (intro Cons.prems(1)) auto
    qed (use Cons.prems(2) in auto)
  qed
qed

end

definition without :: "string \<Rightarrow> 'q stateful_set \<Rightarrow> string list" where
  "without u ss = filter (\<lambda>x. x \<noteq> u) (tenant_list_of ss)"

context cluster_client
begin

lemma remove_cases:
  assumes "removeTenantFromSharedInstance rt u w = (r, w')"
  obtains (failed) "\<exists>e. r = Err e" and "view w' = view w"
  | (unlisted) "\<forall>n ss. shared_instance (view w) n = Some ss \<longrightarrow> u \<notin> set (tenant_list_of ss)"
      and "r = Ok ()" and "view w' = view w"
  | (listed) n ss w1 where "shared_instance (view w) n = Some ss" and "u \<in> set (tenant_list_of ss)"
      and "view w1 = view w"
      and "and_then (ApiUpdate (StatefulSets rt) (store_tenant_list (without u ss) ss)) (\<lambda>ss'.
             if length (without u ss) = 0
             then and_then (ignoring (cleanupSharedPostgreSQLInstance rt (name_of ss'))) (\<lambda>_. ret ())
             else createRemovalJob rt u (name_of ss')) w1 = (r, w')"
  using assms unfolding removeTenantFromSharedInstance_def
proof (cases rule: and_then_cases)
  case (ok xs w1)
  note listed_instances [OF ok(1)]
  note found = this
  from ok(2) show ?thesis
  proof (cases rule: remove_from_first_cases)
    case unlisted
    have "u \<notin> set (tenant_list_of ss)" if ss: "shared_instance (view w) n = Some ss" for n ss
    proof -
      have "name_of ss = n"
        using ss sts.keyed [of w "(''shared-services'', n)" ss] by (auto simp: shared_instance_Some key_of_def)
      then show ?thesis using found(2) [of ss] ss unlisted(1) by simp
    qed
    then show ?thesis using that(2) unlisted(2,3) found(1) by blast
  next
    case (listed ss)
    then show ?thesis
      using that(3) [of "name_of ss" ss w1] found(1) found(2) [of ss] by (simp add: without_def)
  qed
next
  case (err e)
  then show ?thesis using that(1) sts.list_view by blast
next
  case (panic s)
  then show ?thesis by (simp add: sts.list_returns)
qed

lemma removal_keeps_sets: "vsteps view (\<lambda>v v'. cl_stateful_sets v' = cl_stateful_sets v) (createRemovalJob rt u n)"
  unfolding createRemovalJob_def remove_job_literal_def job_quantities_def Let_def
  by (intro vsteps_rules client_steps preorder_frame) auto

text \<open>After the update, instances keep their registries: the rest deletes instances or adds a job.\<close>

lemma after_update:
  assumes "(if length us = 0
             then and_then (ignoring (cleanupSharedPostgreSQLInstance rt n)) (\<lambda>_. ret ())
             else createRemovalJob rt u n) w = (r, w')"
  shows "reaped (cl_stateful_sets (view w)) (cl_stateful_sets (view w'))"
proof (cases "length us = 0")
  case True
  have "vsteps view only_reaps (and_then (ignoring (cleanupSharedPostgreSQLInstance rt n)) (\<lambda>_. ret ()))"
    by (intro vsteps_rules cleanupSharedPostgreSQLInstance_reaps only_reaps_preorder)
  then show ?thesis using assms True by (auto simp: only_reaps_def dest: vsteps_run)
next
  case False
  then show ?thesis using assms vsteps_run [OF removal_keeps_sets] by auto
qed

end

text \<open>The invariant of all instances in the shared namespace.\<close>

definition registries_consistent :: "'q cluster \<Rightarrow> bool" where
  "registries_consistent v \<longleftrightarrow>
     (\<forall>n ss. cl_stateful_sets v (''shared-services'', n) = Some ss \<longrightarrow> registry_consistent ss)"

lemma registries_reaped:
  assumes "registries_consistent v" and "reaped (cl_stateful_sets v) (cl_stateful_sets v')"
  shows "registries_consistent v'"
  unfolding registries_consistent_def
proof (intro allI impI)
  fix n ss
  assume ss: "cl_stateful_sets v' (''shared-services'', n) = Some ss"
  from reapedD [OF assms(2), of "(''shared-services'', n)"] ss assms(1) show "registry_consistent ss"
    by (auto simp: gone_def registries_consistent_def)
qed

lemma registries_update:
  "\<lbrakk>registries_consistent v; registry_consistent ss\<rbrakk>
    \<Longrightarrow> registries_consistent (cl_stateful_sets_update (\<lambda>m. m(k \<mapsto> ss)) v)"
  by (auto simp: registries_consistent_def)

context cluster_client
begin

lemma store_effect:
  assumes run: "ApiUpdate (StatefulSets rt) (store_tenant_list us ss) w = (r, w')"
    and "registries_consistent (view w)" and "registry_consistent (store_tenant_list us ss)"
  shows "registries_consistent (view w')"
  using sts.update_effect [OF run] assms(2,3) by (auto intro!: registries_update)

lemma add_attempt_consistent:
  assumes "add_attempt rt u n w = (r, w')" and "valid_uid u" and "registries_consistent (view w)"
  shows "registries_consistent (view w')"
  using assms(1) unfolding add_attempt_def
proof (cases rule: and_then_cases)
  case (ok ss w1)
  then have ss: "registry_consistent ss" and w1: "view w1 = view w"
    using assms(3) by (auto dest!: sts.get_found simp: registries_consistent_def)
  show ?thesis
  proof (cases "u \<in> set (tenant_list_of ss)")
    case True
    with ok(2) w1 assms(3) show ?thesis by (simp add: Let_def)
  next
    case False
    then have "registry_consistent (store_tenant_list (tenant_list_of ss @ [u]) ss)"
      using registry.enrol(1) ss assms(2) by blast
    moreover obtain r1 where "ApiUpdate (StatefulSets rt) (store_tenant_list (tenant_list_of ss @ [u]) ss) w1 = (r1, w')"
      using ok(2) False by (auto simp: Let_def elim!: and_then_cases)
    ultimately show ?thesis using store_effect assms(3) w1 by metis
  qed
qed (use assms(3) sts.get_view in auto)

lemma add_consistent:
  assumes "addTenantToSharedInstance rt t n w = (r, w')" and "valid_uid (uid_of t)"
    and "registries_consistent (view w)"
  shows "registries_consistent (view w')"
proof -
  let ?R = "\<lambda>v v'. registries_consistent v \<longrightarrow> registries_consistent v'"
  have R: "preorder_rel ?R" by (rule preorder_relI) auto
  have "vsteps view ?R (add_attempt rt (uid_of t) n)"
    using add_attempt_consistent [OF _ assms(2)] by (intro vstepsI) blast
  then have "vsteps view ?R (addTenantToSharedInstance rt t n)"
    unfolding addTenantToSharedInstance_def by (intro vsteps_rules vsteps_retry R)
  from vsteps_run [OF this assms(1)] assms(3) show ?thesis by blast
qed

lemma remove_consistent:
  assumes "removeTenantFromSharedInstance rt u w = (r, w')" and "registries_consistent (view w)"
  shows "registries_consistent (view w')"
  using assms(1)
proof (cases rule: remove_cases)
  case (listed n ss w1)
  then have "registry_consistent ss"
    using assms(2) by (auto simp: shared_instance_Some registries_consistent_def)
  then have store: "registry_consistent (store_tenant_list (without u ss) ss)"
    unfolding without_def by (rule registry.expel(1))
  from listed(3) assms(2) have w1: "registries_consistent (view w1)" by simp
  from listed(4) show ?thesis
  proof (cases rule: and_then_cases)
    case (ok ss' w2)
    from store_effect [OF ok(1) w1 store] after_update [OF ok(2)] show ?thesis by (rule registries_reaped)
  next
    case (err e)
    from store_effect [OF err(1) w1 store] show ?thesis .
  next
    case (panic s)
    from store_effect [OF panic(1) w1 store] show ?thesis .
  qed
qed (use assms(2) in simp_all)

end

context cluster_client
begin

lemma removed_everywhere:
  assumes "removeTenantFromSharedInstance rt u w = (Ok (), w')"
    and "registries_consistent (view w)"
    and "\<And>n m ss sm. \<lbrakk>shared_instance (view w) n = Some ss; u \<in> set (tenant_list_of ss);
           shared_instance (view w) m = Some sm; u \<in> set (tenant_list_of sm)\<rbrakk> \<Longrightarrow> m = n"
    and "shared_instance (view w') n = Some ss"
  shows "u \<notin> set (tenant_list_of ss)"
proof (rule remove_cases [OF assms(1)])
  fix m sm w1
  assume sm: "shared_instance (view w) m = Some sm" "u \<in> set (tenant_list_of sm)" and w1: "view w1 = view w"
    and run: "and_then (ApiUpdate (StatefulSets rt) (store_tenant_list (without u sm) sm)) (\<lambda>ss'.
             if length (without u sm) = 0
             then and_then (ignoring (cleanupSharedPostgreSQLInstance rt (name_of ss'))) (\<lambda>_. ret ())
             else createRemovalJob rt u (name_of ss')) w1 = (Ok (), w')"
  have stored: "cl_stateful_sets (view w) (''shared-services'', m) = Some sm"
    using sm(1) by (simp add: shared_instance_Some)
  have key: "key_of sm = (''shared-services'', m)"
    by (rule sts.keyed [OF stored])
  have "registry_consistent sm" using stored assms(2) by (auto simp: registries_consistent_def)
  then have list: "tenant_list_of (store_tenant_list (without u sm) sm) = without u sm"
    unfolding without_def by (rule registry.expel(2))
  obtain sm' w2 where upd: "ApiUpdate (StatefulSets rt) (store_tenant_list (without u sm) sm) w1 = (Ok sm', w2)"
    and rest: "(if length (without u sm) = 0
             then and_then (ignoring (cleanupSharedPostgreSQLInstance rt (name_of sm'))) (\<lambda>_. ret ())
             else createRemovalJob rt u (name_of sm')) w2 = (Ok (), w')"
    using run by (elim and_then_Ok)
  obtain v where w2: "cl_stateful_sets (view w2) = (cl_stateful_sets (view w))((''shared-services'', m) \<mapsto>
      with_server_fields (uid_of sm) v (store_tenant_list (without u sm) sm))"
    using sts.update_ok [OF upd] by (auto simp: key w1)
  have "reaped (cl_stateful_sets (view w2)) (cl_stateful_sets (view w'))"
    by (rule after_update [OF rest])
  from reapedD [OF this, of "(''shared-services'', n)"] assms(4)
  obtain y where y: "cl_stateful_sets (view w2) (''shared-services'', n) = Some y"
    and same: "tenant_list_of ss = tenant_list_of y" "labels_of ss = labels_of y"
    by (auto simp: shared_instance_Some gone_def dest!: sym [of "Some ss"])
  show "u \<notin> set (tenant_list_of ss)"
  proof (cases "n = m")
    case True
    with y w2 same list show ?thesis by (auto simp: without_def)
  next
    case False
    with y w2 have "cl_stateful_sets (view w) (''shared-services'', n) = Some y" by simp
    with assms(4) same have "shared_instance (view w) n = Some y" by (simp add: shared_instance_Some)
    with assms(3) [OF sm(1,2)] False same show ?thesis by auto
  qed
qed (use assms(4) in auto)

end

context cluster_client
begin

lemma add_registers:
  assumes "addTenantToSharedInstance rt t n w = (Ok (), w')"
    and "registries_consistent (view w)" and "valid_uid (uid_of t)"
  shows "\<exists>ss ss'. cl_stateful_sets (view w) (''shared-services'', n) = Some ss \<and>
    view w' = cl_stateful_sets_update (\<lambda>m. m((''shared-services'', n) \<mapsto> ss')) (view w) \<and>
    tenant_list_of ss' =
      (if uid_of t \<in> set (tenant_list_of ss) then tenant_list_of ss else tenant_list_of ss @ [uid_of t]) \<and>
    registry_consistent ss'"
proof -
  obtain ss where ss: "cl_stateful_sets (view w) (''shared-services'', n) = Some ss"
    and eff: "if uid_of t \<in> set (tenant_list_of ss) then view w' = view w
     else \<exists>v. view w' = cl_stateful_sets_update (\<lambda>m. m((''shared-services'', n) \<mapsto>
       with_server_fields (uid_of ss) v (store_tenant_list (tenant_list_of ss @ [uid_of t]) ss))) (view w)"
    using add_Ok [OF assms(1)] by blast
  have cons: "registry_consistent ss" using assms(2) ss by (auto simp: registries_consistent_def)
  show ?thesis
  proof (cases "uid_of t \<in> set (tenant_list_of ss)")
    case True
    with eff ss cons show ?thesis by (intro exI [of _ ss]) (simp add: map_upd_triv)
  next
    case False
    then obtain v where v: "view w' = cl_stateful_sets_update (\<lambda>m. m((''shared-services'', n) \<mapsto>
       with_server_fields (uid_of ss) v (store_tenant_list (tenant_list_of ss @ [uid_of t]) ss))) (view w)"
      using eff by auto
    have "registry_consistent (store_tenant_list (tenant_list_of ss @ [uid_of t]) ss)"
      and "tenant_list_of (store_tenant_list (tenant_list_of ss @ [uid_of t]) ss) = tenant_list_of ss @ [uid_of t]"
      using registry.enrol [OF cons assms(3) False] by blast+
    with v ss False show ?thesis
      by (intro exI [of _ ss] exI [of _ "with_server_fields (uid_of ss) v
            (store_tenant_list (tenant_list_of ss @ [uid_of t]) ss)"]) simp
  qed
qed

lemma cleanup_foreign:
  assumes run: "cleanupSharedPostgreSQLInstance rt n w = (r, w')"
    and name: "\<not> (11 < length n \<and> strings_HasPrefix n ''postgresql-'')"
  shows "view w' = view w \<and> (\<exists>e. r = Err e)"
  using run unfolding cleanupSharedPostgreSQLInstance_def if_not_P [OF name]
proof (cases rule: and_then_cases)
  case (ok found w1)
  from ok(1) have "view w1 = view w"
    by (cases rule: on_error_cases) (auto dest: sts.get_view split: if_splits)
  with ok(2) show ?thesis by auto
next
  case (err e)
  from err(1) have "view w' = view w"
    by (cases rule: on_error_cases) (auto dest: sts.get_view split: if_splits)
  with err(2) show ?thesis by simp
next
  case (panic s)
  from panic(1) show ?thesis
    by (cases rule: on_error_cases) (auto simp: sts.get_returns split: if_splits)
qed

end

section \<open>Properties\<close>

text \<open>C27: the search reads the count labels only, and that is as good as reading the lists of tenants: where
  counts and lists agree it finds the first instance that lists fewer than ten tenants, or nothing
  when there is none.\<close>

theorem search_follows_lists:
  assumes "\<forall>ss \<in> set items. registry_consistent ss"
  shows "first_available items = map_option name_of (find (\<lambda>ss. length (tenant_list_of ss) < 10) items)"
  using assms
proof (induction items)
  case Nil
  show ?case by simp
next
  case (Cons ss rest)
  have "tenant_count_of ss =
      (if int (length (tenant_list_of ss)) < 2 ^ 63 then Some (int (length (tenant_list_of ss))) else None)"
    using Cons.prems by (simp add: registry.count_reading tenant_count_of_def)
  with Cons show ?case by (auto simp: MaxTenantsPerSharedInstance_def split: if_splits)
qed

text \<open>C26: \<open>findAvailableSharedInstance\<close> changes nothing and never panics. The instance it returns is a
  shared instance whose count label reads as less than ten; it fails only when the list call
  failed or no shared instance with a readable count has room.\<close>

theorem available_has_room:
  assumes "cluster_client rt view" and "findAvailableSharedInstance rt w = (r, w')"
  shows "view w' = view w \<and>
    (case r of
       Ok n \<Rightarrow> \<exists>ss c. shared_instance (view w) n = Some ss \<and> tenant_count_of ss = Some c \<and> c < 10
     | Err e \<Rightarrow> (\<exists>w1. ApiList (StatefulSets rt) ''shared-services'' shared_selector w = (Err e, w1)) \<or>
         (\<forall>n ss c. shared_instance (view w) n = Some ss \<longrightarrow> tenant_count_of ss = Some c \<longrightarrow> 10 \<le> c)
     | Panic s \<Rightarrow> False)"
proof (cases r)
  case (Ok n)
  with cluster_client.find_Ok [OF assms(1)] assms(2) show ?thesis by simp
next
  case (Err e)
  with cluster_client.find_Err [OF assms(1)] assms(2) show ?thesis by simp
next
  case (Panic s)
  with cluster_client.find_returns [OF assms(1)] assms(2) show ?thesis by simp
qed

text \<open>C12: a successful \<open>addTenantToSharedInstance\<close>, however many conflicts were retried, leaves the tenant
  in the instance's list, after the tenants already there and once, with the count label equal to
  the length of the list; nothing else in the cluster changes.\<close>

theorem tenant_registered:
  assumes "cluster_client rt view" and "addTenantToSharedInstance rt t n w = (Ok (), w')"
    and "registries_consistent (view w)" and "valid_uid (uid_of t)"
  shows "\<exists>ss ss'. cl_stateful_sets (view w) (''shared-services'', n) = Some ss \<and>
    view w' = cl_stateful_sets_update (\<lambda>m. m((''shared-services'', n) \<mapsto> ss')) (view w) \<and>
    tenant_list_of ss' =
      (if uid_of t \<in> set (tenant_list_of ss) then tenant_list_of ss else tenant_list_of ss @ [uid_of t]) \<and>
    registry_consistent ss'"
  by (rule cluster_client.add_registers [OF assms])

text \<open>C25: striking off a tenant that was just registered gives back the list from before.\<close>

theorem register_remove_roundtrip:
  assumes "registry_consistent ss" and "valid_uid u" and "u \<notin> set (tenant_list_of ss)"
    and "ss' = store_tenant_list (tenant_list_of ss @ [u]) ss"
  shows "tenant_list_of (store_tenant_list (without u ss') ss') = tenant_list_of ss"
  using registry.expel_enrolled [OF assms(1-3)] by (simp add: without_def assms(4))

text \<open>C13: after a successful \<open>removeTenantFromSharedInstance\<close> no shared instance lists the tenant, provided
  it was listed by at most one before.\<close>

theorem tenant_removed:
  assumes "cluster_client rt view" and "removeTenantFromSharedInstance rt u w = (Ok (), w')"
    and "registries_consistent (view w)"
    and "\<And>n m ss sm. \<lbrakk>shared_instance (view w) n = Some ss; u \<in> set (tenant_list_of ss);
           shared_instance (view w) m = Some sm; u \<in> set (tenant_list_of sm)\<rbrakk> \<Longrightarrow> m = n"
      and "shared_instance (view w') n = Some ss"
  shows "u \<notin> set (tenant_list_of ss)"
  by (rule cluster_client.removed_everywhere [OF assms(1-3) _ assms(5)]) (rule assms(4))

text \<open>C28: a cleanup that reports no error has deleted (or started to delete) the whole instance: the
  stateful set, the service and the master secret of the same identifier, every job labelled with
  the instance, and every claim that belongs to one of its volume templates.\<close>

theorem cleanup_complete:
  assumes "cluster_client rt view" and "cleanupSharedPostgreSQLInstance rt n w = (Ok (), w')"
  shows "\<exists>i. n = instance_name i \<and>
    gone (cl_stateful_sets (view w)) (cl_stateful_sets (view w')) (''shared-services'', n) \<and>
    gone (cl_services (view w)) (cl_services (view w')) (''shared-services'', n) \<and>
    gone (cl_secrets (view w)) (cl_secrets (view w')) (''shared-services'', master_secret_name i) \<and>
    (\<forall>j x. cl_jobs (view w) (''shared-services'', j) = Some x \<longrightarrow> matches_labels (instance_job_selector n) x \<longrightarrow>
       gone (cl_jobs (view w)) (cl_jobs (view w')) (''shared-services'', j)) \<and>
    (\<forall>ss c pvc. cl_stateful_sets (view w) (''shared-services'', n) = Some ss \<longrightarrow>
       cl_claims (view w) (''shared-services'', c) = Some pvc \<longrightarrow>
       (\<exists>vct \<in> set (VolumeClaimTemplates ss). claim_of_template n (name_of vct) c) \<longrightarrow>
       gone (cl_claims (view w)) (cl_claims (view w')) (''shared-services'', c))"
  by (rule cluster_client.cleanup_complete_run [OF assms])

text \<open>A cleanup only deletes: whatever its outcome, every stored object is unchanged, gone or
  terminating, nothing is created, and config maps, deployments, pods and tenants are untouched.\<close>

theorem cleanup_only_deletes:
  assumes "cluster_client rt view" and "cleanupSharedPostgreSQLInstance rt n w = (r, w')"
  shows "only_reaps (view w) (view w')"
  by (rule vsteps_run [OF cluster_client.cleanupSharedPostgreSQLInstance_reaps [OF assms(1)] assms(2)])

text \<open>A name that is not \<open>postgresql-\<close> followed by an identifier is refused before anything is deleted.\<close>

theorem cleanup_refuses_foreign_names:
  assumes "cluster_client rt view" and "cleanupSharedPostgreSQLInstance rt n w = (r, w')"
    and "\<not> (11 < length n \<and> strings_HasPrefix n ''postgresql-'')"
  shows "view w' = view w \<and> (\<exists>e. r = Err e)"
  by (rule cluster_client.cleanup_foreign [OF assms])

text \<open>When no shared instance lists the tenant, \<open>removeTenantFromSharedInstance\<close> changes nothing;
  it succeeds unless the list call fails, so a retry after the list was updated never gets to the
  removal job.\<close>

theorem unlisted_removal_is_noop:
  assumes "cluster_client rt view" and "removeTenantFromSharedInstance rt u w = (r, w')"
    and "\<And>n ss. shared_instance (view w) n = Some ss \<Longrightarrow> u \<notin> set (tenant_list_of ss)"
  shows "view w' = view w \<and> (r = Ok () \<or> (\<exists>e. r = Err e))"
  using assms(2) by (rule cluster_client.remove_cases [OF assms(1)]) (use assms(3) in auto)

section \<open>A concrete instance\<close>

definition sample_set :: "string list \<Rightarrow> int stateful_set" where
  "sample_set us = store_tenant_list us (postgres_stateful_set (sample_tenant False)
     ''shared-services'' ''postgresql-abcdef'' ''postgresql-master-secret-abcdef'' 1 no_container)"

definition sample_shared_world :: "string list \<Rightarrow> mem_world" where
  "sample_shared_world us = empty_world\<lparr>w_stateful_sets := [sample_set us]\<rparr>"

lemma sample_set_stored:
  "stored (w_stateful_sets (sample_shared_world us)) (''shared-services'', n) =
    (if n = ''postgresql-abcdef'' then Some (sample_set us) else None)"
  by (auto simp: sample_shared_world_def stored_def sample_set_def)

lemma sample_set_shared:
  "shared_instance (mem_view (sample_shared_world us)) n =
    (if n = ''postgresql-abcdef'' then Some (sample_set us) else None)"
proof -
  have "gm_lookup (labels_of (sample_set us)) shared_instance_label = Some ''true''"
    unfolding sample_set_def by (subst store_tenant_list_simps(3)) (simp_all add: shared_label SharedInstanceTenantCountLabel_def)
  then show ?thesis
    by (simp add: shared_instance_def mem_view_def sample_set_stored matches_labels_def shared_selector_def)
qed

lemma sample_consistent:
  "\<lbrakk>distinct us; list_all valid_uid us\<rbrakk> \<Longrightarrow> registries_consistent (mem_view (sample_shared_world us))"
  by (auto simp: registries_consistent_def mem_view_def sample_set_stored sample_set_def
      registry.consistent_store split: if_splits)

section \<open>Witnesses\<close>

theorem available_has_room_witness:
  "\<exists>ss c. shared_instance (mem_view (sample_shared_world [''0a1b2c3d-4e5f''])) ''postgresql-abcdef'' = Some ss \<and>
    tenant_count_of ss = Some c \<and> c < 10"
proof -
  let ?w = "sample_shared_world [''0a1b2c3d-4e5f'']"
  have "findAvailableSharedInstance mem_runtime ?w =
      (Ok ''postgresql-abcdef'', snd (findAvailableSharedInstance mem_runtime ?w))"
    by (rule evaluated) code_simp
  from available_has_room [OF mem_client this] show ?thesis by simp
qed

theorem search_follows_lists_witness:
  "first_available [sample_set (map (\<lambda>i. ''f000000'' @ strconv_Itoa i) [0..9]), sample_set [''0a1b2c3d-4e5f'']] =
    Some ''postgresql-abcdef''"
proof -
  let ?full = "map (\<lambda>i. ''f000000'' @ strconv_Itoa i) [0..9]"
  have full: "distinct ?full" "list_all valid_uid ?full" "length ?full = 10" by code_simp+
  have lists: "tenant_list_of (sample_set ?full) = ?full" "tenant_list_of (sample_set [''0a1b2c3d-4e5f'']) = [''0a1b2c3d-4e5f'']"
    unfolding sample_set_def by (rule registry.members_store, use full in \<open>simp add: valid_uid_def\<close>)+
  have "\<forall>ss \<in> set [sample_set ?full, sample_set [''0a1b2c3d-4e5f'']]. registry_consistent ss"
    using full by (auto simp: sample_set_def valid_uid_def intro!: registry.consistent_store)
  note search = search_follows_lists [OF this]
  have "find (\<lambda>ss. length (tenant_list_of ss) < 10) [sample_set ?full, sample_set [''0a1b2c3d-4e5f'']] =
      Some (sample_set [''0a1b2c3d-4e5f''])"
    by (simp only: find.simps lists full(3)) simp
  moreover have "name_of (sample_set [''0a1b2c3d-4e5f'']) = ''postgresql-abcdef''"
    by (simp add: sample_set_def postgres_stateful_set_def)
  ultimately show ?thesis unfolding search by (simp only: option.map)
qed

theorem tenant_registered_witness:
  "\<exists>ss'. stored (w_stateful_sets (snd (addTenantToSharedInstance mem_runtime (sample_tenant False) ''postgresql-abcdef''
      (sample_shared_world [''f0000000-9999''])))) (''shared-services'', ''postgresql-abcdef'') = Some ss' \<and>
    tenant_list_of ss' = [''f0000000-9999'', ''0a1b2c3d-4e5f''] \<and> registry_consistent ss'"
proof -
  let ?w = "sample_shared_world [''f0000000-9999'']"
  have run: "addTenantToSharedInstance mem_runtime (sample_tenant False) ''postgresql-abcdef'' ?w =
      (Ok (), snd (addTenantToSharedInstance mem_runtime (sample_tenant False) ''postgresql-abcdef'' ?w))"
    by (rule evaluated) code_simp
  have valid: "valid_uid (uid_of (sample_tenant False))" by (simp add: valid_uid_def)
  have cons: "registries_consistent (mem_view ?w)" by (rule sample_consistent) (simp_all add: valid_uid_def)
  have list: "tenant_list_of (sample_set [''f0000000-9999'']) = [''f0000000-9999'']"
    unfolding sample_set_def by (rule registry.members_store) (simp add: valid_uid_def)
  have "cl_stateful_sets (mem_view ?w) (''shared-services'', ''postgresql-abcdef'') = Some (sample_set [''f0000000-9999''])"
    by (simp add: mem_view_def sample_set_stored)
  with tenant_registered [OF mem_client, OF run cons valid] list obtain ss'
    where after: "mem_view (snd (addTenantToSharedInstance mem_runtime (sample_tenant False) ''postgresql-abcdef'' ?w)) =
        cl_stateful_sets_update (\<lambda>m. m((''shared-services'', ''postgresql-abcdef'') \<mapsto> ss')) (mem_view ?w)"
      and ss': "tenant_list_of ss' = [''f0000000-9999'', ''0a1b2c3d-4e5f'']" "registry_consistent ss'"
    by fastforce
  from arg_cong [OF after, of cl_stateful_sets] ss' show ?thesis
    by (intro exI [of _ ss']) (simp add: mem_view_def)
qed

theorem register_remove_roundtrip_witness:
  "tenant_list_of (store_tenant_list (without ''0a1b2c3d-4e5f''
      (store_tenant_list [''f0000000-9999'', ''0a1b2c3d-4e5f''] (sample_set [''f0000000-9999''])))
      (store_tenant_list [''f0000000-9999'', ''0a1b2c3d-4e5f''] (sample_set [''f0000000-9999'']))) =
    [''f0000000-9999'']"
proof -
  have list: "tenant_list_of (sample_set [''f0000000-9999'']) = [''f0000000-9999'']"
    unfolding sample_set_def by (rule registry.members_store) (simp add: valid_uid_def)
  have "registry_consistent (sample_set [''f0000000-9999''])"
    unfolding sample_set_def by (rule registry.consistent_store) (simp_all add: valid_uid_def)
  from register_remove_roundtrip [OF this, of "''0a1b2c3d-4e5f''"] show ?thesis
    by (simp add: list valid_uid_def)
qed

theorem tenant_removed_witness:
  "\<exists>ss. shared_instance (mem_view (snd (removeTenantFromSharedInstance mem_runtime ''0a1b2c3d-4e5f''
      (sample_shared_world [''0a1b2c3d-4e5f'', ''f0000000-9999''])))) ''postgresql-abcdef'' = Some ss \<and>
    ''0a1b2c3d-4e5f'' \<notin> set (tenant_list_of ss)"
proof -
  let ?w = "sample_shared_world [''0a1b2c3d-4e5f'', ''f0000000-9999'']"
  let ?run = "removeTenantFromSharedInstance mem_runtime ''0a1b2c3d-4e5f'' ?w"
  have run: "?run = (Ok (), snd ?run)" by (rule evaluated) code_simp
  have "shared_instance (mem_view (snd ?run)) ''postgresql-abcdef'' \<noteq> None" by code_simp
  then obtain ss where ss: "shared_instance (mem_view (snd ?run)) ''postgresql-abcdef'' = Some ss" by auto
  have "registries_consistent (mem_view ?w)" by (rule sample_consistent) (simp_all add: valid_uid_def)
  moreover have "m = ''postgresql-abcdef''" if "shared_instance (mem_view ?w) m = Some sm" for m sm
    using that by (simp only: sample_set_shared split: if_splits) simp
  ultimately have "''0a1b2c3d-4e5f'' \<notin> set (tenant_list_of ss)"
    using tenant_removed [OF mem_client, OF run _ _ ss] by blast
  with ss show ?thesis by blast
qed

theorem cleanup_complete_witness:
  "\<exists>i. ''postgresql-abcdef'' = instance_name i \<and>
    gone (cl_stateful_sets (mem_view (sample_shared_world [])))
      (cl_stateful_sets (mem_view (snd (cleanupSharedPostgreSQLInstance mem_runtime ''postgresql-abcdef''
        (sample_shared_world []))))) (''shared-services'', ''postgresql-abcdef'')"
proof -
  let ?run = "cleanupSharedPostgreSQLInstance mem_runtime ''postgresql-abcdef'' (sample_shared_world [])"
  have "?run = (Ok (), snd ?run)" by (rule evaluated) code_simp
  from cleanup_complete [OF mem_client this] show ?thesis by blast
qed

theorem cleanup_only_deletes_witness:
  "only_reaps (mem_view (sample_shared_world []))
    (mem_view (snd (cleanupSharedPostgreSQLInstance mem_runtime ''postgresql-abcdef'' (sample_shared_world []))))"
  by (rule cleanup_only_deletes [OF mem_client, of "''postgresql-abcdef''" _
        "fst (cleanupSharedPostgreSQLInstance mem_runtime ''postgresql-abcdef'' (sample_shared_world []))"]) simp

theorem cleanup_refuses_foreign_names_witness:
  "mem_view (snd (cleanupSharedPostgreSQLInstance mem_runtime ''web-0'' (sample_shared_world []))) =
    mem_view (sample_shared_world [])"
  using cleanup_refuses_foreign_names [OF mem_client, of "''web-0''" "sample_shared_world []"
      "fst (cleanupSharedPostgreSQLInstance mem_runtime ''web-0'' (sample_shared_world []))"
      "snd (cleanupSharedPostgreSQLInstance mem_runtime ''web-0'' (sample_shared_world []))"] by simp

theorem unlisted_removal_is_noop_witness:
  "mem_view (snd (removeTenantFromSharedInstance mem_runtime ''0a1b2c3d-4e5f'' (sample_shared_world [''f0000000-9999'']))) =
    mem_view (sample_shared_world [''f0000000-9999''])"
proof -
  let ?run = "removeTenantFromSharedInstance mem_runtime ''0a1b2c3d-4e5f'' (sample_shared_world [''f0000000-9999''])"
  have list: "tenant_list_of (sample_set [''f0000000-9999'']) = [''f0000000-9999'']"
    unfolding sample_set_def by (rule registry.members_store) (simp add: valid_uid_def)
  have "''0a1b2c3d-4e5f'' \<notin> set (tenant_list_of ss)"
    if "shared_instance (mem_view (sample_shared_world [''f0000000-9999''])) n = Some ss" for n ss
    using that by (auto simp: sample_set_shared list split: if_splits)
  then show ?thesis
    using unlisted_removal_is_noop [OF mem_client, of "''0a1b2c3d-4e5f''" "sample_shared_world [''f0000000-9999'']"
      "fst ?run" "snd ?run"] by simp
qed

end
