(* ===== verification/Postgres.thy ===== *)
theory Postgres
  imports PgShared
begin

text \<open>
  The entry points of the database part, \<open>CreatePostgreSQLForTenant\<close> and \<open>DeletePostgreSQLForTenant\<close>
  (\<open>internal/controller/utils_postgres.go\<close>), and the properties of the registries of the shared
  instances under both.
\<close>

section \<open>The operations\<close>

text \<open>
  Any error of the search, a failed \<open>List\<close> included, leads to a new instance. On an instance that
  was found the master secret is named after the last six characters of the instance's name.
\<close>

definition joinSharedInstance ::
  "('w, 'q) runtime \<Rightarrow> 'q tenant_environment \<Rightarrow> string \<Rightarrow> ('w, unit) prog" where
  "joinSharedInstance rt tenantEnv statefulSetName =
     and_then (createTenantPostgreSQLSecret rt tenantEnv statefulSetName ''shared-services'') (\<lambda>tenantDbCreds.
     and_then (slice_last statefulSetName 6) (\<lambda>id.
       createDatabaseInitJob rt tenantEnv (''postgresql-master-secret-'' @ id) ''shared-services'' tenantDbCreds))"

definition CreatePostgreSQLForTenant :: "('w, 'q) runtime \<Rightarrow> 'q tenant_environment \<Rightarrow> ('w, unit) prog" where
  "CreatePostgreSQLForTenant rt tenantEnv =
     (if DedicatedInstance (Database (Spec tenantEnv))
      then and_then (wrapping ''failed to create dedicated PostgreSQL instance''
                       (createPostgreSQLInstance rt tenantEnv)) (\<lambda>_. ret ())
      else
        and_then
          (on_error (findAvailableSharedInstance rt)
             (\<lambda>_. wrapping ''failed to create shared PostgreSQL instance'' (createPostgreSQLInstance rt tenantEnv))
             (\<lambda>statefulSetName. and_then (joinSharedInstance rt tenantEnv statefulSetName)
                (\<lambda>_. ret statefulSetName)))
          (\<lambda>statefulSetName.
             and_then (wrapping ''failed to add tenant to shared PostgreSQL instance''
                         (addTenantToSharedInstance rt tenantEnv statefulSetName)) (\<lambda>_. ret ())))"

definition DeletePostgreSQLForTenant :: "('w, 'q) runtime \<Rightarrow> 'q tenant_environment \<Rightarrow> ('w, unit) prog" where
  "DeletePostgreSQLForTenant rt tenantEnv =
     (if DedicatedInstance (Database (Spec tenantEnv)) then ret ()
      else removeTenantFromSharedInstance rt (uid_of tenantEnv))"

section \<open>Registries under provisioning\<close>

lemma vsteps_mono: "\<lbrakk>vsteps view P m; \<And>v v'. P v v' \<Longrightarrow> Q v v'\<rbrakk> \<Longrightarrow> vsteps view Q m"
  by (rule vstepsI) (auto dest: vsteps_run)

abbreviation keeps_registries :: "'q cluster \<Rightarrow> 'q cluster \<Rightarrow> bool" where
  "keeps_registries v v' \<equiv> registries_consistent v \<longrightarrow> registries_consistent v'"

lemma keeps_registries_preorder: "preorder_rel keeps_registries"
  by (rule preorder_relI) auto

context cluster_client
begin

lemma keep_sets:
  "vsteps view (\<lambda>v v'. cl_stateful_sets v' = cl_stateful_sets v) (copyPostgreSQLConfigMapToNamespace rt n)"
  "vsteps view (\<lambda>v v'. cl_stateful_sets v' = cl_stateful_sets v) (createPostgreSQLSecret rt n)"
  "vsteps view (\<lambda>v v'. cl_stateful_sets v' = cl_stateful_sets v) (createPostgreSQLService rt t n s)"
  "vsteps view (\<lambda>v v'. cl_stateful_sets v' = cl_stateful_sets v) (createTenantPostgreSQLSecret rt t s n)"
  "vsteps view (\<lambda>v v'. cl_stateful_sets v' = cl_stateful_sets v) (createDatabaseInitJob rt t m n creds)"
  unfolding copyPostgreSQLConfigMapToNamespace_def createPostgreSQLSecret_def
    createPostgreSQLService_def createTenantPostgreSQLSecret_def
    createDatabaseInitJob_def new_tenant_secret_def init_job_literal_def job_quantities_def Let_def
  by (intro vsteps_rules client_steps vsteps_generate preorder_frame; simp)+

lemma keep_registries:
  "vsteps view keeps_registries (createTenantPostgreSQLSecret rt t s n)"
  "vsteps view keeps_registries (createDatabaseInitJob rt t m n creds)"
  by (rule keep_sets [THEN vsteps_mono], simp add: registries_consistent_def)+

lemma literal_quiet: "vsteps view (\<lambda>v v'. v' = v) (postgres_literal rt t n name s)"
  unfolding postgres_literal_def Let_def by (intro vsteps_rules preorder_frame)

end

text \<open>Setting up an instance adds at most stateful sets with an empty list.\<close>

definition adds_empty_sets :: "'q cluster \<Rightarrow> 'q cluster \<Rightarrow> bool" where
  "adds_empty_sets v v' \<longleftrightarrow>
     (\<forall>k ss. cl_stateful_sets v' k = Some ss \<longrightarrow>
        cl_stateful_sets v k = Some ss \<or> (tenant_list_of ss = [] \<and> registry_consistent ss))"

lemma adds_empty_setsD:
  "\<lbrakk>adds_empty_sets v v'; cl_stateful_sets v' k = Some ss\<rbrakk>
    \<Longrightarrow> cl_stateful_sets v k = Some ss \<or> (tenant_list_of ss = [] \<and> registry_consistent ss)"
  unfolding adds_empty_sets_def by blast

lemma adds_empty_sets_same: "cl_stateful_sets v' = cl_stateful_sets v \<Longrightarrow> adds_empty_sets v v'"
  by (simp add: adds_empty_sets_def)

lemma adds_empty_sets_preorder [simp]: "preorder_rel adds_empty_sets"
  by (rule preorder_relI) (simp add: adds_empty_sets_def, unfold adds_empty_sets_def, blast)

lemma adds_empty_sets_consistent: "adds_empty_sets v v' \<Longrightarrow> keeps_registries v v'"
  unfolding registries_consistent_def by (blast dest: adds_empty_setsD)

context cluster_client
begin

lemma literal_create:
  assumes "and_then (postgres_literal rt t n name s) (\<lambda>x.
      and_then (ApiCreate (StatefulSets rt) x) (\<lambda>_. ret name)) w = (r, w')"
  shows "adds_empty_sets (view w) (view w')"
  using assms
proof (cases rule: and_then_cases)
  case (ok x w1)
  then obtain q c where x: "x = postgres_stateful_set t n name s q c" and w1: "w1 = w"
    using postgres_literal_Ok [OF ok(1)] by blast
  with ok(2) obtain r1 where "ApiCreate (StatefulSets rt) x w = (r1, w')"
    by (auto elim!: and_then_cases)
  from sts.create_effect [OF this] show ?thesis
    by (auto simp: adds_empty_sets_def x split: if_splits)
next
  case (err e)
  from vsteps_run [OF literal_quiet err(1)] show ?thesis by (simp add: adds_empty_sets_same)
next
  case (panic e)
  from vsteps_run [OF literal_quiet panic(1)] show ?thesis by (simp add: adds_empty_sets_same)
qed

lemma new_set_empty: "vsteps view adds_empty_sets (createPostgreSQLStatefulSet rt t n s)"
proof -
  have literal: "vsteps view adds_empty_sets (and_then (postgres_literal rt t n name s) (\<lambda>x.
      and_then (ApiCreate (StatefulSets rt) x) (\<lambda>_. ret name)))" for name
    by (rule vstepsI) (rule literal_create)
  show ?thesis
    unfolding createPostgreSQLStatefulSet_def Let_def
    by (intro vsteps_rules sts.vsteps_reads adds_empty_sets_preorder literal)
qed

lemmas keep_sets_empty = keep_sets [THEN vsteps_mono, of adds_empty_sets, OF adds_empty_sets_same]

lemma instance_adds_empty: "vsteps view adds_empty_sets (createPostgreSQLInstance rt t)"
  unfolding createPostgreSQLInstance_def Let_def
  by (intro vsteps_rules adds_empty_sets_preorder keep_sets_empty new_set_empty)

lemma instance_keeps_registries: "vsteps view keeps_registries (createPostgreSQLInstance rt t)"
  by (rule vsteps_mono [OF instance_adds_empty adds_empty_sets_consistent])

lemma CreatePostgreSQL_keeps_registries:
  assumes "valid_uid (uid_of t)"
  shows "vsteps view keeps_registries (CreatePostgreSQLForTenant rt t)"
proof -
  have find: "vsteps view keeps_registries (findAvailableSharedInstance rt)"
    unfolding findAvailableSharedInstance_def
    by (intro vsteps_rules sts.vsteps_reads keeps_registries_preorder)
  have join: "vsteps view keeps_registries (joinSharedInstance rt t n)" for n
    unfolding joinSharedInstance_def by (intro vsteps_rules keeps_registries_preorder keep_registries)
  have add: "vsteps view keeps_registries (addTenantToSharedInstance rt t n)" for n
    using add_consistent [OF _ assms] by (intro vstepsI) blast
  show ?thesis
    unfolding CreatePostgreSQLForTenant_def
    by (intro vsteps_rules keeps_registries_preorder find join add instance_keeps_registries)
qed

lemma DeletePostgreSQL_keeps_registries: "vsteps view keeps_registries (DeletePostgreSQLForTenant rt t)"
proof -
  have "vsteps view keeps_registries (removeTenantFromSharedInstance rt (uid_of t))"
    using remove_consistent by (intro vstepsI) blast
  then show ?thesis
    unfolding DeletePostgreSQLForTenant_def by (intro vsteps_rules keeps_registries_preorder)
qed

end

section \<open>What provisioning achieves\<close>

context cluster_client
begin

lemma join_Ok:
  assumes "joinSharedInstance rt t n w = (Ok (), w')"
  shows "cl_secrets (view w') (''tenant-'' @ uid_of t, ''database-secret'') \<noteq> None"
    and "cl_jobs (view w') (''shared-services'', ''db-init-'' @ take 8 (uid_of t)) \<noteq> None"
    and "cl_stateful_sets (view w') = cl_stateful_sets (view w)"
proof -
  obtain creds w1 i where secret: "createTenantPostgreSQLSecret rt t n ''shared-services'' w = (Ok creds, w1)"
    and job: "createDatabaseInitJob rt t (''postgresql-master-secret-'' @ i) ''shared-services'' creds w1 = (Ok (), w')"
    using assms unfolding joinSharedInstance_def
    by (elim and_then_Ok slice_last_Ok) (hypsubst, rule that)
  show "cl_secrets (view w') (''tenant-'' @ uid_of t, ''database-secret'') \<noteq> None"
    by (intro only_adds_present(1) [OF vsteps_run [OF instance_adds(6) job]] pg_secret.provided [OF secret])
  show "cl_jobs (view w') (''shared-services'', ''db-init-'' @ take 8 (uid_of t)) \<noteq> None"
    by (rule pg_job.provided [OF job])
  show "cl_stateful_sets (view w') = cl_stateful_sets (view w)"
    using vsteps_run [OF keep_sets(4) secret] vsteps_run [OF keep_sets(5) job] by simp
qed

lemma CreatePostgreSQL_shared_cases:
  assumes "CreatePostgreSQLForTenant rt t w = (Ok (), w')" and "\<not> DedicatedInstance (Database (Spec t))"
  obtains (joined) n w0 w1 where "findAvailableSharedInstance rt w = (Ok n, w0)"
      and "joinSharedInstance rt t n w0 = (Ok (), w1)" and "addTenantToSharedInstance rt t n w1 = (Ok (), w')"
  | (created) n e w0 w1 where "findAvailableSharedInstance rt w = (Err e, w0)"
      and "createPostgreSQLInstance rt t w0 = (Ok n, w1)" and "addTenantToSharedInstance rt t n w1 = (Ok (), w')"
proof -
  obtain n w1 where pick: "on_error (findAvailableSharedInstance rt)
             (\<lambda>_. wrapping ''failed to create shared PostgreSQL instance'' (createPostgreSQLInstance rt t))
             (\<lambda>statefulSetName. and_then (joinSharedInstance rt t statefulSetName)
                (\<lambda>_. ret statefulSetName)) w = (Ok n, w1)"
    and add: "and_then (wrapping ''failed to add tenant to shared PostgreSQL instance''
                         (addTenantToSharedInstance rt t n)) (\<lambda>_. ret ()) w1 = (Ok (), w')"
    using assms unfolding CreatePostgreSQLForTenant_def by (auto elim: and_then_Ok)
  from add have add': "addTenantToSharedInstance rt t n w1 = (Ok (), w')"
    by (auto elim!: and_then_Ok)
  from pick show ?thesis
  proof (cases rule: on_error_Ok [consumes 1, case_names found missing])
    case (found m w0)
    from found(2) have "joinSharedInstance rt t n w0 = (Ok (), w1)" and "m = n"
      by (auto elim!: and_then_Ok)
    with found(1) add' show ?thesis by (blast intro: joined)
  next
    case (missing e w0)
    with add' show ?thesis by (intro created) simp_all
  qed
qed

lemma registry_room:
  assumes "registries_consistent v" and "shared_instance v n = Some ss"
    and "tenant_count_of ss = Some c" and "c < 10"
  shows "length (tenant_list_of ss) < 10"
proof -
  have "registry_consistent ss"
    using assms(1,2) by (auto simp: registries_consistent_def shared_instance_Some)
  from registry.count_reading [OF this] assms(3,4) show ?thesis
    by (simp add: tenant_count_of_def split: if_splits)
qed

lemma shared_provisioned:
  assumes run: "CreatePostgreSQLForTenant rt t w = (Ok (), w')" and shared: "\<not> DedicatedInstance (Database (Spec t))"
    and cons: "registries_consistent (view w)" and valid: "valid_uid (uid_of t)"
  shows "\<exists>n ss. cl_stateful_sets (view w') (''shared-services'', n) = Some ss \<and>
    uid_of t \<in> set (tenant_list_of ss) \<and> registry_consistent ss \<and>
    cl_secrets (view w') (''tenant-'' @ uid_of t, ''database-secret'') \<noteq> None \<and>
    cl_jobs (view w') (''shared-services'', ''db-init-'' @ take 8 (uid_of t)) \<noteq> None \<and>
    ((\<exists>w0 old. findAvailableSharedInstance rt w = (Ok n, w0) \<and> shared_instance (view w) n = Some old \<and>
        length (tenant_list_of old) < 10 \<and>
        set (tenant_list_of ss) = insert (uid_of t) (set (tenant_list_of old))) \<or>
     (\<exists>e w0 w1 i. findAvailableSharedInstance rt w = (Err e, w0) \<and> createPostgreSQLInstance rt t w0 = (Ok n, w1) \<and>
        is_instance_id i \<and> n = instance_name i \<and>
        (cl_stateful_sets (view w) (''shared-services'', n) = None \<longrightarrow> tenant_list_of ss = [uid_of t])))"
proof -
  have finish: "\<exists>ss ss'. cl_stateful_sets (view w1) (''shared-services'', n) = Some ss \<and>
      cl_stateful_sets (view w') (''shared-services'', n) = Some ss' \<and>
      tenant_list_of ss' =
        (if uid_of t \<in> set (tenant_list_of ss) then tenant_list_of ss else tenant_list_of ss @ [uid_of t]) \<and>
      registry_consistent ss' \<and> cl_secrets (view w') = cl_secrets (view w1) \<and> cl_jobs (view w') = cl_jobs (view w1)"
    if "addTenantToSharedInstance rt t n w1 = (Ok (), w')" and "registries_consistent (view w1)" for n w1
    using add_registers [OF that valid] by auto
  from run shared show ?thesis
  proof (cases rule: CreatePostgreSQL_shared_cases)
    case (joined n w0 w1)
    note find = find_Ok [OF joined(1)] and join = join_Ok [OF joined(2)]
    then obtain old c where old: "shared_instance (view w) n = Some old" "tenant_count_of old = Some c" "c < 10"
      by blast
    have sets: "cl_stateful_sets (view w1) = cl_stateful_sets (view w)" using find join(3) by simp
    have cons1: "registries_consistent (view w1)" using cons by (simp add: registries_consistent_def sets)
    have room: "length (tenant_list_of old) < 10"
      using registry_room [OF cons old] .
    obtain ss ss' where s: "cl_stateful_sets (view w1) (''shared-services'', n) = Some ss"
        "cl_stateful_sets (view w') (''shared-services'', n) = Some ss'"
        "tenant_list_of ss' =
          (if uid_of t \<in> set (tenant_list_of ss) then tenant_list_of ss else tenant_list_of ss @ [uid_of t])"
        "registry_consistent ss'" "cl_secrets (view w') = cl_secrets (view w1)" "cl_jobs (view w') = cl_jobs (view w1)"
      using finish [OF joined(3) cons1] by blast
    have "ss = old" using s(1) old(1) by (simp add: sets shared_instance_Some)
    with s(3) have members: "uid_of t \<in> set (tenant_list_of ss')"
        "set (tenant_list_of ss') = insert (uid_of t) (set (tenant_list_of old))" by auto
    show ?thesis
      using s(2,4) members joined(1) old(1) room join(1,2) unfolding s(5,6) [symmetric] by blast
  next
    case (created n e w0 w1)
    have w0: "view w0 = view w" using find_Err [OF created(1)] by blast
    obtain i where i: "is_instance_id i" "n = instance_name i"
      and objects: "cl_secrets (view w1) (''tenant-'' @ uid_of t, ''database-secret'') \<noteq> None"
        "cl_jobs (view w1) (''shared-services'', ''db-init-'' @ take 8 (uid_of t)) \<noteq> None"
      using instance_objects [OF created(2)] shared by auto
    have cons1: "registries_consistent (view w1)"
      using vsteps_run [OF instance_keeps_registries created(2)] cons by (simp add: w0)
    obtain ss ss' where s: "cl_stateful_sets (view w1) (''shared-services'', n) = Some ss"
        "cl_stateful_sets (view w') (''shared-services'', n) = Some ss'"
        "tenant_list_of ss' =
          (if uid_of t \<in> set (tenant_list_of ss) then tenant_list_of ss else tenant_list_of ss @ [uid_of t])"
        "registry_consistent ss'" "cl_secrets (view w') = cl_secrets (view w1)" "cl_jobs (view w') = cl_jobs (view w1)"
      using finish [OF created(3) cons1] by blast
    from adds_empty_setsD [OF vsteps_run [OF instance_adds_empty created(2)] s(1)]
    have alone: "cl_stateful_sets (view w) (''shared-services'', n) = None \<longrightarrow> tenant_list_of ss' = [uid_of t]"
      by (auto simp: w0 s(3))
    have member: "uid_of t \<in> set (tenant_list_of ss')" by (simp add: s(3))
    note origin = created(1,2) i alone
    have "\<exists>e w0 w1 i. findAvailableSharedInstance rt w = (Err e, w0) \<and> createPostgreSQLInstance rt t w0 = (Ok n, w1) \<and>
        is_instance_id i \<and> n = instance_name i \<and>
        (cl_stateful_sets (view w) (''shared-services'', n) = None \<longrightarrow> tenant_list_of ss' = [uid_of t])"
      by (intro exI conjI) (rule origin)+
    then show ?thesis
      using s(2,4) objects member unfolding s(5,6)
      by (intro exI [of _ n] exI [of _ ss'] conjI) simp_all
  qed
qed

end

section \<open>Properties\<close>

text \<open>C10: provisioning a shared database that succeeds leaves the tenant registered with an instance of
  the shared namespace, whose list and count agree, with the tenant's credentials and its init job
  in place. Either the search found that instance, which then had fewer than ten tenants and
  gained this one, or the search failed and the instance is the one created in this run, whose only
  tenant is this one unless the random name was already in use.\<close>

theorem shared_tenant_provisioned:
  assumes "cluster_client rt view" and "CreatePostgreSQLForTenant rt t w = (Ok (), w')"
    and "\<not> DedicatedInstance (Database (Spec t))"
    and "registries_consistent (view w)" and "valid_uid (uid_of t)"
  shows "\<exists>n ss. cl_stateful_sets (view w') (''shared-services'', n) = Some ss \<and>
    uid_of t \<in> set (tenant_list_of ss) \<and> registry_consistent ss \<and>
    cl_secrets (view w') (''tenant-'' @ uid_of t, ''database-secret'') \<noteq> None \<and>
    cl_jobs (view w') (''shared-services'', ''db-init-'' @ take 8 (uid_of t)) \<noteq> None \<and>
    ((\<exists>w0 old. findAvailableSharedInstance rt w = (Ok n, w0) \<and> shared_instance (view w) n = Some old \<and>
        length (tenant_list_of old) < 10 \<and>
        set (tenant_list_of ss) = insert (uid_of t) (set (tenant_list_of old))) \<or>
     (\<exists>e w0 w1 i. findAvailableSharedInstance rt w = (Err e, w0) \<and> createPostgreSQLInstance rt t w0 = (Ok n, w1) \<and>
        is_instance_id i \<and> n = instance_name i \<and>
        (cl_stateful_sets (view w) (''shared-services'', n) = None \<longrightarrow> tenant_list_of ss = [uid_of t])))"
  by (rule cluster_client.shared_provisioned [OF assms])

text \<open>The invariant of the shared instances (no tenant listed twice, the count label equal to the
  length of the list) is kept by provisioning, whatever its outcome.\<close>

theorem provisioning_keeps_registries:
  assumes "cluster_client rt view" and "CreatePostgreSQLForTenant rt t w = (r, w')"
    and "registries_consistent (view w)" and "valid_uid (uid_of t)"
  shows "registries_consistent (view w')"
  using vsteps_run [OF cluster_client.CreatePostgreSQL_keeps_registries [OF assms(1,4)] assms(2)] assms(3) by blast

text \<open>The same invariant is kept by deprovisioning, also when the update, the cleanup of the emptied
  instance or the removal job fails half-way.\<close>

theorem deprovisioning_keeps_registries:
  assumes "cluster_client rt view" and "DeletePostgreSQLForTenant rt t w = (r, w')"
    and "registries_consistent (view w)"
  shows "registries_consistent (view w')"
  using vsteps_run [OF cluster_client.DeletePostgreSQL_keeps_registries [OF assms(1)] assms(2)] assms(3) by blast

section \<open>Witnesses\<close>

lemma sample_uid_valid: "valid_uid (uid_of (sample_tenant d))"
  by (simp add: valid_uid_def)

lemma empty_consistent: "registries_consistent (mem_view empty_world)"
  by (simp add: registries_consistent_def mem_view_def empty_world_def stored_def)

theorem shared_tenant_provisioned_witness:
  "\<exists>ss. cl_stateful_sets (mem_view (snd (CreatePostgreSQLForTenant mem_runtime (sample_tenant False)
      (sample_shared_world [''f0000000-9999''])))) (''shared-services'', ''postgresql-abcdef'') = Some ss \<and>
    set (tenant_list_of ss) = {''0a1b2c3d-4e5f'', ''f0000000-9999''}"
proof -
  let ?w = "sample_shared_world [''f0000000-9999'']"
  let ?run = "CreatePostgreSQLForTenant mem_runtime (sample_tenant False) ?w"
  have run: "?run = (Ok (), snd ?run)" by (rule evaluated) code_simp
  have found: "fst (findAvailableSharedInstance mem_runtime ?w) = Ok ''postgresql-abcdef''" by code_simp
  have "registries_consistent (mem_view ?w)" by (rule sample_consistent) (simp_all add: valid_uid_def)
  from shared_tenant_provisioned [OF mem_client, OF run _ this sample_uid_valid] obtain n ss w0 old where
    "cl_stateful_sets (mem_view (snd ?run)) (''shared-services'', n) = Some ss"
    "findAvailableSharedInstance mem_runtime ?w = (Ok n, w0)" "shared_instance (mem_view ?w) n = Some old"
    "set (tenant_list_of ss) = insert (uid_of (sample_tenant False)) (set (tenant_list_of old))"
    using found by auto
  moreover from this(2) found have "n = ''postgresql-abcdef''" by simp
  moreover have "tenant_list_of (sample_set [''f0000000-9999'']) = [''f0000000-9999'']"
    unfolding sample_set_def by (rule registry.members_store) (simp add: valid_uid_def)
  ultimately show ?thesis by (simp add: sample_set_shared)
qed

theorem provisioning_keeps_registries_witness:
  "registries_consistent (mem_view (snd (CreatePostgreSQLForTenant mem_runtime (sample_tenant False)
    (sample_shared_world [''f0000000-9999'']))))"
proof -
  let ?run = "CreatePostgreSQLForTenant mem_runtime (sample_tenant False) (sample_shared_world [''f0000000-9999''])"
  have run: "?run = (fst ?run, snd ?run)" by simp
  have "registries_consistent (mem_view (sample_shared_world [''f0000000-9999'']))"
    by (rule sample_consistent) (simp_all add: valid_uid_def)
  from provisioning_keeps_registries [OF mem_client, OF run this sample_uid_valid] show ?thesis .
qed

theorem deprovisioning_keeps_registries_witness:
  "registries_consistent (mem_view (snd (DeletePostgreSQLForTenant mem_runtime (sample_tenant False)
    (sample_shared_world [''0a1b2c3d-4e5f'', ''f0000000-9999'']))))"
proof -
  let ?w = "sample_shared_world [''0a1b2c3d-4e5f'', ''f0000000-9999'']"
  let ?run = "DeletePostgreSQLForTenant mem_runtime (sample_tenant False) ?w"
  have run: "?run = (fst ?run, snd ?run)" by simp
  have "registries_consistent (mem_view ?w)"
    by (rule sample_consistent) (simp_all add: valid_uid_def)
  from deprovisioning_keeps_registries [OF mem_client, OF run this] show ?thesis .
qed

end
