(* ===== verification/Controller.thy ===== *)
theory Controller
  imports Quota Deployment Postgres
begin

text \<open>
  The controller (\<open>internal/controller/tenantenvironment_controller.go\<close>): \<open>Reconcile\<close> with its
  deletion, finalizer and main parts, the handling of pod events and their mapping to tenants,
  and the startup runner. A run returns the requeue flag of \<open>ctrl.Result\<close> and the error, both of
  which Go returns together.
\<close>

section \<open>Requests and outcomes\<close>

record request =
  RequestNamespace :: string
  RequestName :: string

type_synonym outcome = "bool \<times> go_error option"

text \<open>\<open>if err := m; err != nil { return ctrl.Result{}, err }\<close>\<close>

definition or_stop :: "('w, 'a) prog \<Rightarrow> ('a \<Rightarrow> ('w, outcome) prog) \<Rightarrow> ('w, outcome) prog" where
  "or_stop m k = on_error m (\<lambda>err. ret (False, Some err)) k"

text \<open>\<open>return ctrl.Result{Requeue: requeue}, r.Update(ctx, tenantEnv)\<close>\<close>

definition return_update ::
  "('w, 'q) runtime \<Rightarrow> bool \<Rightarrow> 'q tenant_environment \<Rightarrow> ('w, outcome) prog" where
  "return_update rt requeue tenantEnv =
     on_error (ApiUpdate (Tenants rt) tenantEnv) (\<lambda>err. ret (requeue, Some err)) (\<lambda>_. ret (requeue, None))"

section \<open>Deletion\<close>

definition reconcile_deletion :: "('w, 'q) runtime \<Rightarrow> 'q tenant_environment \<Rightarrow> ('w, outcome) prog" where
  "reconcile_deletion rt tenantEnv =
     (if ContainsFinalizer rt tenantEnv tenantEnvironmentFinalizer
      then
        or_stop (DeletePostgreSQLForTenant rt tenantEnv) (\<lambda>_.
        or_stop (if ResourceQuotas (Spec tenantEnv) \<noteq> None then DeleteResourceQuotaForTenant rt tenantEnv else ret ()) (\<lambda>_.
        or_stop (DeleteNamespaceForTenant rt (uid_of tenantEnv)) (\<lambda>_.
          return_update rt False (RemoveFinalizer rt tenantEnv tenantEnvironmentFinalizer))))
      else ret (False, None))"

section \<open>The first reconciliations\<close>

definition reconcile_finalizer :: "('w, 'q) runtime \<Rightarrow> 'q tenant_environment \<Rightarrow> ('w, outcome) prog" where
  "reconcile_finalizer rt tenantEnv =
     (let tenantEnv = AddFinalizer rt tenantEnv tenantEnvironmentFinalizer in
      if CreatedAt (Status tenantEnv) = None
      then
        and_then (TimeNow rt) (\<lambda>now.
        or_stop (StatusUpdate rt (tenantEnv\<lparr>Status := (Status tenantEnv)\<lparr>CreatedAt := Some now\<rparr>\<rparr>)) (\<lambda>tenantEnv.
          return_update rt True tenantEnv))
      else return_update rt True tenantEnv)"

section \<open>The main part\<close>

definition set_database_status :: "string \<Rightarrow> 'q tenant_environment \<Rightarrow> 'q tenant_environment" where
  "set_database_status s tenantEnv = tenantEnv\<lparr>Status := (Status tenantEnv)\<lparr>DatabaseStatus := s\<rparr>\<rparr>"

definition reconcile_database ::
  "('w, 'q) runtime \<Rightarrow> 'q tenant_environment \<Rightarrow> ('q tenant_environment \<Rightarrow> ('w, outcome) prog) \<Rightarrow> ('w, outcome) prog" where
  "reconcile_database rt tenantEnv k =
     (if DatabaseStatus (Status tenantEnv) = '''' \<or> DatabaseStatus (Status tenantEnv) = ''Unassigned''
      then
        or_stop (StatusUpdate rt (set_database_status ''Provisioning'' tenantEnv)) (\<lambda>tenantEnv.
        or_stop (CreatePostgreSQLForTenant rt tenantEnv) (\<lambda>_.
        or_stop (StatusUpdate rt (set_database_status ''Assigned'' tenantEnv)) k))
      else k tenantEnv)"

definition reconcile_main :: "('w, 'q) runtime \<Rightarrow> 'q tenant_environment \<Rightarrow> ('w, outcome) prog" where
  "reconcile_main rt tenantEnv =
     or_stop (CreateNamespaceForTenant rt tenantEnv) (\<lambda>_.
     or_stop (if ResourceQuotas (Spec tenantEnv) \<noteq> None then CreateResourceQuotaForTenant rt tenantEnv else ret ()) (\<lambda>_.
     reconcile_database rt tenantEnv (\<lambda>tenantEnv.
     or_stop (CreateTenantServiceDeployment rt tenantEnv) (\<lambda>_.
       ret (False, None)))))"

section \<open>Pod events\<close>

definition pod_is_ready :: "pod \<Rightarrow> bool" where
  "pod_is_ready pod =
     list_ex (\<lambda>c. ConditionType c = ''Ready'' \<and> ConditionStatus c = ''True'') (PodConditions pod)"

definition mark_ready :: "('w, 'q) runtime \<Rightarrow> 'q tenant_environment \<Rightarrow> ('w, outcome) prog" where
  "mark_ready rt tenantEnv =
     (if ReadyAt (Status tenantEnv) = None
      then
        and_then (TimeNow rt) (\<lambda>now.
          let tenantEnv = tenantEnv\<lparr>Status := (Status tenantEnv)\<lparr>ReadyAt := Some now, Phase := ''Ready''\<rparr>\<rparr>;
              dedicatedDB = (if DedicatedInstance (Database (Spec tenantEnv)) then ''true'' else ''false'')
          in and_then
               (case CreatedAt (Status tenantEnv) of
                  None \<Rightarrow> ret ()
                | Some created \<Rightarrow> ObserveDuration rt dedicatedDB (duration_Seconds (time_Sub now created))) (\<lambda>_.
             or_stop (StatusUpdate rt tenantEnv) (\<lambda>_. ret (False, None))))
      else ret (False, None))"

definition handlePodEventFromMapping :: "('w, 'q) runtime \<Rightarrow> request \<Rightarrow> ('w, outcome) prog" where
  "handlePodEventFromMapping rt req =
     (case strings_Split CHR '':'' (RequestName req) of
        [_, podName, tenantEnvName] \<Rightarrow>
          on_error (GetTenantEnvironment rt (RequestNamespace req) tenantEnvName)
            (\<lambda>err. ret (False, IgnoreNotFound err))
            (\<lambda>tenantEnv.
               on_error (ApiGet (Pods rt) (''tenant-'' @ uid_of tenantEnv) podName)
                 (\<lambda>err. if IgnoreNotFound err = None then ret (False, None) else ret (False, Some err))
                 (\<lambda>pod.
                    if gm_lookup (labels_of pod) ''tenant.core.mellifluus.io/tenant-uid'' = None
                    then ret (False, None)
                    else if pod_is_ready pod then mark_ready rt tenantEnv else ret (False, None)))
      | _ \<Rightarrow> ret (False, None))"

text \<open>The type assertion \<open>obj.(*corev1.Pod)\<close> fails on \<open>None\<close>; \<open>nil\<close> is the empty list of requests.\<close>

definition podToTenantEnvironment :: "('w, 'q) runtime \<Rightarrow> pod option \<Rightarrow> ('w, request list) prog" where
  "podToTenantEnvironment rt obj =
     (case obj of
        None \<Rightarrow> ret []
      | Some pod \<Rightarrow>
          if gm_lookup (labels_of pod) ''tenant.core.mellifluus.io/component'' \<noteq> Some ''backend-service'' then ret []
          else
            (case gm_lookup (labels_of pod) ''tenant.core.mellifluus.io/tenant-uid'' of
               None \<Rightarrow> ret []
             | Some tenantUID \<Rightarrow>
                 on_error (ApiList (Tenants rt) ''default'' []) (\<lambda>_. ret [])
                   (\<lambda>items.
                      case find (\<lambda>tenantEnv. uid_of tenantEnv = tenantUID) items of
                        None \<Rightarrow> ret []
                      | Some tenantEnv \<Rightarrow>
                          ret [\<lparr>RequestNamespace = namespace_of tenantEnv,
                                RequestName = ''pod-event:'' @ name_of pod @ '':'' @ name_of tenantEnv\<rparr>])))"

section \<open>Reconcile and Start\<close>

definition Reconcile :: "('w, 'q) runtime \<Rightarrow> request \<Rightarrow> ('w, outcome) prog" where
  "Reconcile rt req =
     (if strings_HasPrefix (RequestName req) ''pod-event:'' then handlePodEventFromMapping rt req
      else if RequestNamespace req \<noteq> ''default'' then ret (False, None)
      else
        on_error (GetTenantEnvironment rt (RequestNamespace req) (RequestName req))
          (\<lambda>err. ret (False, IgnoreNotFound err))
          (\<lambda>tenantEnv.
             if MetaDeletionTimestamp (ObjectMeta tenantEnv) \<noteq> None then reconcile_deletion rt tenantEnv
             else if \<not> ContainsFinalizer rt tenantEnv tenantEnvironmentFinalizer then reconcile_finalizer rt tenantEnv
             else reconcile_main rt tenantEnv))"

definition Start :: "('w, 'q) runtime \<Rightarrow> ('w, unit) prog" where
  "Start rt = and_then (ensureSharedServicesNamespace rt) (\<lambda>_.
     and_then (ensureSharedPostgreSQLConfigMap rt) (\<lambda>_. ret ()))"

section \<open>What the parts leave alone\<close>

definition same_tenants :: "'q cluster \<Rightarrow> 'q cluster \<Rightarrow> bool" where
  "same_tenants v v' \<longleftrightarrow> cl_tenants v' = cl_tenants v \<and> cl_pods v' = cl_pods v \<and> cl_observed v' = cl_observed v"

lemma same_tenants_preorder [simp]: "preorder_rel same_tenants"
  by (rule preorder_relI) (auto simp: same_tenants_def)

lemma same_tenants_updates [simp]:
  "same_tenants v (cl_namespaces_update f1 v)" "same_tenants v (cl_secrets_update f2 v)"
  "same_tenants v (cl_config_maps_update f3 v)" "same_tenants v (cl_quotas_update f4 v)"
  "same_tenants v (cl_deployments_update f5 v)" "same_tenants v (cl_stateful_sets_update f6 v)"
  "same_tenants v (cl_services_update f7 v)" "same_tenants v (cl_jobs_update f8 v)"
  "same_tenants v (cl_claims_update f9 v)"
  by (simp_all add: same_tenants_def)

lemma vsteps_sync_desired: "preorder_rel P \<Longrightarrow> vsteps view P (sync_desired pkg desired hard upd)"
proof (induction desired arbitrary: hard upd)
  case Nil
  then show ?case unfolding sync_desired.simps by (intro vsteps_rules)
next
  case (Cons kv rest)
  then show ?case by (cases kv) (simp only: sync_desired.simps, intro vsteps_rules; simp)
qed

lemma vsteps_roll_out: "preorder_rel P \<Longrightarrow> vsteps view P (roll_out t d)"
  unfolding roll_out_def Let_def
  by (auto intro!: vsteps_rules split: prod.splits list.splits)

context cluster_client
begin

lemma utils_same_tenants:
  "vsteps view same_tenants (CreateNamespaceForTenant rt t)"
  "vsteps view same_tenants (DeleteNamespaceForTenant rt u)"
  "vsteps view same_tenants (ensureSharedServicesNamespace rt)"
  "vsteps view same_tenants (DeleteResourceQuotaForTenant rt t)"
  "vsteps view same_tenants (ensureSharedPostgreSQLConfigMap rt)"
  unfolding CreateNamespaceForTenant_def DeleteNamespaceForTenant_def ensureSharedServicesNamespace_def
    DeleteResourceQuotaForTenant_def ensureSharedPostgreSQLConfigMap_def shared_config_literal_def Let_def
  by (intro vsteps_rules client_steps vsteps_read_config same_tenants_preorder; simp)+

lemma quota_same_tenants: "vsteps view same_tenants (CreateResourceQuotaForTenant rt t)"
  unfolding CreateResourceQuotaForTenant_def Let_def split_def
  by (intro vsteps_rules client_steps vsteps_sync_desired same_tenants_preorder; simp)

lemma deployment_same_tenants: "vsteps view same_tenants (CreateTenantServiceDeployment rt t)"
  unfolding CreateTenantServiceDeployment_def Let_def split_def
  by (intro vsteps_rules client_steps vsteps_roll_out same_tenants_preorder; simp)

lemma instance_same_tenants: "vsteps view same_tenants (createPostgreSQLInstance rt t)"
  by (rule vsteps_mono [OF createPostgreSQLInstance_adds]) (simp add: only_adds_def same_tenants_def)

lemma CreatePostgreSQL_same_tenants: "vsteps view same_tenants (CreatePostgreSQLForTenant rt t)"
proof -
  have join: "vsteps view same_tenants (joinSharedInstance rt t n)" for n
  proof (rule vsteps_mono [of view only_adds])
    show "vsteps view only_adds (joinSharedInstance rt t n)"
      unfolding joinSharedInstance_def by (intro vsteps_rules only_adds_preorder instance_adds)
  qed (simp add: only_adds_def same_tenants_def)
  show ?thesis
    unfolding CreatePostgreSQLForTenant_def findAvailableSharedInstance_def addTenantToSharedInstance_def
      add_attempt_def Let_def
    by (intro vsteps_rules client_steps join instance_same_tenants same_tenants_preorder; simp)
qed

lemma DeletePostgreSQL_same_tenants: "vsteps view same_tenants (DeletePostgreSQLForTenant rt t)"
proof -
  have cleanup: "vsteps view same_tenants (cleanupSharedPostgreSQLInstance rt n)" for n
    by (rule vsteps_mono [OF cleanupSharedPostgreSQLInstance_reaps]) (simp add: only_reaps_def same_tenants_def)
  have job: "vsteps view same_tenants (createRemovalJob rt u n)" for u n
    by (rule vsteps_mono [OF vsteps_remove_job]) (simp add: only_adds_def same_tenants_def)
  have loop: "vsteps view same_tenants (remove_from_first rt u xs)" for u xs
  proof (induction xs)
    case Nil
    show ?case unfolding remove_from_first.simps by (intro vsteps_rules same_tenants_preorder)
  next
    case (Cons x xs)
    show ?case unfolding remove_from_first.simps Let_def
      by (intro vsteps_rules client_steps cleanup job Cons.IH same_tenants_preorder; simp)
  qed
  show ?thesis
    unfolding DeletePostgreSQLForTenant_def removeTenantFromSharedInstance_def
    by (intro vsteps_rules client_steps loop same_tenants_preorder)
qed

end

section \<open>Cases of a run\<close>

lemma or_stop_cases [consumes 1, case_names ok err panic]:
  assumes "or_stop m k w = (r, w')"
  obtains a w1 where "m w = (Ok a, w1)" and "k a w1 = (r, w')"
  | e where "m w = (Err e, w')" and "r = Ok (False, Some e)"
  | s where "m w = (Panic s, w')" and "r = Panic s"
  using assms unfolding or_stop_def by (cases rule: on_error_cases) auto

lemma or_stop_Ok:
  assumes "or_stop m k w = (Ok (b, None), w')"
  obtains a w1 where "m w = (Ok a, w1)" and "k a w1 = (Ok (b, None), w')"
  using assms by (cases rule: or_stop_cases) auto

text \<open>A tenant as the status updates of a run see it: same object, same spec.\<close>

definition same_tenant :: "'q tenant_environment \<Rightarrow> 'q tenant_environment \<Rightarrow> bool" where
  "same_tenant t t' \<longleftrightarrow> key_of t' = key_of t \<and> uid_of t' = uid_of t \<and> Spec t' = Spec t"

lemma same_tenant_refl [simp]: "same_tenant t t"
  by (simp add: same_tenant_def)

lemma set_database_status_simps [simp]:
  "key_of (set_database_status s t) = key_of t" "uid_of (set_database_status s t) = uid_of t"
  "Spec (set_database_status s t) = Spec t" "DatabaseStatus (Status (set_database_status s t)) = s"
  "MetaFinalizers (ObjectMeta (set_database_status s t)) = MetaFinalizers (ObjectMeta t)"
  by (simp_all add: set_database_status_def key_of_def)

context cluster_client
begin

lemma status_step:
  assumes "StatusUpdate rt x w = (Ok x', w')" and "cl_tenants (view w) (key_of x) = Some cur"
  obtains st where "view w' = cl_tenants_update (\<lambda>m. m(key_of x \<mapsto> st)) (view w)"
    and "same_tenant cur st" and "Status st = wire_status (Status x)"
    and "same_tenant cur x'" and "Status x' = wire_status (Status x)"
    and "MetaFinalizers (ObjectMeta st) = MetaFinalizers (ObjectMeta cur)"
    and "MetaDeletionTimestamp (ObjectMeta st) = MetaDeletionTimestamp (ObjectMeta cur)"
    and "MetaFinalizers (ObjectMeta x') \<in> {MetaFinalizers (ObjectMeta x), MetaFinalizers (ObjectMeta cur)}"
    and "MetaFinalizers (ObjectMeta cur) = [] \<longrightarrow> MetaFinalizers (ObjectMeta x') = MetaFinalizers (ObjectMeta x)"
    and "MetaDeletionTimestamp (ObjectMeta x') = MetaDeletionTimestamp (ObjectMeta cur)"
proof -
  from ten.status_ok [OF assms(1)] assms(2) obtain v fs
    where eff: "view w' = cl_tenants_update (\<lambda>m. m(key_of x \<mapsto>
        (with_server_fields (uid_of cur) v cur)\<lparr>Status := wire_status (Status x)\<rparr>)) (view w)"
      and x': "x' = ((with_server_fields (uid_of cur) v cur)\<lparr>Status := wire_status (Status x)\<rparr>)
        \<lparr>ObjectMeta := (ObjectMeta (with_server_fields (uid_of cur) v cur))\<lparr>MetaFinalizers := fs\<rparr>\<rparr>"
      and "fs \<in> {MetaFinalizers (ObjectMeta x), MetaFinalizers (ObjectMeta cur)}"
      and "MetaFinalizers (ObjectMeta cur) = [] \<longrightarrow> fs = MetaFinalizers (ObjectMeta x)"
    by (auto simp: Let_def)
  then show ?thesis
    by (intro that [OF eff]) (simp_all add: same_tenant_def key_of_def x')
qed

lemma status_any:
  assumes "StatusUpdate rt x w = (r, w')"
  shows "view w' = view w \<or> (\<exists>cur st. cl_tenants (view w) (key_of x) = Some cur \<and>
    view w' = cl_tenants_update (\<lambda>m. m(key_of x \<mapsto> st)) (view w) \<and>
    same_tenant cur st \<and> Status st = wire_status (Status x) \<and>
    MetaFinalizers (ObjectMeta st) = MetaFinalizers (ObjectMeta cur))"
  using ten.status_effect [OF assms]
proof (elim disjE exE conjE)
  fix cur v
  assume "cl_tenants (view w) (key_of x) = Some cur"
    and "view w' = cl_tenants_update (\<lambda>m. m(key_of x \<mapsto>
       (with_server_fields (uid_of cur) v cur)\<lparr>Status := wire_status (Status x)\<rparr>)) (view w)"
  then show ?thesis
    by (intro disjI2 exI [of _ cur] exI [of _ "(with_server_fields (uid_of cur) v cur)\<lparr>Status := wire_status (Status x)\<rparr>"])
      (simp add: same_tenant_def key_of_def)
qed simp

lemma GetTenantEnvironment_run:
  "GetTenantEnvironment rt ns n w = (Ok t, w') \<Longrightarrow>
    cl_tenants (view w) (ns, n) = Some t \<and> key_of t = (ns, n) \<and> view w' = view w"
  "GetTenantEnvironment rt ns n w = (Err e, w') \<Longrightarrow>
    view w' = view w \<and> (is_not_found e \<longrightarrow> cl_tenants (view w) (ns, n) = None)"
  "GetTenantEnvironment rt ns n w \<noteq> (Panic s, w')"
  unfolding GetTenantEnvironment_def
  by (auto elim!: and_then_cases dest!: ten.get_found dest: ten.get_failed ten.keyed simp: ten.get_returns)

lemma Reconcile_cases [consumes 1, case_names event foreign missing deleting unmarked live]:
  assumes "Reconcile rt req w = (r, w')"
  obtains "strings_HasPrefix (RequestName req) ''pod-event:''" and "handlePodEventFromMapping rt req w = (r, w')"
  | "\<not> strings_HasPrefix (RequestName req) ''pod-event:''" and "RequestNamespace req \<noteq> ''default''"
    and "r = Ok (False, None)" and "w' = w"
  | e where "\<not> strings_HasPrefix (RequestName req) ''pod-event:''" and "RequestNamespace req = ''default''"
    and "r = Ok (False, IgnoreNotFound e)" and "view w' = view w"
    and "is_not_found e \<longrightarrow> cl_tenants (view w) (''default'', RequestName req) = None"
  | t w1 where "\<not> strings_HasPrefix (RequestName req) ''pod-event:''" and "RequestNamespace req = ''default''"
    and "cl_tenants (view w) (''default'', RequestName req) = Some t" and "view w1 = view w"
    and "key_of t = (''default'', RequestName req)"
    and "MetaDeletionTimestamp (ObjectMeta t) \<noteq> None" and "reconcile_deletion rt t w1 = (r, w')"
  | t w1 where "\<not> strings_HasPrefix (RequestName req) ''pod-event:''" and "RequestNamespace req = ''default''"
    and "cl_tenants (view w) (''default'', RequestName req) = Some t" and "view w1 = view w"
    and "key_of t = (''default'', RequestName req)"
    and "MetaDeletionTimestamp (ObjectMeta t) = None"
    and "tenantEnvironmentFinalizer \<notin> set (MetaFinalizers (ObjectMeta t))" and "reconcile_finalizer rt t w1 = (r, w')"
  | t w1 where "\<not> strings_HasPrefix (RequestName req) ''pod-event:''" and "RequestNamespace req = ''default''"
    and "cl_tenants (view w) (''default'', RequestName req) = Some t" and "view w1 = view w"
    and "key_of t = (''default'', RequestName req)"
    and "MetaDeletionTimestamp (ObjectMeta t) = None"
    and "tenantEnvironmentFinalizer \<in> set (MetaFinalizers (ObjectMeta t))" and "reconcile_main rt t w1 = (r, w')"
proof (cases "strings_HasPrefix (RequestName req) ''pod-event:''")
  case True
  with assms that(1) show ?thesis by (simp add: Reconcile_def)
next
  case plain: False
  show ?thesis
  proof (cases "RequestNamespace req = ''default''")
    case False
    with assms plain that(2) show ?thesis by (auto simp: Reconcile_def)
  next
    case True
    with assms plain have "on_error (GetTenantEnvironment rt ''default'' (RequestName req))
          (\<lambda>err. ret (False, IgnoreNotFound err))
          (\<lambda>tenantEnv.
             if MetaDeletionTimestamp (ObjectMeta tenantEnv) \<noteq> None then reconcile_deletion rt tenantEnv
             else if \<not> ContainsFinalizer rt tenantEnv tenantEnvironmentFinalizer then reconcile_finalizer rt tenantEnv
             else reconcile_main rt tenantEnv) w = (r, w')"
      by (simp add: Reconcile_def)
    then show ?thesis
    proof (cases rule: on_error_cases)
      case (ok t w1)
      from GetTenantEnvironment_run(1) [OF ok(1)]
      have stored: "cl_tenants (view w) (''default'', RequestName req) = Some t"
        and key: "key_of t = (''default'', RequestName req)" and w1: "view w1 = view w" by blast+
      show ?thesis
      proof (cases "MetaDeletionTimestamp (ObjectMeta t) \<noteq> None")
        case del: True
        from ok(2) have "reconcile_deletion rt t w1 = (r, w')" unfolding if_P [OF del] .
        with del show ?thesis by (rule that(4) [OF plain True stored w1 key])
      next
        case live: False
        then have none: "MetaDeletionTimestamp (ObjectMeta t) = None" by simp
        show ?thesis
        proof (cases "tenantEnvironmentFinalizer \<in> set (MetaFinalizers (ObjectMeta t))")
          case marked: True
          with ok(2) have "reconcile_main rt t w1 = (r, w')"
            unfolding if_not_P [OF live] by (simp add: contains_finalizer)
          with marked show ?thesis by (rule that(6) [OF plain True stored w1 key none])
        next
          case unmarked: False
          with ok(2) have "reconcile_finalizer rt t w1 = (r, w')"
            unfolding if_not_P [OF live] by (simp add: contains_finalizer)
          with unmarked show ?thesis by (rule that(5) [OF plain True stored w1 key none])
        qed
      qed
    next
      case (err e w1)
      from GetTenantEnvironment_run(2) [OF err(1)] err(2) plain True show ?thesis
        by (intro that(3) [of e]) auto
    next
      case (panic s)
      then show ?thesis by (simp add: GetTenantEnvironment_run(3))
    qed
  qed
qed

end

section \<open>How a tenant's record may move\<close>

text \<open>
  The life of \<open>DatabaseStatus\<close>, and what the controller may do to a tenant: never to its identity or
  its spec, forward only in \<open>DatabaseStatus\<close>, and never to a timestamp already set. It may finally
  disappear, when its last finalizer goes.
\<close>

inductive db_step :: "string \<Rightarrow> string \<Rightarrow> bool" where
  claim: "db_step '''' ''Provisioning''"
| reclaim: "db_step ''Unassigned'' ''Provisioning''"
| assign: "db_step ''Provisioning'' ''Assigned''"

lemmas db_steps = db_step.intros [THEN r_into_rtranclp [of db_step]]

inductive_cases db_step_from: "db_step s s'"

inductive_simps db_step_simps: "db_step ''Assigned'' s" "db_step ''Provisioning'' s"

lemma assigned_is_final: "db_step\<^sup>*\<^sup>* s s' \<Longrightarrow> s = ''Assigned'' \<Longrightarrow> s' = ''Assigned''"
  by (induction rule: rtranclp_induct) (auto simp: db_step_simps)

definition status_le :: "tenant_environment_status \<Rightarrow> tenant_environment_status \<Rightarrow> bool" where
  "status_le s s' \<longleftrightarrow> db_step\<^sup>*\<^sup>* (DatabaseStatus s) (DatabaseStatus s') \<and>
     (ReadyAt s = None \<or> ReadyAt s' = ReadyAt s) \<and> (CreatedAt s = None \<or> CreatedAt s' = CreatedAt s)"

lemma status_le_refl [simp]: "status_le s s"
  by (simp add: status_le_def)

lemma status_le_trans: "\<lbrakk>status_le a b; status_le b c\<rbrakk> \<Longrightarrow> status_le a c"
  by (auto simp: status_le_def)

text \<open>Writing a status loses nothing that was already stored.\<close>

lemma status_le_wire:
  assumes "status_le s s'" and "wire_status s = s"
  shows "status_le s (wire_status s')"
proof -
  have "map_option whole_second (CreatedAt s) = CreatedAt s" "map_option whole_second (ReadyAt s) = ReadyAt s"
    using arg_cong [OF assms(2), of CreatedAt] arg_cong [OF assms(2), of ReadyAt] by simp_all
  with assms(1) show ?thesis by (auto simp: status_le_def)
qed

lemma same_tenant_trans: "\<lbrakk>same_tenant a b; same_tenant b c\<rbrakk> \<Longrightarrow> same_tenant a c"
  by (simp add: same_tenant_def)

definition tenants_progress :: "'q cluster \<Rightarrow> 'q cluster \<Rightarrow> bool" where
  "tenants_progress v v' \<longleftrightarrow>
     (\<forall>k t'. cl_tenants v' k = Some t' \<longrightarrow>
        (\<exists>t. cl_tenants v k = Some t \<and> same_tenant t t' \<and> status_le (Status t) (Status t')))"

lemma tenants_progressD:
  "\<lbrakk>tenants_progress v v'; cl_tenants v' k = Some t'\<rbrakk>
    \<Longrightarrow> \<exists>t. cl_tenants v k = Some t \<and> same_tenant t t' \<and> status_le (Status t) (Status t')"
  unfolding tenants_progress_def by blast

lemma tenants_progress_preorder [simp]: "preorder_rel tenants_progress"
proof (rule preorder_relI)
  show "tenants_progress v v" for v :: "'a cluster"
    by (auto simp: tenants_progress_def)
  fix a b c :: "'a cluster"
  assume ab: "tenants_progress a b" and bc: "tenants_progress b c"
  show "tenants_progress a c"
    unfolding tenants_progress_def
  proof (intro allI impI)
    fix k t
    assume "cl_tenants c k = Some t"
    from tenants_progressD [OF bc this] obtain s where s: "cl_tenants b k = Some s" "same_tenant s t"
      "status_le (Status s) (Status t)" by blast
    from tenants_progressD [OF ab s(1)] s(2,3)
    show "\<exists>r. cl_tenants a k = Some r \<and> same_tenant r t \<and> status_le (Status r) (Status t)"
      by (blast intro: same_tenant_trans status_le_trans)
  qed
qed

lemma tenants_progress_same: "cl_tenants v' = cl_tenants v \<Longrightarrow> tenants_progress v v'"
  by (auto simp: tenants_progress_def)

lemma same_tenants_progress: "same_tenants v v' \<Longrightarrow> tenants_progress v v'"
  by (simp add: same_tenants_def tenants_progress_same)

lemma tenants_progress_trans: "\<lbrakk>tenants_progress a b; tenants_progress b c\<rbrakk> \<Longrightarrow> tenants_progress a c"
  using tenants_progress_preorder unfolding preorder_rel_def by (meson transpD)

lemma tenants_progress_update:
  assumes "cl_tenants v k = Some cur" and "v' = cl_tenants_update (\<lambda>m. m(k := x)) v"
    and "\<And>t'. x = Some t' \<Longrightarrow> same_tenant cur t' \<and> status_le (Status cur) (Status t')"
  shows "tenants_progress v v'"
  using assms by (auto simp: tenants_progress_def)

text \<open>The object in memory agrees with the stored one.\<close>

definition in_sync :: "'q cluster \<Rightarrow> 'q tenant_environment \<Rightarrow> bool" where
  "in_sync v t \<longleftrightarrow> (\<exists>cur. cl_tenants v (key_of t) = Some cur \<and> same_tenant cur t \<and> Status cur = Status t)"

lemma in_sync_same: "\<lbrakk>in_sync v t; same_tenants v v'\<rbrakk> \<Longrightarrow> in_sync v' t"
  by (simp add: in_sync_def same_tenants_def)

context cluster_client
begin

lemma status_progress:
  assumes "StatusUpdate rt x w = (r, w')" and "in_sync (view w) t" and "same_tenant t x"
    and "status_le (Status t) (Status x)"
  shows "tenants_progress (view w) (view w')"
  using status_any [OF assms(1)]
proof (elim disjE exE conjE)
  fix cur st
  assume "cl_tenants (view w) (key_of x) = Some cur"
    and "view w' = cl_tenants_update (\<lambda>m. m(key_of x \<mapsto> st)) (view w)"
    and "same_tenant cur st" and "Status st = wire_status (Status x)"
  moreover from calculation(1) have "wire_status (Status cur) = Status cur" by (rule ten.stored_status)
  ultimately show ?thesis
    using assms(2-4)
    by (intro tenants_progress_update) (auto simp: in_sync_def same_tenant_def status_le_wire)
qed (simp add: tenants_progress_same)

lemma status_sync:
  assumes "StatusUpdate rt x w = (Ok x', w')" and "in_sync (view w) t" and "same_tenant t x"
  shows "in_sync (view w') x'" and "same_tenant t x'" and "Status x' = wire_status (Status x)"
proof -
  obtain cur where cur: "cl_tenants (view w) (key_of x) = Some cur" "same_tenant cur t"
    using assms(2,3) by (auto simp: in_sync_def same_tenant_def)
  obtain st where "view w' = cl_tenants_update (\<lambda>m. m(key_of x \<mapsto> st)) (view w)"
    and "same_tenant cur st" "Status st = wire_status (Status x)" and x': "same_tenant cur x'" "Status x' = wire_status (Status x)"
    by (rule status_step [OF assms(1) cur(1)])
  with cur(2) assms(3) show "in_sync (view w') x'" "same_tenant t x'" "Status x' = wire_status (Status x)"
    by (auto simp: in_sync_def same_tenant_def)
qed

lemma update_progress:
  assumes "ApiUpdate (Tenants rt) x w = (r, w')" and "in_sync (view w) t" and "same_tenant t x"
  shows "tenants_progress (view w) (view w')"
  using ten.main_effect [OF assms(1)]
proof (elim disjE exE conjE)
  fix cur v
  assume cur: "cl_tenants (view w) (key_of x) = Some cur"
    and eff: "view w' = cl_tenants_update (\<lambda>m. m(key_of x :=
       (if MetaDeletionTimestamp (ObjectMeta cur) \<noteq> None \<and> MetaFinalizers (ObjectMeta x) = []
        then None else Some ((with_server_fields (uid_of x) v x)\<lparr>Status := Status cur\<rparr>)))) (view w)"
  show ?thesis
    by (rule tenants_progress_update [OF cur eff])
      (use cur assms(2,3) in \<open>auto simp: in_sync_def same_tenant_def key_of_def split: if_splits\<close>)
qed (simp add: tenants_progress_same)

lemma return_update_progress:
  assumes "return_update rt b x w = (r, w')" and "in_sync (view w) t" and "same_tenant t x"
  shows "tenants_progress (view w) (view w')"
  using assms(1) unfolding return_update_def
  by (cases rule: on_error_cases) (auto dest: update_progress [OF _ assms(2,3)])

end

context cluster_client
begin

lemma or_stop_progress:
  assumes run: "or_stop m k w = (r, w')" and m: "vsteps view same_tenants m"
    and k: "\<And>a w1. \<lbrakk>m w = (Ok a, w1); same_tenants (view w) (view w1); k a w1 = (r, w')\<rbrakk>
      \<Longrightarrow> tenants_progress (view w1) (view w')"
  shows "tenants_progress (view w) (view w')"
  using run
proof (cases rule: or_stop_cases)
  case (ok a w1)
  have same: "same_tenants (view w) (view w1)" by (rule vsteps_run [OF m ok(1)])
  show ?thesis by (rule tenants_progress_trans [OF same_tenants_progress [OF same] k [OF ok(1) same ok(2)]])
next
  case (err e)
  then show ?thesis by (intro same_tenants_progress vsteps_run [OF m err(1)])
next
  case (panic s)
  then show ?thesis by (intro same_tenants_progress vsteps_run [OF m panic(1)])
qed

lemma when_same_tenants:
  "vsteps view same_tenants m \<Longrightarrow> vsteps view same_tenants (if b then m else ret ())"
  by (intro vsteps_rules same_tenants_preorder)

lemma deletion_progress:
  assumes "reconcile_deletion rt t w = (r, w')" and "in_sync (view w) t"
  shows "tenants_progress (view w) (view w')"
proof (cases "ContainsFinalizer rt t tenantEnvironmentFinalizer")
  case True
  with assms(1) have "or_stop (DeletePostgreSQLForTenant rt t) (\<lambda>_.
        or_stop (if ResourceQuotas (Spec t) \<noteq> None then DeleteResourceQuotaForTenant rt t else ret ()) (\<lambda>_.
        or_stop (DeleteNamespaceForTenant rt (uid_of t)) (\<lambda>_.
          return_update rt False (RemoveFinalizer rt t tenantEnvironmentFinalizer)))) w = (r, w')"
    by (simp add: reconcile_deletion_def)
  then show ?thesis
  proof (rule or_stop_progress [OF _ DeletePostgreSQL_same_tenants])
    fix w1
    assume "same_tenants (view w) (view w1)"
    with assms(2) have sync1: "in_sync (view w1) t" by (rule in_sync_same)
    assume "or_stop (if ResourceQuotas (Spec t) \<noteq> None then DeleteResourceQuotaForTenant rt t else ret ()) (\<lambda>_.
        or_stop (DeleteNamespaceForTenant rt (uid_of t)) (\<lambda>_.
          return_update rt False (RemoveFinalizer rt t tenantEnvironmentFinalizer))) w1 = (r, w')"
    then show "tenants_progress (view w1) (view w')"
    proof (rule or_stop_progress [OF _ when_same_tenants [OF utils_same_tenants(4)]])
      fix w2
      assume "same_tenants (view w1) (view w2)"
      with sync1 have sync2: "in_sync (view w2) t" by (rule in_sync_same)
      assume "or_stop (DeleteNamespaceForTenant rt (uid_of t)) (\<lambda>_.
          return_update rt False (RemoveFinalizer rt t tenantEnvironmentFinalizer)) w2 = (r, w')"
      then show "tenants_progress (view w2) (view w')"
      proof (rule or_stop_progress [OF _ utils_same_tenants(2)])
        fix w3
        assume "same_tenants (view w2) (view w3)"
        with sync2 have sync3: "in_sync (view w3) t" by (rule in_sync_same)
        assume "return_update rt False (RemoveFinalizer rt t tenantEnvironmentFinalizer) w3 = (r, w')"
        then show "tenants_progress (view w3) (view w')"
          using sync3 by (rule return_update_progress) (simp add: remove_finalizer same_tenant_def)
      qed
    qed
  qed
next
  case False
  with assms(1) show ?thesis by (auto simp: reconcile_deletion_def intro: tenants_progress_same)
qed

lemma finalizer_progress:
  assumes run: "reconcile_finalizer rt t w = (r, w')" and sync: "in_sync (view w) t"
  shows "tenants_progress (view w) (view w')"
proof -
  let ?t = "AddFinalizer rt t tenantEnvironmentFinalizer"
  have t: "same_tenant t ?t" "Status ?t = Status t" by (simp_all add: add_finalizer same_tenant_def)
  show ?thesis
  proof (cases "CreatedAt (Status t) = None")
    case False
    with run t have "return_update rt True ?t w = (r, w')" by (simp add: reconcile_finalizer_def Let_def)
    then show ?thesis using sync t(1) by (rule return_update_progress)
  next
    case True
    with run t have "and_then (TimeNow rt) (\<lambda>now.
        or_stop (StatusUpdate rt (?t\<lparr>Status := (Status t)\<lparr>CreatedAt := Some now\<rparr>\<rparr>)) (\<lambda>tenantEnv.
          return_update rt True tenantEnv)) w = (r, w')"
      by (simp add: reconcile_finalizer_def Let_def)
    then show ?thesis
    proof (cases rule: and_then_cases)
      case (ok now w1)
      let ?x = "?t\<lparr>Status := (Status t)\<lparr>CreatedAt := Some now\<rparr>\<rparr>"
      have w1: "view w1 = view w" using now_view [OF ok(1)] by simp
      have x: "same_tenant t ?x" "status_le (Status t) (Status ?x)"
        using t True by (simp_all add: same_tenant_def status_le_def key_of_def)
      have sync1: "in_sync (view w1) t" using sync by (simp add: w1)
      from ok(2) show ?thesis
      proof (cases rule: or_stop_cases)
        case (ok x' w2)
        have "tenants_progress (view w1) (view w2)" by (rule status_progress [OF ok(1) sync1 x])
        moreover have "tenants_progress (view w2) (view w')"
          by (rule return_update_progress [OF ok(2) status_sync(1) [OF ok(1) sync1 x(1)]]) simp
        ultimately show ?thesis by (simp add: w1 tenants_progress_trans)
      next
        case (err e)
        then show ?thesis using status_progress [OF err(1) sync1 x] by (simp add: w1)
      next
        case (panic s)
        then show ?thesis using status_progress [OF panic(1) sync1 x] by (simp add: w1)
      qed
    qed (auto dest: now_view intro: tenants_progress_same)
  qed
qed

text \<open>From the moment the status says \<open>Provisioning\<close>.\<close>

lemma provision_progress:
  assumes run: "or_stop (CreatePostgreSQLForTenant rt t) (\<lambda>_.
        or_stop (StatusUpdate rt (set_database_status ''Assigned'' t)) k) w = (r, w')"
    and sync: "in_sync (view w) t" and status: "DatabaseStatus (Status t) = ''Provisioning''"
    and k: "\<And>t' w1. \<lbrakk>same_tenant t t'; k t' w1 = (r, w')\<rbrakk> \<Longrightarrow> tenants_progress (view w1) (view w')"
  shows "tenants_progress (view w) (view w')"
proof (rule or_stop_progress [OF run CreatePostgreSQL_same_tenants])
  fix w2
  assume "same_tenants (view w) (view w2)"
  with sync have sync2: "in_sync (view w2) t" by (rule in_sync_same)
  let ?y = "set_database_status ''Assigned'' t"
  have y: "same_tenant t ?y" by (simp add: same_tenant_def)
  have le: "status_le (Status t) (Status ?y)"
    using status by (auto simp: status_le_def set_database_status_def db_steps)
  assume "or_stop (StatusUpdate rt ?y) k w2 = (r, w')"
  then show "tenants_progress (view w2) (view w')"
  proof (cases rule: or_stop_cases)
    case (ok t2 w3)
    have "tenants_progress (view w3) (view w')" by (rule k [OF status_sync(2) [OF ok(1) sync2 y] ok(2)])
    with status_progress [OF ok(1) sync2 y le] show ?thesis by (rule tenants_progress_trans)
  next
    case (err e)
    from status_progress [OF err(1) sync2 y le] show ?thesis .
  next
    case (panic s)
    from status_progress [OF panic(1) sync2 y le] show ?thesis .
  qed
qed

lemma database_progress:
  assumes run: "reconcile_database rt t k w = (r, w')" and sync: "in_sync (view w) t"
    and k: "\<And>t' w1. \<lbrakk>same_tenant t t'; k t' w1 = (r, w')\<rbrakk> \<Longrightarrow> tenants_progress (view w1) (view w')"
  shows "tenants_progress (view w) (view w')"
proof (cases "DatabaseStatus (Status t) = '''' \<or> DatabaseStatus (Status t) = ''Unassigned''")
  case False
  with run have "k t w = (r, w')" by (simp add: reconcile_database_def)
  then show ?thesis by (intro k) simp_all
next
  case True
  with run have run': "or_stop (StatusUpdate rt (set_database_status ''Provisioning'' t)) (\<lambda>tenantEnv.
        or_stop (CreatePostgreSQLForTenant rt tenantEnv) (\<lambda>_.
        or_stop (StatusUpdate rt (set_database_status ''Assigned'' tenantEnv)) k)) w = (r, w')"
    by (simp add: reconcile_database_def)
  let ?x = "set_database_status ''Provisioning'' t"
  have x: "same_tenant t ?x" by (simp add: same_tenant_def)
  have le: "status_le (Status t) (Status ?x)"
    using True by (auto simp: status_le_def set_database_status_def db_steps)
  from run' show ?thesis
  proof (cases rule: or_stop_cases)
    case (ok t1 w1)
    note t1 = status_sync [OF ok(1) sync x]
    have "DatabaseStatus (Status t1) = ''Provisioning''" by (simp add: t1(3))
    from provision_progress [OF ok(2) t1(1) this] k same_tenant_trans [OF t1(2)]
    have "tenants_progress (view w1) (view w')" by blast
    with status_progress [OF ok(1) sync x le] show ?thesis by (rule tenants_progress_trans)
  next
    case (err e)
    from status_progress [OF err(1) sync x le] show ?thesis .
  next
    case (panic s)
    from status_progress [OF panic(1) sync x le] show ?thesis .
  qed
qed

end

context cluster_client
begin

lemma main_progress:
  assumes run: "reconcile_main rt t w = (r, w')" and sync: "in_sync (view w) t"
  shows "tenants_progress (view w) (view w')"
  using run unfolding reconcile_main_def
proof (rule or_stop_progress [OF _ utils_same_tenants(1)])
  fix w1
  assume "same_tenants (view w) (view w1)"
  with sync have sync1: "in_sync (view w1) t" by (rule in_sync_same)
  assume "or_stop (if ResourceQuotas (Spec t) \<noteq> None then CreateResourceQuotaForTenant rt t else ret ()) (\<lambda>_.
     reconcile_database rt t (\<lambda>tenantEnv.
     or_stop (CreateTenantServiceDeployment rt tenantEnv) (\<lambda>_. ret (False, None)))) w1 = (r, w')"
  then show "tenants_progress (view w1) (view w')"
  proof (rule or_stop_progress [OF _ when_same_tenants [OF quota_same_tenants]])
    fix w2
    assume "same_tenants (view w1) (view w2)"
    with sync1 have sync2: "in_sync (view w2) t" by (rule in_sync_same)
    assume "reconcile_database rt t (\<lambda>tenantEnv.
       or_stop (CreateTenantServiceDeployment rt tenantEnv) (\<lambda>_. ret (False, None))) w2 = (r, w')"
    then show "tenants_progress (view w2) (view w')"
    proof (rule database_progress [OF _ sync2])
      fix t' w3
      assume "or_stop (CreateTenantServiceDeployment rt t') (\<lambda>_. ret (False, None)) w3 = (r, w')"
      then show "tenants_progress (view w3) (view w')"
        by (rule or_stop_progress [OF _ deployment_same_tenants]) (simp add: tenants_progress_same)
    qed
  qed
qed

lemma observe_same: "ObserveDuration rt l d w = (r, w') \<Longrightarrow> cl_tenants (view w') = cl_tenants (view w)"
  by (drule observe_view) simp

lemma ready_progress:
  assumes run: "mark_ready rt t w = (r, w')" and sync: "in_sync (view w) t"
  shows "tenants_progress (view w) (view w')"
proof (cases "ReadyAt (Status t) = None")
  case False
  with run show ?thesis by (auto simp: mark_ready_def intro: tenants_progress_same)
next
  case True
  from run show ?thesis
    unfolding mark_ready_def if_P [OF True]
  proof (cases rule: and_then_cases)
    case (ok now w1)
    let ?x = "t\<lparr>Status := (Status t)\<lparr>ReadyAt := Some now, Phase := ''Ready''\<rparr>\<rparr>"
    have w1: "view w1 = view w" using now_view [OF ok(1)] by simp
    have x: "same_tenant t ?x" "status_le (Status t) (Status ?x)"
      using True by (simp_all add: same_tenant_def status_le_def key_of_def)
    have observed: "in_sync (view w2) t \<and> tenants_progress (view w) (view w2)"
      if "(case CreatedAt (Status ?x) of None \<Rightarrow> ret ()
           | Some created \<Rightarrow> ObserveDuration rt l (duration_Seconds (time_Sub now created))) w1 = (r2, w2)" for l r2 w2
    proof -
      have "cl_tenants (view w2) = cl_tenants (view w)"
        using that w1 by (auto dest: observe_same split: option.splits)
      then show ?thesis using sync by (auto simp: in_sync_def intro: tenants_progress_same)
    qed
    from ok(2) show ?thesis
      unfolding Let_def
    proof (cases rule: and_then_cases)
      case (ok u w2)
      note o = observed [OF ok(1)]
      from ok(2) obtain r1 where "StatusUpdate rt ?x w2 = (r1, w')"
        by (cases rule: or_stop_cases) auto
      from status_progress [OF this _ x] o show ?thesis by (blast intro: tenants_progress_trans)
    next
      case (err e)
      then show ?thesis using observed by blast
    next
      case (panic s)
      then show ?thesis using observed by blast
    qed
  qed (auto dest: now_view intro: tenants_progress_same)
qed

text \<open>What a pod event leads to: nothing, or \<open>mark_ready\<close> on the tenant it names.\<close>

lemma pod_event_cases [consumes 1, case_names nothing ready]:
  assumes "handlePodEventFromMapping rt req w = (r, w')"
  obtains "\<exists>e. r = Ok (False, e)" and "view w' = view w"
  | x p n t pod w1 where "strings_Split CHR '':'' (RequestName req) = [x, p, n]"
      and "cl_tenants (view w) (RequestNamespace req, n) = Some t" and "key_of t = (RequestNamespace req, n)"
      and "cl_pods (view w) (''tenant-'' @ uid_of t, p) = Some pod"
      and "gm_lookup (labels_of pod) ''tenant.core.mellifluus.io/tenant-uid'' \<noteq> None" and "pod_is_ready pod"
      and "view w1 = view w" and "mark_ready rt t w1 = (r, w')"
proof (cases "\<exists>x p n. strings_Split CHR '':'' (RequestName req) = [x, p, n]")
  case False
  then have "handlePodEventFromMapping rt req = ret (False, None)"
    unfolding handlePodEventFromMapping_def by (auto split: list.splits)
  with assms show ?thesis by (intro that(1)) auto
next
  case True
  then obtain x p n where parts: "strings_Split CHR '':'' (RequestName req) = [x, p, n]" by blast
  with assms have "on_error (GetTenantEnvironment rt (RequestNamespace req) n)
            (\<lambda>err. ret (False, IgnoreNotFound err))
            (\<lambda>tenantEnv.
               on_error (ApiGet (Pods rt) (''tenant-'' @ uid_of tenantEnv) p)
                 (\<lambda>err. if IgnoreNotFound err = None then ret (False, None) else ret (False, Some err))
                 (\<lambda>pod.
                    if gm_lookup (labels_of pod) ''tenant.core.mellifluus.io/tenant-uid'' = None
                    then ret (False, None)
                    else if pod_is_ready pod then mark_ready rt tenantEnv else ret (False, None))) w = (r, w')"
    by (simp add: handlePodEventFromMapping_def del: append_Cons)
  then show ?thesis
  proof (cases rule: on_error_cases)
    case (ok t w1)
    note t = GetTenantEnvironment_run(1) [OF ok(1)]
    from ok(2) show ?thesis
    proof (cases rule: on_error_cases)
      case (ok pod w2)
      have pod: "cl_pods (view w) (''tenant-'' @ uid_of t, p) = Some pod" and w2: "view w2 = view w"
        using pod.get_found [OF ok(1)] t by simp_all
      show ?thesis
      proof (cases "gm_lookup (labels_of pod) ''tenant.core.mellifluus.io/tenant-uid'' \<noteq> None \<and> pod_is_ready pod")
        case True
        with ok(2) have "mark_ready rt t w2 = (r, w')" by simp
        with True t pod w2 parts show ?thesis by (intro that(2) [of x p n t pod w2]) blast+
      next
        case False
        with ok(2) w2 show ?thesis by (intro that(1)) (auto split: if_splits)
      qed
    next
      case (err e w2)
      then show ?thesis using pod.get_view [OF err(1)] t by (intro that(1)) (auto split: if_splits)
    next
      case (panic s)
      then show ?thesis by (simp add: pod.get_returns)
    qed
  next
    case (err e w1)
    then show ?thesis using GetTenantEnvironment_run(2) [OF err(1)] by (intro that(1)) auto
  next
    case (panic s)
    then show ?thesis by (simp add: GetTenantEnvironment_run(3))
  qed
qed

lemma Reconcile_progress:
  assumes "Reconcile rt req w = (r, w')"
  shows "tenants_progress (view w) (view w')"
  using assms
proof (cases rule: Reconcile_cases)
  case event
  from event(2) show ?thesis
  proof (cases rule: pod_event_cases)
    case nothing
    then show ?thesis by (simp add: tenants_progress_same)
  next
    case (ready x p n t pod w1)
    then have "in_sync (view w1) t" by (auto simp: in_sync_def)
    from ready_progress [OF ready(8) this] show ?thesis by (simp add: ready(7))
  qed
next
  case (deleting t w1)
  then have "in_sync (view w1) t" by (auto simp: in_sync_def)
  from deletion_progress [OF deleting(7) this] show ?thesis by (simp add: deleting(4))
next
  case (unmarked t w1)
  then have "in_sync (view w1) t" by (auto simp: in_sync_def)
  from finalizer_progress [OF unmarked(8) this] show ?thesis by (simp add: unmarked(4))
next
  case (live t w1)
  then have "in_sync (view w1) t" by (auto simp: in_sync_def)
  from main_progress [OF live(8) this] show ?thesis by (simp add: live(4))
qed (simp_all add: tenants_progress_same)

end

end
