(* ===== verification/Registry.thy ===== *)
theory Registry
  imports Postgres
begin

text \<open>
  The shared instances as an assignment of tenants: an abstract table that lists, for every
  instance, the tenants it serves, with three steps, and the proof that provisioning and
  deprovisioning (\<open>CreatePostgreSQLForTenant\<close>, \<open>DeletePostgreSQLForTenant\<close> of
  \<open>internal/controller/utils_postgres.go\<close>) only make these steps, whatever their outcome. Then the
  capacity of the instances, and what repeating a failed removal does.
\<close>

section \<open>Who is listed where\<close>

definition listed :: "'q cluster \<Rightarrow> string \<Rightarrow> string \<Rightarrow> bool" where
  "listed v n u \<longleftrightarrow>
     (\<exists>ss. cl_stateful_sets v (''shared-services'', n) = Some ss \<and> u \<in> set (tenant_list_of ss))"

text \<open>No two instances list the same tenant.\<close>

definition listed_once :: "'q cluster \<Rightarrow> bool" where
  "listed_once v \<longleftrightarrow> (\<forall>u n m. listed v n u \<longrightarrow> listed v m u \<longrightarrow> n = m)"

lemma listed_frame: "cl_stateful_sets v' = cl_stateful_sets v \<Longrightarrow> listed v' = listed v"
  by (simp add: listed_def fun_eq_iff)

lemma shared_listed: "\<lbrakk>shared_instance v n = Some ss; u \<in> set (tenant_list_of ss)\<rbrakk> \<Longrightarrow> listed v n u"
  by (auto simp: shared_instance_Some listed_def)

lemma listed_onceD:
  "\<lbrakk>listed_once v; shared_instance v n = Some ss; u \<in> set (tenant_list_of ss);
    shared_instance v m = Some sm; u \<in> set (tenant_list_of sm)\<rbrakk> \<Longrightarrow> m = n"
  unfolding listed_once_def by (blast dest: shared_listed)

section \<open>The abstract table\<close>

text \<open>
  A table relates instances to tenants. A tenant without a registration can get one, at one
  instance; a tenant can lose a registration; nothing else happens.
\<close>

type_synonym assignment = "string \<Rightarrow> string \<Rightarrow> bool"

inductive enrols :: "string \<Rightarrow> assignment \<Rightarrow> assignment \<Rightarrow> bool" for u where
  not_yet: "enrols u A A"
| enrol: "\<forall>m. \<not> A m u \<Longrightarrow> enrols u A (A(n := (A n)(u := True)))"

inductive expels :: "string \<Rightarrow> assignment \<Rightarrow> assignment \<Rightarrow> bool" for u where
  not_listed: "expels u A A"
| expel: "expels u A (A(n := (A n)(u := False)))"

definition table_step :: "string \<Rightarrow> assignment \<Rightarrow> assignment \<Rightarrow> bool" where
  "table_step u A B \<longleftrightarrow> enrols u A B \<or> expels u A B"

inductive_cases enrolsE: "enrols u A B"
inductive_cases expelsE: "expels u A B"

definition single_valued_table :: "assignment \<Rightarrow> bool" where
  "single_valued_table A \<longleftrightarrow> (\<forall>u n m. A n u \<longrightarrow> A m u \<longrightarrow> n = m)"

lemma table_step_single: "\<lbrakk>table_step u A B; single_valued_table A\<rbrakk> \<Longrightarrow> single_valued_table B"
  unfolding table_step_def
  by (elim disjE enrolsE expelsE) (auto simp: single_valued_table_def split: if_splits)

lemma table_step_refl [simp]: "table_step u A A"
  by (simp add: table_step_def enrols.not_yet)

lemma table_step_others: "\<lbrakk>table_step u A B; x \<noteq> u\<rbrakk> \<Longrightarrow> B n x = A n x"
  unfolding table_step_def by (auto elim!: enrolsE expelsE split: if_splits)

lemma expels_less: "\<lbrakk>expels u A B; B n x\<rbrakk> \<Longrightarrow> A n x"
  by (auto elim!: expelsE split: if_splits)

lemma listed_once_table: "listed_once v \<longleftrightarrow> single_valued_table (listed v)"
  by (simp add: listed_once_def single_valued_table_def)

section \<open>Registration\<close>

context cluster_client
begin

lemma add_attempt_conflict:
  "\<lbrakk>add_attempt rt u n w = (Err e, w'); is_conflict e\<rbrakk> \<Longrightarrow> view w' = view w"
  unfolding add_attempt_def Let_def
  by (elim and_then_cases) (auto dest!: sts.get_view sts.update_failed split: if_splits elim!: and_then_cases)

lemma add_attempt_effect:
  assumes run: "add_attempt rt u n w = (r, w')"
  shows "view w' = view w \<or> (\<exists>ss v. cl_stateful_sets (view w) (''shared-services'', n) = Some ss \<and>
    u \<notin> set (tenant_list_of ss) \<and>
    view w' = cl_stateful_sets_update (\<lambda>m. m((''shared-services'', n) \<mapsto>
      with_server_fields (uid_of ss) v (store_tenant_list (tenant_list_of ss @ [u]) ss))) (view w))"
  using run unfolding add_attempt_def
proof (cases rule: and_then_cases)
  case (ok ss w1)
  from sts.get_found [OF ok(1)] have ss: "cl_stateful_sets (view w) (''shared-services'', n) = Some ss"
    and w1: "view w1 = view w" by blast+
  have key: "key_of ss = (''shared-services'', n)" by (rule sts.keyed [OF ss])
  show ?thesis
  proof (cases "u \<in> set (tenant_list_of ss)")
    case True
    with ok(2) w1 show ?thesis by (simp add: Let_def)
  next
    case False
    with ok(2) obtain r1 where "ApiUpdate (StatefulSets rt) (store_tenant_list (tenant_list_of ss @ [u]) ss) w1 = (r1, w')"
      by (auto simp: Let_def elim!: and_then_cases)
    from sts.update_effect [OF this] show ?thesis
      using ss False by (auto simp: w1 key)
  qed
qed (use sts.get_view in auto)

lemma add_effect:
  assumes run: "addTenantToSharedInstance rt t n w = (r, w')"
    and cons: "registries_consistent (view w)" and valid: "valid_uid (uid_of t)"
  shows "view w' = view w \<or> (\<exists>ss ss'. cl_stateful_sets (view w) (''shared-services'', n) = Some ss \<and>
    view w' = cl_stateful_sets_update (\<lambda>m. m((''shared-services'', n) \<mapsto> ss')) (view w) \<and>
    tenant_list_of ss' = tenant_list_of ss @ [uid_of t])"
proof -
  have "\<exists>r1. RetryOnConflict rt (add_attempt rt (uid_of t) n) w = (r1, w')"
    using run unfolding addTenantToSharedInstance_def by (auto elim!: and_then_cases)
  then obtain r1 where "attempts (add_attempt rt (uid_of t) n) w r1 w'"
    by (auto dest: retry_attempts)
  then obtain w1 where w1: "view w1 = view w" and last: "add_attempt rt (uid_of t) n w1 = (r1, w')"
    by (rule attempts_last [OF _ preorder_frame [of view]]) (use add_attempt_conflict in blast)+
  from add_attempt_effect [OF last] show ?thesis
    unfolding w1
  proof (elim disjE exE conjE)
    fix ss v
    assume ss: "cl_stateful_sets (view w) (''shared-services'', n) = Some ss"
      and new: "uid_of t \<notin> set (tenant_list_of ss)"
      and w': "view w' = cl_stateful_sets_update (\<lambda>m. m((''shared-services'', n) \<mapsto>
        with_server_fields (uid_of ss) v (store_tenant_list (tenant_list_of ss @ [uid_of t]) ss))) (view w)"
    have "registry_consistent ss" using cons ss by (auto simp: registries_consistent_def)
    from registry.enrol(2) [OF this valid new]
    have "tenant_list_of (with_server_fields (uid_of ss) v (store_tenant_list (tenant_list_of ss @ [uid_of t]) ss)) =
      tenant_list_of ss @ [uid_of t]" by simp
    with ss w' show ?thesis by blast
  qed simp
qed

lemma add_enrols:
  assumes "addTenantToSharedInstance rt t n w = (r, w')"
    and "registries_consistent (view w)" and "valid_uid (uid_of t)"
    and fresh: "\<forall>m. \<not> listed (view w) m (uid_of t)"
  shows "enrols (uid_of t) (listed (view w)) (listed (view w'))"
  using add_effect [OF assms(1-3)]
proof (elim disjE exE conjE)
  assume "view w' = view w"
  then show ?thesis by (simp add: enrols.not_yet)
next
  fix ss ss'
  assume "cl_stateful_sets (view w) (''shared-services'', n) = Some ss"
    and "view w' = cl_stateful_sets_update (\<lambda>m. m((''shared-services'', n) \<mapsto> ss')) (view w)"
    and "tenant_list_of ss' = tenant_list_of ss @ [uid_of t]"
  then have "listed (view w') = (listed (view w))(n := (listed (view w) n)(uid_of t := True))"
    by (auto simp: fun_eq_iff listed_def)
  then show ?thesis using fresh by (simp add: enrols.enrol)
qed

end

section \<open>Removal\<close>

text \<open>A cleanup deletes one stateful set, the one it was called for.\<close>

definition other_sets_kept :: "string \<Rightarrow> 'q cluster \<Rightarrow> 'q cluster \<Rightarrow> bool" where
  "other_sets_kept n v v' \<longleftrightarrow>
     (\<forall>k. k \<noteq> (''shared-services'', n) \<longrightarrow> cl_stateful_sets v' k = cl_stateful_sets v k)"

lemma other_sets_preorder [simp]: "preorder_rel (other_sets_kept n)"
  unfolding other_sets_kept_def by (rule preorder_relI) auto

lemma other_sets_updates [simp]:
  "other_sets_kept n v v" "other_sets_kept n v (cl_secrets_update f1 v)" "other_sets_kept n v (cl_services_update f2 v)"
  "other_sets_kept n v (cl_jobs_update f3 v)" "other_sets_kept n v (cl_claims_update f4 v)"
  "other_sets_kept n v (cl_stateful_sets_update (\<lambda>m. m((''shared-services'', n) := x)) v)"
  by (simp_all add: other_sets_kept_def)

lemma other_listed: "\<lbrakk>other_sets_kept n v v'; m \<noteq> n\<rbrakk> \<Longrightarrow> listed v' m u = listed v m u"
  by (simp add: other_sets_kept_def listed_def)

context cluster_client
begin

lemma cleanup_other_sets: "vsteps view (other_sets_kept n) (cleanupSharedPostgreSQLInstance rt n)"
proof -
  have parts: "vsteps view (other_sets_kept n) (cleanup_claims rt found)"
    "vsteps view (other_sets_kept n) (cleanup_service rt s)"
    "vsteps view (other_sets_kept n) (cleanup_master_secret rt s)"
    "vsteps view (other_sets_kept n) (cleanup_jobs rt s)" for found s
    unfolding cleanup_claims_def cleanup_service_def cleanup_master_secret_def cleanup_jobs_def
      getPostgreSQLPVCsByLabels_def
    by (intro vsteps_rules vsteps_delete_each vsteps_deleting client_steps other_sets_preorder; simp)+
  have found: "vsteps view (other_sets_kept n) (cleanup_stateful_set rt found)"
    if "\<And>ss. found = Some ss \<Longrightarrow> key_of ss = (''shared-services'', n)" for found
    unfolding cleanup_stateful_set_def
    by (intro vsteps_rules vsteps_deleting sts.vsteps_delete other_sets_preorder) (simp_all add: that)
  have rest: "vsteps view (other_sets_kept n) (if 11 < length n \<and> strings_HasPrefix n ''postgresql-''
          then let id = drop 11 n in
            and_then (cleanup_claims rt found) (\<lambda>es1.
            and_then (cleanup_stateful_set rt found) (\<lambda>es2.
            and_then (cleanup_service rt (''postgresql-'' @ id)) (\<lambda>es3.
            and_then (cleanup_master_secret rt (''postgresql-master-secret-'' @ id)) (\<lambda>es4.
            and_then (cleanup_jobs rt n) (\<lambda>es5.
              let cleanupErrors = es1 @ es2 @ es3 @ es4 @ es5 in
              if 0 < length cleanupErrors then fail (CleanupErrors cleanupErrors) else ret ())))))
          else fail (ErrorString (''invalid StatefulSet name format: '' @ n)))"
    if "\<And>ss. found = Some ss \<Longrightarrow> key_of ss = (''shared-services'', n)" for found
    unfolding Let_def
    by (intro vsteps_rules parts found [OF that] other_sets_preorder)
  show ?thesis
  proof (rule vstepsI)
    fix w r w'
    assume "cleanupSharedPostgreSQLInstance rt n w = (r, w')"
    then show "other_sets_kept n (view w) (view w')"
      unfolding cleanupSharedPostgreSQLInstance_def
    proof (cases rule: and_then_cases)
      case (ok found w1)
      have w1: "view w1 = view w"
        using ok(1) by (auto elim!: on_error_Ok dest: sts.get_view split: if_splits)
      have "cl_stateful_sets (view w) (''shared-services'', n) = Some ss" if "found = Some ss" for ss
        using ok(1) that by (auto elim!: on_error_Ok dest: sts.get_found split: if_splits)
      then have key: "\<And>ss. found = Some ss \<Longrightarrow> key_of ss = (''shared-services'', n)" using sts.keyed by blast
      from vsteps_run [OF rest [OF key], OF _ ok(2)] show ?thesis unfolding w1 .
    next
      case (err e)
      then have "view w' = view w"
        by (auto elim!: on_error_cases dest: sts.get_view split: if_splits)
      then show ?thesis by simp
    next
      case (panic s)
      then have "view w' = view w"
        by (auto elim!: on_error_cases dest: sts.get_view split: if_splits)
      then show ?thesis by simp
    qed
  qed
qed

lemma cleanup_listed:
  assumes "cleanupSharedPostgreSQLInstance rt n w = (r, w')" and "\<forall>u. \<not> listed (view w) n u"
  shows "listed (view w') = listed (view w)"
proof -
  note others = vsteps_run [OF cleanup_other_sets assms(1)]
  have "reaped (cl_stateful_sets (view w)) (cl_stateful_sets (view w'))"
    using vsteps_run [OF cleanupSharedPostgreSQLInstance_reaps assms(1)] by (simp add: only_reaps_def)
  from reapedD [OF this, of "(''shared-services'', n)"] assms(2) have "\<forall>u. \<not> listed (view w') n u"
    by (auto simp: listed_def gone_def)
  with assms(2) other_listed [OF others] have "listed (view w') m u = listed (view w) m u" for m u
    by (cases "m = n") simp_all
  then show ?thesis by (simp add: fun_eq_iff)
qed

lemma remove_expels:
  assumes run: "removeTenantFromSharedInstance rt u w = (r, w')" and cons: "registries_consistent (view w)"
  shows "expels u (listed (view w)) (listed (view w'))"
  using run
proof (cases rule: remove_cases)
  case failed
  then show ?thesis by (simp add: expels.not_listed)
next
  case unlisted
  then show ?thesis by (simp add: expels.not_listed)
next
  case (listed n ss w1)
  have stored: "cl_stateful_sets (view w) (''shared-services'', n) = Some ss"
    using listed(1) by (simp add: shared_instance_Some)
  have key: "key_of ss = (''shared-services'', n)" by (rule sts.keyed [OF stored])
  have "registry_consistent ss" using stored cons by (auto simp: registries_consistent_def)
  then have list: "tenant_list_of (store_tenant_list (without u ss) ss) = without u ss"
    unfolding without_def by (rule registry.expel(2))
  let ?struck = "(listed (view w))(n := (listed (view w) n)(u := False))"
  have struck: "listed v = ?struck"
    if "v = cl_stateful_sets_update (\<lambda>m. m((''shared-services'', n) \<mapsto>
      with_server_fields a b (store_tenant_list (without u ss) ss))) (view w)" for v a b
    using stored list by (auto simp: that fun_eq_iff listed_def without_def)
  have after: "listed (view w2) \<in> {listed (view w), ?struck}"
    if "ApiUpdate (StatefulSets rt) (store_tenant_list (without u ss) ss) w1 = (r1, w2)" for r1 w2
    using sts.update_effect [OF that] struck [of "view w2"] by (auto simp: listed(3) key)
  have table: "expels u (listed (view w)) A" if "A \<in> {listed (view w), ?struck}" for A
    using that by (auto intro: expels.not_listed expels.expel)
  from listed(4) show ?thesis
  proof (cases rule: and_then_cases)
    case (ok ss' w2)
    from sts.update_ok [OF ok(1)] obtain v where ss': "ss' = with_server_fields (uid_of ss) v (store_tenant_list (without u ss) ss)"
      and w2: "view w2 = cl_stateful_sets_update (\<lambda>m. m((''shared-services'', n) \<mapsto> ss')) (view w)"
      by (auto simp: listed(3) key)
    have name: "name_of ss' = n" using key by (simp add: ss' key_of_def)
    have "listed (view w') = listed (view w2)"
    proof (cases "length (without u ss) = 0")
      case True
      have "\<forall>x. \<not> listed (view w2) n x"
        using list True by (simp add: w2 listed_def ss')
      moreover from ok(2) True name have "\<exists>r. cleanupSharedPostgreSQLInstance rt n w2 = (r, w')"
        by (auto simp: ignoring_def on_error_def and_then_def split: prod.splits result.splits)
      ultimately show ?thesis using cleanup_listed by blast
    next
      case False
      with ok(2) vsteps_run [OF removal_keeps_sets] show ?thesis by (auto intro: listed_frame)
    qed
    with struck [OF w2 [unfolded ss']] table show ?thesis by simp
  next
    case (err e)
    from table [OF after [OF err(1)]] show ?thesis .
  next
    case (panic s)
    from table [OF after [OF panic(1)]] show ?thesis .
  qed
qed

end

section \<open>Refinement\<close>

lemma listed_adds: "\<lbrakk>only_adds v v'; adds_empty_sets v v'\<rbrakk> \<Longrightarrow> listed v' = listed v"
proof (intro ext iffI)
  fix n u
  assume "adds_empty_sets v v'" and "listed v' n u"
  then show "listed v n u" by (auto simp: listed_def dest!: adds_empty_setsD)
next
  fix n u
  assume "only_adds v v'" and "listed v n u"
  then show "listed v' n u" by (auto simp: listed_def dest: only_adds_kept(2))
qed

context cluster_client
begin

lemma instance_listing: "vsteps view (\<lambda>v v'. listed v' = listed v) (createPostgreSQLInstance rt t)"
proof (rule vstepsI)
  fix w r w'
  assume run: "createPostgreSQLInstance rt t w = (r, w')"
  show "listed (view w') = listed (view w)"
    by (rule listed_adds [OF vsteps_run [OF createPostgreSQLInstance_adds run]
          vsteps_run [OF instance_adds_empty run]])
qed

lemma pick_listing:
  "vsteps view (\<lambda>v v'. listed v' = listed v)
     (on_error (findAvailableSharedInstance rt)
        (\<lambda>_. wrapping ''failed to create shared PostgreSQL instance'' (createPostgreSQLInstance rt t))
        (\<lambda>statefulSetName. and_then (joinSharedInstance rt t statefulSetName) (\<lambda>_. ret statefulSetName)))"
proof -
  have join: "vsteps view (\<lambda>v v'. listed v' = listed v) (joinSharedInstance rt t n)" for n
    unfolding joinSharedInstance_def
    by (intro vsteps_rules preorder_frame keep_sets [THEN vsteps_mono] listed_frame)
  show ?thesis
    unfolding findAvailableSharedInstance_def
    by (intro vsteps_rules preorder_frame sts.vsteps_reads join instance_listing)
qed

lemma pick_keeps_registries:
  "vsteps view keeps_registries
     (on_error (findAvailableSharedInstance rt)
        (\<lambda>_. wrapping ''failed to create shared PostgreSQL instance'' (createPostgreSQLInstance rt t))
        (\<lambda>statefulSetName. and_then (joinSharedInstance rt t statefulSetName) (\<lambda>_. ret statefulSetName)))"
  unfolding findAvailableSharedInstance_def joinSharedInstance_def
  by (intro vsteps_rules sts.vsteps_reads keeps_registries_preorder keep_registries instance_keeps_registries)

lemma create_enrols:
  assumes run: "CreatePostgreSQLForTenant rt t w = (r, w')"
    and cons: "registries_consistent (view w)" and valid: "valid_uid (uid_of t)"
    and fresh: "\<forall>n. \<not> listed (view w) n (uid_of t)"
  shows "enrols (uid_of t) (listed (view w)) (listed (view w'))"
proof (cases "DedicatedInstance (Database (Spec t))")
  case True
  have "vsteps view (\<lambda>v v'. listed v' = listed v) (CreatePostgreSQLForTenant rt t)"
    unfolding CreatePostgreSQLForTenant_def if_P [OF True]
    by (intro vsteps_rules preorder_frame instance_listing)
  from vsteps_run [OF this run] show ?thesis by (simp add: enrols.not_yet)
next
  case False
  from run show ?thesis
    unfolding CreatePostgreSQLForTenant_def if_not_P [OF False]
  proof (cases rule: and_then_cases)
    case (ok n w1)
    have same: "listed (view w1) = listed (view w)" by (rule vsteps_run [OF pick_listing ok(1)])
    have cons1: "registries_consistent (view w1)" using vsteps_run [OF pick_keeps_registries ok(1)] cons by blast
    from ok(2) obtain r1 where "addTenantToSharedInstance rt t n w1 = (r1, w')"
      by (auto elim!: and_then_cases simp: wrapping_def on_error_def split: prod.splits result.splits)
    from add_enrols [OF this cons1 valid] fresh show ?thesis by (simp add: same)
  next
    case (err e)
    from vsteps_run [OF pick_listing err(1)] show ?thesis by (simp add: enrols.not_yet)
  next
    case (panic s)
    from vsteps_run [OF pick_listing panic(1)] show ?thesis by (simp add: enrols.not_yet)
  qed
qed

lemma delete_expels:
  assumes "DeletePostgreSQLForTenant rt t w = (r, w')" and "registries_consistent (view w)"
  shows "expels (uid_of t) (listed (view w)) (listed (view w'))"
  using assms remove_expels by (auto simp: DeletePostgreSQLForTenant_def expels.not_listed split: if_splits)

end

section \<open>Capacity\<close>

text \<open>
  No instance lists more than the maximum. The check of the count and the registration are apart,
  but within a run nobody else registers a tenant; what remains is a new identifier that is not new.
\<close>

definition within_capacity :: "'q cluster \<Rightarrow> bool" where
  "within_capacity v \<longleftrightarrow>
     (\<forall>n ss. cl_stateful_sets v (''shared-services'', n) = Some ss \<longrightarrow>
        int (length (tenant_list_of ss)) \<le> MaxTenantsPerSharedInstance)"

lemma within_capacityD:
  "\<lbrakk>within_capacity v; cl_stateful_sets v (''shared-services'', n) = Some ss\<rbrakk>
    \<Longrightarrow> int (length (tenant_list_of ss)) \<le> MaxTenantsPerSharedInstance"
  unfolding within_capacity_def by blast

lemma within_capacity_adds: "\<lbrakk>adds_empty_sets v v'; within_capacity v\<rbrakk> \<Longrightarrow> within_capacity v'"
  unfolding within_capacity_def [of v']
  by (auto dest!: adds_empty_setsD dest: within_capacityD simp: MaxTenantsPerSharedInstance_def)

text \<open>
  The exception: the search found no instance, and the identifier drawn for a new one in this run
  names one that exists.
\<close>

definition identifier_taken :: "('w, 'q) runtime \<Rightarrow> ('w \<Rightarrow> 'q cluster) \<Rightarrow> 'q tenant_environment \<Rightarrow> 'w \<Rightarrow> bool" where
  "identifier_taken rt view t w \<longleftrightarrow>
     (\<exists>e w1 n w2. findAvailableSharedInstance rt w = (Err e, w1) \<and>
        createPostgreSQLInstance rt t w1 = (Ok n, w2) \<and>
        cl_stateful_sets (view w) (''shared-services'', n) \<noteq> None)"

lemma count_is_length:
  assumes "registry_consistent ss" and "int (length (tenant_list_of ss)) \<le> MaxTenantsPerSharedInstance"
    and "tenant_count_of ss = Some c"
  shows "c = int (length (tenant_list_of ss))"
  using registry.count_readable [OF assms(1)] assms(2,3)
  by (simp add: tenant_count_of_def MaxTenantsPerSharedInstance_def)

context cluster_client
begin

text \<open>The instance that was picked has room, or its name was taken.\<close>

lemma picked_has_room:
  assumes pick: "on_error (findAvailableSharedInstance rt)
        (\<lambda>_. wrapping ''failed to create shared PostgreSQL instance'' (createPostgreSQLInstance rt t))
        (\<lambda>statefulSetName. and_then (joinSharedInstance rt t statefulSetName) (\<lambda>_. ret statefulSetName)) w = (Ok n, w1)"
    and shared: "\<not> DedicatedInstance (Database (Spec t))"
    and cons: "registries_consistent (view w)" and cap: "within_capacity (view w)"
    and ss: "cl_stateful_sets (view w1) (''shared-services'', n) = Some ss"
  shows "int (length (tenant_list_of ss)) < MaxTenantsPerSharedInstance \<or> identifier_taken rt view t w"
  using pick
proof (cases rule: on_error_Ok [consumes 1, case_names found missing])
  case (found m w0)
  from found(2) have join: "joinSharedInstance rt t m w0 = (Ok (), w1)" and m: "m = n"
    by (auto elim!: and_then_Ok)
  note find = find_Ok [OF found(1)]
  then obtain old c where old: "shared_instance (view w) n = Some old" "tenant_count_of old = Some c" "c < 10"
    by (auto simp: m)
  have "cl_stateful_sets (view w1) = cl_stateful_sets (view w)" using join_Ok(3) [OF join] find by simp
  with old(1) ss have same: "old = ss" by (simp add: shared_instance_Some)
  with old(1) have stored: "cl_stateful_sets (view w) (''shared-services'', n) = Some ss"
    by (simp add: shared_instance_Some)
  then have "registry_consistent ss" using cons by (auto simp: registries_consistent_def)
  from count_is_length [OF this within_capacityD [OF cap stored]] old(2,3) same show ?thesis
    by (simp add: MaxTenantsPerSharedInstance_def)
next
  case (missing e w0)
  from missing(2) have inst: "createPostgreSQLInstance rt t w0 = (Ok n, w1)" by simp
  have w0: "view w0 = view w" using find_Err [OF missing(1)] by blast
  from adds_empty_setsD [OF vsteps_run [OF instance_adds_empty inst] ss] show ?thesis
  proof (elim disjE conjE)
    assume "cl_stateful_sets (view w0) (''shared-services'', n) = Some ss"
    then have "cl_stateful_sets (view w) (''shared-services'', n) \<noteq> None" by (simp add: w0)
    with missing(1) inst show ?thesis unfolding identifier_taken_def by blast
  qed (simp add: MaxTenantsPerSharedInstance_def)
qed

lemma create_capacity:
  assumes run: "CreatePostgreSQLForTenant rt t w = (r, w')"
    and cons: "registries_consistent (view w)" and valid: "valid_uid (uid_of t)"
    and cap: "within_capacity (view w)"
  shows "within_capacity (view w') \<or> identifier_taken rt view t w"
proof (cases "DedicatedInstance (Database (Spec t))")
  case True
  have "vsteps view adds_empty_sets (CreatePostgreSQLForTenant rt t)"
    unfolding CreatePostgreSQLForTenant_def if_P [OF True]
    by (intro vsteps_rules adds_empty_sets_preorder instance_adds_empty)
  from within_capacity_adds [OF vsteps_run [OF this run] cap] show ?thesis ..
next
  case False
  have picks: "vsteps view adds_empty_sets (on_error (findAvailableSharedInstance rt)
        (\<lambda>_. wrapping ''failed to create shared PostgreSQL instance'' (createPostgreSQLInstance rt t))
        (\<lambda>statefulSetName. and_then (joinSharedInstance rt t statefulSetName) (\<lambda>_. ret statefulSetName)))"
    unfolding findAvailableSharedInstance_def joinSharedInstance_def
    by (intro vsteps_rules sts.vsteps_reads adds_empty_sets_preorder keep_sets_empty instance_adds_empty)
  from run show ?thesis
    unfolding CreatePostgreSQLForTenant_def if_not_P [OF False]
  proof (cases rule: and_then_cases)
    case (ok n w1)
    have cap1: "within_capacity (view w1)" by (rule within_capacity_adds [OF vsteps_run [OF picks ok(1)] cap])
    have cons1: "registries_consistent (view w1)" using vsteps_run [OF pick_keeps_registries ok(1)] cons by blast
    from ok(2) obtain r1 where "addTenantToSharedInstance rt t n w1 = (r1, w')"
      by (auto elim!: and_then_cases simp: wrapping_def on_error_def split: prod.splits result.splits)
    from add_effect [OF this cons1 valid] show ?thesis
    proof (elim disjE exE conjE)
      assume "view w' = view w1"
      with cap1 show ?thesis by simp
    next
      fix ss ss'
      assume ss: "cl_stateful_sets (view w1) (''shared-services'', n) = Some ss"
        and w': "view w' = cl_stateful_sets_update (\<lambda>m. m((''shared-services'', n) \<mapsto> ss')) (view w1)"
        and list: "tenant_list_of ss' = tenant_list_of ss @ [uid_of t]"
      from picked_has_room [OF ok(1) False cons cap ss] show ?thesis
      proof
        assume "int (length (tenant_list_of ss)) < MaxTenantsPerSharedInstance"
        with cap1 have "within_capacity (view w')" by (auto simp: within_capacity_def w' list)
        then show ?thesis ..
      qed simp
    qed
  next
    case (err e)
    from within_capacity_adds [OF vsteps_run [OF picks err(1)] cap] show ?thesis ..
  next
    case (panic s)
    from within_capacity_adds [OF vsteps_run [OF picks panic(1)] cap] show ?thesis ..
  qed
qed

end

section \<open>Repeated removals\<close>

text \<open>The call again and again, with any outcome.\<close>

inductive removals :: "('w, 'q) runtime \<Rightarrow> string \<Rightarrow> 'w \<Rightarrow> 'w \<Rightarrow> bool" for rt u where
  none: "removals rt u w w"
| again: "\<lbrakk>removals rt u w w1; removeTenantFromSharedInstance rt u w1 = (r, w2)\<rbrakk> \<Longrightarrow> removals rt u w w2"

context cluster_client
begin

text \<open>A failed removal that changed an instance has struck the tenant off.\<close>

lemma removal_strikes:
  assumes run: "removeTenantFromSharedInstance rt u w = (Err e, w')"
    and cons: "registries_consistent (view w)" and once: "listed_once (view w)"
    and changed: "cl_stateful_sets (view w') \<noteq> cl_stateful_sets (view w)"
  shows "\<not> listed (view w') m u"
  using run
proof (cases rule: remove_cases)
  case (listed n ss w1)
  have stored: "cl_stateful_sets (view w) (''shared-services'', n) = Some ss"
    using listed(1) by (simp add: shared_instance_Some)
  have key: "key_of ss = (''shared-services'', n)" by (rule sts.keyed [OF stored])
  have "registry_consistent ss" using stored cons by (auto simp: registries_consistent_def)
  then have list: "tenant_list_of (store_tenant_list (without u ss) ss) = without u ss"
    unfolding without_def by (rule registry.expel(2))
  have struck: "\<not> listed v m u"
    if "cl_stateful_sets v = (cl_stateful_sets (view w))((''shared-services'', n) \<mapsto>
      with_server_fields a b (store_tenant_list (without u ss) ss))" for v a b
  proof (cases "m = n")
    case True
    with list show ?thesis by (auto simp: listed_def that without_def)
  next
    case False
    then have "listed v m u = listed (view w) m u" by (simp add: listed_def that)
    with False once shared_listed [OF listed(1,2)] show ?thesis unfolding listed_once_def by blast
  qed
  from listed(4) show ?thesis
  proof (cases rule: and_then_cases)
    case (ok ss' w2)
    from sts.update_ok [OF ok(1)] obtain v where
      w2: "view w2 = cl_stateful_sets_update (\<lambda>m. m((''shared-services'', n) \<mapsto>
        with_server_fields (uid_of ss) v (store_tenant_list (without u ss) ss))) (view w)"
      by (auto simp: listed(3) key)
    from ok(2) have "createRemovalJob rt u (name_of ss') w2 = (Err e, w')"
      by (auto split: if_splits elim!: and_then_cases simp: ignoring_def on_error_def split: prod.splits result.splits)
    from vsteps_run [OF removal_keeps_sets this] have "cl_stateful_sets (view w') = cl_stateful_sets (view w2)" .
    then show ?thesis by (intro struck) (simp add: w2)
  next
    case (err e')
    with sts.update_effect [OF err(1)] changed obtain v where
      "view w' = cl_stateful_sets_update (\<lambda>m. m((''shared-services'', n) \<mapsto>
        with_server_fields (uid_of ss) v (store_tenant_list (without u ss) ss))) (view w)"
      by (auto simp: listed(3) key)
    then show ?thesis by (intro struck [of _ "uid_of ss" v]) simp
  qed simp
qed (use changed in simp_all)

lemma unlisted_removal:
  assumes run: "removeTenantFromSharedInstance rt u w = (r, w')" and "\<forall>n. \<not> listed (view w) n u"
  shows "view w' = view w \<and>
    (\<forall>xs w1. ApiList (StatefulSets rt) ''shared-services'' shared_selector w = (Ok xs, w1) \<longrightarrow> r = Ok ())"
proof -
  have none: "u \<notin> set (tenant_list_of ss)" if "shared_instance (view w) n = Some ss" for n ss
    using assms(2) that by (blast dest: shared_listed)
  have "r = Ok ()" if list: "ApiList (StatefulSets rt) ''shared-services'' shared_selector w = (Ok xs, w1)" for xs w1
  proof -
    from run list have "remove_from_first rt u xs w1 = (r, w')"
      by (auto simp: removeTenantFromSharedInstance_def elim!: and_then_cases)
    then show ?thesis
    proof (cases rule: remove_from_first_cases)
      case (listed ss)
      with none [of "name_of ss" ss] listed_instances(2) [OF list, of ss] show ?thesis by simp
    qed
  qed
  moreover from run have "view w' = view w" by (cases rule: remove_cases) (use none in auto)
  ultimately show ?thesis by blast
qed

lemma lost_removal:
  assumes "removals rt u w1 w2" and "\<forall>n. \<not> listed (view w1) n u"
  shows "view w2 = view w1"
  using assms
proof induction
  case (again w w1 r w2)
  then have "view w1 = view w" by blast
  with unlisted_removal [OF again.hyps(2)] again.prems show ?case by simp
qed simp

end

section \<open>Properties\<close>

text \<open>C7: provisioning refines one step of the abstract assignment table: whatever the outcome of the run,
  either nobody's registration changed, or the tenant, registered nowhere before, is now registered
  at exactly one instance.\<close>

theorem provisioning_refines_table:
  assumes "cluster_client rt view" and "CreatePostgreSQLForTenant rt t w = (r, w')"
    and "registries_consistent (view w)" and "valid_uid (uid_of t)"
    and "\<forall>n. \<not> listed (view w) n (uid_of t)"
  shows "enrols (uid_of t) (listed (view w)) (listed (view w'))"
  by (rule cluster_client.create_enrols [OF assms])

text \<open>C8: deprovisioning refines the same table: whatever its outcome, at most one registration of the
  tenant disappears, and the cleanup of the emptied instance takes no other registration with it.\<close>

theorem deprovisioning_refines_table:
  assumes "cluster_client rt view" and "DeletePostgreSQLForTenant rt t w = (r, w')"
    and "registries_consistent (view w)"
  shows "expels (uid_of t) (listed (view w)) (listed (view w'))"
  by (rule cluster_client.delete_expels [OF assms])

text \<open>C9: provisioning never takes a shared instance over the limit of ten tenants, although the count is
  read in one call and the list extended in another; the one exception is a run whose search
  fails and whose new instance gets a random identifier that already names one, which the code does not
  rule out.\<close>

theorem capacity_respected:
  assumes "cluster_client rt view" and "CreatePostgreSQLForTenant rt t w = (r, w')"
    and "registries_consistent (view w)" and "valid_uid (uid_of t)" and "within_capacity (view w)"
  shows "within_capacity (view w') \<or> identifier_taken rt view t w"
  by (rule cluster_client.create_capacity [OF assms])

text \<open>C37: the removal job can get lost. The tenant is struck off the list before the job is created; when
  a removal fails after the list was changed, no number of repetitions does anything more, and each
  reports success unless it cannot list the instances: a job that the failed call did not create is
  never created, and the tenant's database stays on the instance.\<close>

theorem removal_job_lost:
  assumes "cluster_client rt view" and "removeTenantFromSharedInstance rt u w = (Err e, w1)"
    and "registries_consistent (view w)" and "listed_once (view w)"
    and "cl_stateful_sets (view w1) \<noteq> cl_stateful_sets (view w)"
    and "removals rt u w1 w2" and "removeTenantFromSharedInstance rt u w2 = (r, w3)"
  shows "view w3 = view w1 \<and>
    (\<forall>xs w4. ApiList (StatefulSets rt) ''shared-services'' shared_selector w2 = (Ok xs, w4) \<longrightarrow> r = Ok ())"
proof -
  have struck: "\<forall>n. \<not> listed (view w1) n u"
    using cluster_client.removal_strikes [OF assms(1-5)] by blast
  then have "view w2 = view w1" by (rule cluster_client.lost_removal [OF assms(1,6)])
  with cluster_client.unlisted_removal [OF assms(1,7)] struck show ?thesis by simp
qed

section \<open>Witnesses\<close>

lemma empty_unlisted: "\<not> listed (mem_view empty_world) n u"
  by (simp add: listed_def mem_view_def empty_world_def stored_def)

theorem provisioning_refines_table_witness:
  "enrols ''0a1b2c3d-4e5f'' (listed (mem_view empty_world))
    (listed (mem_view (snd (CreatePostgreSQLForTenant mem_runtime (sample_tenant False) empty_world))))"
proof -
  let ?run = "CreatePostgreSQLForTenant mem_runtime (sample_tenant False) empty_world"
  have run: "?run = (fst ?run, snd ?run)" by simp
  have "\<forall>n. \<not> listed (mem_view empty_world) n (uid_of (sample_tenant False))" by (simp add: empty_unlisted)
  from provisioning_refines_table [OF mem_client, OF run empty_consistent sample_uid_valid this] show ?thesis by simp
qed

theorem deprovisioning_refines_table_witness:
  "expels ''0a1b2c3d-4e5f'' (listed (mem_view (sample_shared_world [''0a1b2c3d-4e5f''])))
    (listed (mem_view (snd (DeletePostgreSQLForTenant mem_runtime (sample_tenant False)
      (sample_shared_world [''0a1b2c3d-4e5f''])))))"
proof -
  let ?run = "DeletePostgreSQLForTenant mem_runtime (sample_tenant False) (sample_shared_world [''0a1b2c3d-4e5f''])"
  have run: "?run = (fst ?run, snd ?run)" by simp
  have "registries_consistent (mem_view (sample_shared_world [''0a1b2c3d-4e5f'']))"
    by (rule sample_consistent) (simp_all add: valid_uid_def)
  from deprovisioning_refines_table [OF mem_client, OF run this] show ?thesis by simp
qed

text \<open>A shared instance with ten tenants: the next one gets a new instance.\<close>

definition ten_tenants :: "string list" where
  "ten_tenants = map (\<lambda>i. ''f000000'' @ strconv_Itoa i) [0..9]"

theorem capacity_respected_witness:
  "within_capacity (mem_view (snd (CreatePostgreSQLForTenant mem_runtime (sample_tenant False)
    (sample_shared_world ten_tenants))))"
proof -
  let ?w = "sample_shared_world ten_tenants"
  let ?run = "CreatePostgreSQLForTenant mem_runtime (sample_tenant False) ?w"
  let ?created = "createPostgreSQLInstance mem_runtime (sample_tenant False) (snd (findAvailableSharedInstance mem_runtime ?w))"
  have run: "?run = (fst ?run, snd ?run)" by simp
  have ten: "distinct ten_tenants" "list_all valid_uid ten_tenants" "length ten_tenants = 10" by code_simp+
  have list: "tenant_list_of (sample_set ten_tenants) = ten_tenants"
    unfolding sample_set_def by (rule registry.members_store) (use ten in simp)
  have sets: "cl_stateful_sets (mem_view ?w) (''shared-services'', n) =
      (if n = ''postgresql-abcdef'' then Some (sample_set ten_tenants) else None)" for n
    by (simp add: mem_view_def sample_set_stored)
  have "within_capacity (mem_view ?w)"
    by (simp add: within_capacity_def sets list ten(3) MaxTenantsPerSharedInstance_def)
  moreover have "registries_consistent (mem_view ?w)" using ten(1,2) by (rule sample_consistent)
  moreover have "case fst ?created of Ok n \<Rightarrow> n \<noteq> ''postgresql-abcdef'' | _ \<Rightarrow> True" by code_simp
  then have "\<not> identifier_taken mem_runtime mem_view (sample_tenant False) ?w"
    by (auto simp: identifier_taken_def sets)
  ultimately show ?thesis
    using capacity_respected [OF mem_client, OF run _ sample_uid_valid] by blast
qed


lemma sample_listed_once: "listed_once (mem_view (sample_shared_world us))"
proof -
  have "n = ''postgresql-abcdef''" if "listed (mem_view (sample_shared_world us)) n u" for n u
    using that by (auto simp: listed_def mem_view_def sample_set_stored split: if_splits)
  then show ?thesis unfolding listed_once_def by metis
qed

definition failed_removal :: "unit result \<times> mem_world" where
  "failed_removal = removeTenantFromSharedInstance flaky_runtime ''0a1b2c3d-4e5f''
     (sample_shared_world [''0a1b2c3d-4e5f'', ''f0000000-9999''])"

definition repeated_removal :: "unit result \<times> mem_world" where
  "repeated_removal = removeTenantFromSharedInstance flaky_runtime ''0a1b2c3d-4e5f'' (snd failed_removal)"

text \<open>Without the failure the job is made.\<close>

theorem removal_job_lost_witness:
  "fst repeated_removal = Ok () \<and> cl_jobs (mem_view (snd repeated_removal)) = (\<lambda>k. None) \<and>
    map name_of (w_jobs (snd (removeTenantFromSharedInstance mem_runtime ''0a1b2c3d-4e5f''
      (sample_shared_world [''0a1b2c3d-4e5f'', ''f0000000-9999''])))) = [''db-remove-0a1b2c3d'']"
proof -
  let ?u = "''0a1b2c3d-4e5f''"
  let ?us = "[''0a1b2c3d-4e5f'', ''f0000000-9999'']"
  let ?w = "sample_shared_world ?us"
  have failed: "removeTenantFromSharedInstance flaky_runtime ?u ?w =
      (Err (Wrapf ''failed to create database removal job'' (ApiError ''timeout'')), snd failed_removal)"
  proof -
    have "fst failed_removal = Err (Wrapf ''failed to create database removal job'' (ApiError ''timeout''))"
      by code_simp
    then show ?thesis unfolding failed_removal_def by (rule evaluated)
  qed
  have again: "removeTenantFromSharedInstance flaky_runtime ?u (snd failed_removal) =
      (fst repeated_removal, snd repeated_removal)" by (simp add: repeated_removal_def)
  have "tenant_list_of (sample_set ?us) = ?us"
    unfolding sample_set_def by (rule registry.members_store) (simp add: valid_uid_def)
  then have "map_option tenant_list_of (cl_stateful_sets (mem_view ?w) (''shared-services'', ''postgresql-abcdef'')) = Some ?us"
    by (simp add: mem_view_def sample_set_stored)
  moreover have "map_option tenant_list_of (cl_stateful_sets (mem_view (snd failed_removal))
      (''shared-services'', ''postgresql-abcdef'')) = Some [''f0000000-9999'']" by code_simp
  ultimately have changed: "cl_stateful_sets (mem_view (snd failed_removal)) \<noteq> cl_stateful_sets (mem_view ?w)" by auto
  have cons: "registries_consistent (mem_view ?w)" by (rule sample_consistent) (simp_all add: valid_uid_def)
  have jobs: "w_jobs (snd failed_removal) = []" "fst repeated_removal = Ok ()"
    "map name_of (w_jobs (snd (removeTenantFromSharedInstance mem_runtime ?u ?w))) = [''db-remove-0a1b2c3d'']"
    by code_simp+
  have "mem_view (snd repeated_removal) = mem_view (snd failed_removal)"
    using removal_job_lost [OF flaky_client, OF failed cons sample_listed_once changed removals.none again] by blast
  with jobs show ?thesis by (simp add: mem_view_def stored_def)
qed

end
