(* ===== verification/Lifecycle.thy ===== *)
theory Lifecycle
  imports Controller Registry
begin

text \<open>
  The properties of \<open>Reconcile\<close>: what a reconciliation of a live tenant establishes, what must be
  gone before the finalizer is removed, when the database part is left alone, and what an event of a
  ready pod does.
\<close>

section \<open>What a tenant's objects survive\<close>

text \<open>Objects that a live reconciliation created stay for the rest of it.\<close>

definition keeps_objects :: "'q cluster \<Rightarrow> 'q cluster \<Rightarrow> bool" where
  "keeps_objects v v' \<longleftrightarrow>
     cl_namespaces v \<subseteq>\<^sub>m cl_namespaces v' \<and> cl_quotas v \<subseteq>\<^sub>m cl_quotas v' \<and>
     cl_secrets v \<subseteq>\<^sub>m cl_secrets v' \<and> cl_jobs v \<subseteq>\<^sub>m cl_jobs v'"

lemma keeps_objects_preorder [simp]: "preorder_rel keeps_objects"
  by (rule preorder_relI) (auto simp: keeps_objects_def intro: map_le_trans)

lemma keeps_objects_trans: "\<lbrakk>keeps_objects a b; keeps_objects b c\<rbrakk> \<Longrightarrow> keeps_objects a c"
  by (auto simp: keeps_objects_def intro: map_le_trans)

lemma keeps_objects_kept:
  "\<lbrakk>keeps_objects v v'; cl_namespaces v k = Some x\<rbrakk> \<Longrightarrow> cl_namespaces v' k = Some x"
  "\<lbrakk>keeps_objects v v'; cl_quotas v k = Some q\<rbrakk> \<Longrightarrow> cl_quotas v' k = Some q"
  "\<lbrakk>keeps_objects v v'; cl_secrets v k \<noteq> None\<rbrakk> \<Longrightarrow> cl_secrets v' k \<noteq> None"
  "\<lbrakk>keeps_objects v v'; cl_jobs v k \<noteq> None\<rbrakk> \<Longrightarrow> cl_jobs v' k \<noteq> None"
  unfolding keeps_objects_def by (auto dest: map_le_kept)

lemma keeps_objects_updates [simp]:
  "keeps_objects v v" "keeps_objects v (cl_stateful_sets_update f1 v)"
  "keeps_objects v (cl_deployments_update f2 v)" "keeps_objects v (cl_tenants_update f3 v)"
  by (simp_all add: keeps_objects_def)

lemma only_adds_keeps_objects: "only_adds v v' \<Longrightarrow> keeps_objects v v'"
  by (simp add: only_adds_def keeps_objects_def)

context cluster_client
begin

lemma join_adds: "vsteps view only_adds (joinSharedInstance rt t n)"
  unfolding joinSharedInstance_def by (intro vsteps_rules only_adds_preorder instance_adds)

lemma CreatePostgreSQL_keeps_objects: "vsteps view keeps_objects (CreatePostgreSQLForTenant rt t)"
proof -
  have join: "vsteps view keeps_objects (joinSharedInstance rt t n)" for n
    by (rule vsteps_mono [OF join_adds only_adds_keeps_objects])
  have inst: "vsteps view keeps_objects (createPostgreSQLInstance rt t)"
    by (rule vsteps_mono [OF createPostgreSQLInstance_adds only_adds_keeps_objects])
  show ?thesis
    unfolding CreatePostgreSQLForTenant_def findAvailableSharedInstance_def addTenantToSharedInstance_def
      add_attempt_def Let_def
    by (intro vsteps_rules client_steps join inst keeps_objects_preorder; simp)
qed

lemma status_only_tenants:
  assumes "StatusUpdate rt x w = (r, w')"
  shows "\<exists>f. view w' = cl_tenants_update f (view w)"
  using ten.status_effect [OF assms]
proof (elim disjE exE conjE)
  assume "view w' = view w"
  then have "view w' = cl_tenants_update (\<lambda>m. m) (view w)" by simp
  then show ?thesis by blast
qed blast

lemma status_keeps_objects: "vsteps view keeps_objects (StatusUpdate rt x)"
  by (intro client_steps keeps_objects_preorder) simp

lemma DeleteResourceQuota_Ok:
  assumes "DeleteResourceQuotaForTenant rt t w = (Ok (), w')"
  shows "gone (cl_quotas (view w)) (cl_quotas (view w')) (''tenant-'' @ uid_of t, ''tenant-quota'')"
    and "\<exists>f. view w' = cl_quotas_update f (view w)"
proof -
  let ?k = "(''tenant-'' @ uid_of t, ''tenant-quota'')"
  from assms consider
      (found) q w1 where "ApiGet (Quotas rt) (fst ?k) (snd ?k) w = (Ok q, w1)"
        "ApiDelete (Quotas rt) q None w1 = (Ok (), w')"
    | (missing) e where "ApiGet (Quotas rt) (fst ?k) (snd ?k) w = (Err e, w')" "is_not_found e"
    unfolding DeleteResourceQuotaForTenant_def Let_def
    by (auto elim!: on_error_Ok and_then_Ok split: if_splits simp del: append_Cons)
  then have "gone (cl_quotas (view w)) (cl_quotas (view w')) ?k \<and>
      (\<exists>f. view w' = cl_quotas_update f (view w))"
  proof cases
    case found
    then have w1: "view w1 = view w" and "cl_quotas (view w) ?k = Some q"
      by (auto dest: quo.get_found)
    then have key: "key_of q = ?k" using quo.keyed by blast
    have "gone (cl_quotas (view w)) (cl_quotas (view w')) ?k"
      using quo.delete_gone [OF found(2)] by (simp add: w1 key del: append_Cons)
    moreover have "\<exists>f. view w' = cl_quotas_update f (view w)"
      using quo.delete_ok [OF found(2)] unfolding w1 by blast
    ultimately show ?thesis by blast
  next
    case missing
    then have "view w' = view w" "cl_quotas (view w) ?k = None"
      by (auto dest: quo.get_failed)
    then show ?thesis by (auto simp: gone_def intro!: exI [of _ "\<lambda>m. m"])
  qed
  then show "gone (cl_quotas (view w)) (cl_quotas (view w')) (''tenant-'' @ uid_of t, ''tenant-quota'')"
    and "\<exists>f. view w' = cl_quotas_update f (view w)" by blast+
qed

end

section \<open>A live reconciliation\<close>

text \<open>The tenant's database is in place: credentials, init job, and a server it belongs to.\<close>

definition has_database :: "'q cluster \<Rightarrow> 'q tenant_environment \<Rightarrow> bool" where
  "has_database v t \<longleftrightarrow>
     (let own = ''tenant-'' @ uid_of t; init = ''db-init-'' @ take 8 (uid_of t) in
      cl_secrets v (own, ''database-secret'') \<noteq> None \<and>
      (if DedicatedInstance (Database (Spec t))
       then cl_jobs v (own, init) \<noteq> None \<and>
         (\<exists>n. cl_stateful_sets v (own, n) \<noteq> None \<and> cl_services v (own, n) \<noteq> None)
       else cl_jobs v (''shared-services'', init) \<noteq> None \<and>
         (\<exists>n ss. cl_stateful_sets v (''shared-services'', n) = Some ss \<and>
            uid_of t \<in> set (tenant_list_of ss) \<and> registry_consistent ss)))"

lemma has_database_frame:
  "\<lbrakk>has_database v t; cl_secrets v' = cl_secrets v; cl_jobs v' = cl_jobs v;
    cl_stateful_sets v' = cl_stateful_sets v; cl_services v' = cl_services v\<rbrakk> \<Longrightarrow> has_database v' t"
  by (simp only: has_database_def)

lemma has_database_same: "same_tenant t t' \<Longrightarrow> has_database v t' = has_database v t"
  by (simp only: has_database_def same_tenant_def)

definition unassigned :: "'q tenant_environment \<Rightarrow> bool" where
  "unassigned t \<longleftrightarrow> DatabaseStatus (Status t) = '''' \<or> DatabaseStatus (Status t) = ''Unassigned''"

lemma when_Ok:
  assumes "(if b then m else ret ()) w = (Ok u, w')"
  obtains "b" and "m w = (Ok u, w')" | "\<not> b" and "w' = w"
  using assms by (auto split: if_splits)

context cluster_client
begin

lemma database_in_place:
  assumes run: "CreatePostgreSQLForTenant rt t w = (Ok (), w')"
    and cons: "registries_consistent (view w)" and valid: "valid_uid (uid_of t)"
  shows "has_database (view w') t"
proof (cases "DedicatedInstance (Database (Spec t))")
  case True
  with run obtain n where "createPostgreSQLInstance rt t w = (Ok n, w')"
    unfolding CreatePostgreSQLForTenant_def by (auto elim!: and_then_Ok)
  from instance_objects [OF this] True show ?thesis
    unfolding has_database_def Let_def if_P [OF True] by blast
next
  case False
  from shared_provisioned [OF run False cons valid] show ?thesis
    unfolding has_database_def Let_def if_not_P [OF False] by blast
qed

text \<open>A step of the main part that succeeded, with what it established.\<close>

lemma database_step:
  assumes run: "reconcile_database rt t k w = (Ok (b, None), w')" and sync: "in_sync (view w) t"
    and cons: "registries_consistent (view w)" and valid: "valid_uid (uid_of t)"
  obtains t2 w3 where "k t2 w3 = (Ok (b, None), w')" and "same_tenant t t2"
    and "in_sync (view w3) t2" and "keeps_objects (view w) (view w3)"
    and "unassigned t \<longrightarrow> DatabaseStatus (Status t2) = ''Assigned'' \<and> has_database (view w3) t"
proof (cases "unassigned t")
  case False
  with run have "k t w = (Ok (b, None), w')" by (simp add: reconcile_database_def unassigned_def)
  with sync False show ?thesis by (intro that [of t w]) simp_all
next
  case True
  with run obtain t1 w1 w2 t2 w3
    where s1: "StatusUpdate rt (set_database_status ''Provisioning'' t) w = (Ok t1, w1)"
      and db: "CreatePostgreSQLForTenant rt t1 w1 = (Ok (), w2)"
      and s2: "StatusUpdate rt (set_database_status ''Assigned'' t1) w2 = (Ok t2, w3)"
      and k: "k t2 w3 = (Ok (b, None), w')"
    unfolding reconcile_database_def unassigned_def
    by (auto elim!: or_stop_Ok)
  have x: "same_tenant t (set_database_status ''Provisioning'' t)" by (simp add: same_tenant_def)
  note t1 = status_sync [OF s1 sync x]
  have y: "same_tenant t1 (set_database_status ''Assigned'' t1)" by (simp add: same_tenant_def)
  have sync2: "in_sync (view w2) t1"
    using t1(1) vsteps_run [OF CreatePostgreSQL_same_tenants db] by (rule in_sync_same)
  note t2 = status_sync [OF s2 sync2 y]
  have same: "same_tenant t t2" using t1(2) t2(2) by (rule same_tenant_trans)
  obtain f where w1: "view w1 = cl_tenants_update f (view w)"
    using status_only_tenants [OF s1] by blast
  obtain g where w3: "view w3 = cl_tenants_update g (view w2)"
    using status_only_tenants [OF s2] by blast
  have "has_database (view w2) t1"
    using cons valid t1(2) by (intro database_in_place [OF db]) (simp_all add: w1 registries_consistent_def same_tenant_def)
  then have "has_database (view w3) t1" by (rule has_database_frame) (simp_all add: w3)
  then have "has_database (view w3) t" using has_database_same [OF t1(2)] by simp
  moreover have "keeps_objects (view w) (view w3)"
    using vsteps_run [OF status_keeps_objects s1] vsteps_run [OF CreatePostgreSQL_keeps_objects db]
      vsteps_run [OF status_keeps_objects s2] by (blast intro: keeps_objects_trans)
  ultimately show ?thesis using k same t2(1,3) by (intro that [of t2 w3]) simp_all
qed

end

definition established :: "'q quantity_pkg \<Rightarrow> 'q cluster \<Rightarrow> 'q tenant_environment \<Rightarrow> bool" where
  "established pkg v t \<longleftrightarrow>
     cl_namespaces v ('''', ''tenant-'' @ uid_of t) \<noteq> None \<and>
     (ResourceQuotas (Spec t) \<noteq> None \<longrightarrow>
        (\<exists>quota. cl_quotas v (''tenant-'' @ uid_of t, ''tenant-quota'') = Some quota \<and>
           (\<forall>key. agrees pkg (gm_lookup (Hard quota) key) (map_of (desired_resources pkg t) key)))) \<and>
     (\<exists>d. cl_deployments v (''tenant-'' @ uid_of t, ''backend'') = Some d \<and> rolled_out t d)"

lemma rolled_out_same: "same_tenant t t' \<Longrightarrow> rolled_out t' d = rolled_out t d"
  by (simp add: rolled_out_def same_tenant_def split: list.split)

context cluster_client
begin

lemma namespace_step:
  assumes "CreateNamespaceForTenant rt t w = (Ok u, w')"
  shows "\<exists>f. view w' = cl_namespaces_update f (view w)"
    and "cl_namespaces (view w') ('''', ''tenant-'' @ uid_of t) \<noteq> None"
proof -
  from tenant_ns.ensure_ok [OF assms] show "\<exists>f. view w' = cl_namespaces_update f (view w)"
  proof (elim disjE exE conjE)
    assume "view w' = view w"
    then have "view w' = cl_namespaces_update (\<lambda>m. m) (view w)" by simp
    then show ?thesis by blast
  qed blast
  show "cl_namespaces (view w') ('''', ''tenant-'' @ uid_of t) \<noteq> None"
    using tenant_ns.ensured [OF assms] unfolding namespace_keys .
qed

lemma quota_step:
  assumes "(if ResourceQuotas (Spec t) \<noteq> None then CreateResourceQuotaForTenant rt t else ret ()) w = (Ok (), w')"
    and refl: "\<And>q. QCmp (Quantities rt) q q = 0"
  shows "\<exists>f. view w' = cl_quotas_update f (view w)"
    and "ResourceQuotas (Spec t) \<noteq> None \<longrightarrow>
      (\<exists>quota. cl_quotas (view w') (''tenant-'' @ uid_of t, ''tenant-quota'') = Some quota \<and>
         (\<forall>key. agrees (Quantities rt) (gm_lookup (Hard quota) key)
            (map_of (desired_resources (Quantities rt) t) key)))"
proof -
  have "(\<exists>f. view w' = cl_quotas_update f (view w)) \<and> (ResourceQuotas (Spec t) \<noteq> None \<longrightarrow>
      (\<exists>quota. cl_quotas (view w') (''tenant-'' @ uid_of t, ''tenant-quota'') = Some quota \<and>
         (\<forall>key. agrees (Quantities rt) (gm_lookup (Hard quota) key)
            (map_of (desired_resources (Quantities rt) t) key))))"
    using assms(1)
  proof (cases rule: when_Ok)
    case 1
    from quota_written [OF 1(2) refl] obtain quota
      where w': "view w' = cl_quotas_update (\<lambda>m. m((''tenant-'' @ uid_of t, ''tenant-quota'') \<mapsto> quota)) (view w)"
        and q: "\<forall>key. agrees (Quantities rt) (gm_lookup (Hard quota) key)
            (map_of (desired_resources (Quantities rt) t) key)" by blast
    have "cl_quotas (view w') (''tenant-'' @ uid_of t, ''tenant-quota'') = Some quota"
      unfolding w' by simp
    with q w' show ?thesis by blast
  next
    case 2
    then have "view w' = cl_quotas_update (\<lambda>m. m) (view w)" by simp
    with 2(1) show ?thesis by blast
  qed
  then show "\<exists>f. view w' = cl_quotas_update f (view w)"
    and "ResourceQuotas (Spec t) \<noteq> None \<longrightarrow>
      (\<exists>quota. cl_quotas (view w') (''tenant-'' @ uid_of t, ''tenant-quota'') = Some quota \<and>
         (\<forall>key. agrees (Quantities rt) (gm_lookup (Hard quota) key)
            (map_of (desired_resources (Quantities rt) t) key)))" by blast+
qed

lemma main_steps:
  assumes "reconcile_main rt t w = (Ok (b, None), w')"
  obtains w1 w2 where "CreateNamespaceForTenant rt t w = (Ok (), w1)"
    and "(if ResourceQuotas (Spec t) \<noteq> None then CreateResourceQuotaForTenant rt t else ret ()) w1 = (Ok (), w2)"
    and "reconcile_database rt t (\<lambda>tenantEnv.
      or_stop (CreateTenantServiceDeployment rt tenantEnv) (\<lambda>_. ret (False, None))) w2 = (Ok (b, None), w')"
proof -
  from assms obtain u w1 where 1: "CreateNamespaceForTenant rt t w = (Ok u, w1)"
    and rest: "or_stop (if ResourceQuotas (Spec t) \<noteq> None then CreateResourceQuotaForTenant rt t else ret ()) (\<lambda>_.
      reconcile_database rt t (\<lambda>tenantEnv.
        or_stop (CreateTenantServiceDeployment rt tenantEnv) (\<lambda>_. ret (False, None)))) w1 = (Ok (b, None), w')"
    unfolding reconcile_main_def by (rule or_stop_Ok)
  from rest obtain u' w2 where
    "(if ResourceQuotas (Spec t) \<noteq> None then CreateResourceQuotaForTenant rt t else ret ()) w1 = (Ok u', w2)"
    "reconcile_database rt t (\<lambda>tenantEnv.
      or_stop (CreateTenantServiceDeployment rt tenantEnv) (\<lambda>_. ret (False, None))) w2 = (Ok (b, None), w')"
    by (rule or_stop_Ok)
  with 1 show ?thesis by (intro that) simp_all
qed

lemma main_established:
  assumes run: "reconcile_main rt t w = (Ok (b, None), w')" and sync: "in_sync (view w) t"
    and cons: "registries_consistent (view w)" and valid: "valid_uid (uid_of t)"
    and refl: "\<And>q. QCmp (Quantities rt) q q = 0"
  shows "established (Quantities rt) (view w') t"
    and "unassigned t \<Longrightarrow> has_database (view w') t \<and>
      (\<exists>t'. cl_tenants (view w') (key_of t) = Some t' \<and> same_tenant t t' \<and> DatabaseStatus (Status t') = ''Assigned'')"
proof -
  obtain w1 w2 where 1: "CreateNamespaceForTenant rt t w = (Ok (), w1)"
    and 2: "(if ResourceQuotas (Spec t) \<noteq> None then CreateResourceQuotaForTenant rt t else ret ()) w1 = (Ok (), w2)"
    and 3: "reconcile_database rt t (\<lambda>tenantEnv.
      or_stop (CreateTenantServiceDeployment rt tenantEnv) (\<lambda>_. ret (False, None))) w2 = (Ok (b, None), w')"
    by (rule main_steps [OF run])
  obtain f where w1: "view w1 = cl_namespaces_update f (view w)" using namespace_step(1) [OF 1] by blast
  obtain g where w2: "view w2 = cl_quotas_update g (view w1)" using quota_step(1) [OF 2 refl] by blast
  have ns: "cl_namespaces (view w2) ('''', ''tenant-'' @ uid_of t) \<noteq> None"
    using namespace_step(2) [OF 1] by (simp add: w2)
  have sync2: "in_sync (view w2) t" using sync by (simp add: in_sync_def w1 w2)
  have cons2: "registries_consistent (view w2)" using cons by (simp add: registries_consistent_def w1 w2)
  obtain t2 w3 where "or_stop (CreateTenantServiceDeployment rt t2) (\<lambda>_. ret (False, None)) w3 = (Ok (b, None), w')"
    and same: "same_tenant t t2" and sync3: "in_sync (view w3) t2" and kept: "keeps_objects (view w2) (view w3)"
    and db: "unassigned t \<longrightarrow> DatabaseStatus (Status t2) = ''Assigned'' \<and> has_database (view w3) t"
    by (rule database_step [OF 3 sync2 cons2 valid])
  then have 4: "CreateTenantServiceDeployment rt t2 w3 = (Ok (), w')"
    by (auto elim!: or_stop_Ok)
  obtain d where w': "view w' = cl_deployments_update (\<lambda>m. m((''tenant-'' @ uid_of t2, ''backend'') \<mapsto> d)) (view w3)"
    and d: "rolled_out t2 d"
    by (rule CreateDeployment_Ok [OF 4])
  have uid: "uid_of t2 = uid_of t" using same by (simp add: same_tenant_def)
  have "keeps_objects (view w2) (view w')"
    using kept keeps_objects_updates(3) unfolding w' by (rule keeps_objects_trans)
  moreover have "\<exists>d. cl_deployments (view w') (''tenant-'' @ uid_of t, ''backend'') = Some d \<and> rolled_out t d"
    using d rolled_out_same [OF same] by (auto simp: w' uid)
  ultimately show "established (Quantities rt) (view w') t"
    using ns quota_step(2) [OF 2 refl] keeps_objects_kept(1,2) unfolding established_def by blast
  assume "unassigned t"
  with db have db: "DatabaseStatus (Status t2) = ''Assigned''" "has_database (view w3) t" by blast+
  have "has_database (view w') t" using db by (auto intro: has_database_frame simp: w')
  moreover have "\<exists>t'. cl_tenants (view w') (key_of t) = Some t' \<and> same_tenant t t' \<and>
      DatabaseStatus (Status t') = ''Assigned''"
    using sync3 same db by (auto simp: in_sync_def w' same_tenant_def)
  ultimately show "has_database (view w') t \<and> (\<exists>t'. cl_tenants (view w') (key_of t) = Some t' \<and>
      same_tenant t t' \<and> DatabaseStatus (Status t') = ''Assigned'')" by blast
qed

end

section \<open>What the finalizer guards\<close>

text \<open>An object is removed when it is not stored any more or its deletion was accepted.\<close>

definition removed :: "(object_key \<rightharpoonup> 'x kobject_scheme) \<Rightarrow> object_key \<Rightarrow> bool" where
  "removed m k \<longleftrightarrow> (case m k of None \<Rightarrow> True | Some y \<Rightarrow> MetaDeletionTimestamp (ObjectMeta y) \<noteq> None)"

lemma gone_removed: "gone m m' k \<Longrightarrow> removed m' k"
  by (auto simp: gone_def removed_def)

text \<open>What a deleted tenant leaves behind: no namespace, no quota, no registration.\<close>

definition cleaned_up :: "'q cluster \<Rightarrow> 'q tenant_environment \<Rightarrow> bool" where
  "cleaned_up v t \<longleftrightarrow>
     removed (cl_namespaces v) ('''', ''tenant-'' @ uid_of t) \<and>
     (ResourceQuotas (Spec t) \<noteq> None \<longrightarrow> removed (cl_quotas v) (''tenant-'' @ uid_of t, ''tenant-quota'')) \<and>
     (\<not> DedicatedInstance (Database (Spec t)) \<longrightarrow>
        (\<forall>n ss. shared_instance v n = Some ss \<longrightarrow> uid_of t \<notin> set (tenant_list_of ss)))"

lemma shared_instance_frame:
  "cl_stateful_sets v' = cl_stateful_sets v \<Longrightarrow> shared_instance v' n = shared_instance v n"
  by (simp add: shared_instance_def)

lemma cleaned_up_tenants: "cleaned_up (cl_tenants_update f v) t = cleaned_up v t"
  by (simp add: cleaned_up_def shared_instance_def cong: option.case_cong)

context cluster_client
begin

lemma update_only_tenants:
  assumes "return_update rt b x w = (r, w')"
  shows "\<exists>f. view w' = cl_tenants_update f (view w)"
proof -
  from assms obtain r' where run: "ApiUpdate (Tenants rt) x w = (r', w')"
    unfolding return_update_def by (cases rule: on_error_cases) auto
  from ten.main_effect [OF run] show ?thesis
  proof (elim disjE exE conjE)
    assume "view w' = view w"
    then have "view w' = cl_tenants_update (\<lambda>m. m) (view w)" by simp
    then show ?thesis by blast
  qed blast
qed

lemma deletion_cases:
  assumes run: "reconcile_deletion rt t w = (r, w')"
  obtains (stopped) "same_tenants (view w) (view w')"
  | (cleaned) w1 w2 w3 where "DeletePostgreSQLForTenant rt t w = (Ok (), w1)"
      and "(if ResourceQuotas (Spec t) \<noteq> None then DeleteResourceQuotaForTenant rt t else ret ()) w1 = (Ok (), w2)"
      and "DeleteNamespaceForTenant rt (uid_of t) w2 = (Ok (), w3)"
      and "return_update rt False (RemoveFinalizer rt t tenantEnvironmentFinalizer) w3 = (r, w')"
proof -
  have same: "same_tenants a c" if "same_tenants a b" "same_tenants b c" for a b c :: "'b cluster"
    using that by (simp add: same_tenants_def)
  show ?thesis
  proof (cases "ContainsFinalizer rt t tenantEnvironmentFinalizer")
    case False
    with run show ?thesis by (intro stopped) (auto simp: reconcile_deletion_def same_tenants_def)
  next
    case True
    with run have "or_stop (DeletePostgreSQLForTenant rt t) (\<lambda>_.
        or_stop (if ResourceQuotas (Spec t) \<noteq> None then DeleteResourceQuotaForTenant rt t else ret ()) (\<lambda>_.
        or_stop (DeleteNamespaceForTenant rt (uid_of t)) (\<lambda>_.
          return_update rt False (RemoveFinalizer rt t tenantEnvironmentFinalizer)))) w = (r, w')"
      by (simp add: reconcile_deletion_def)
    then show ?thesis
    proof (cases rule: or_stop_cases)
      case (ok u w1)
      note s1 = vsteps_run [OF DeletePostgreSQL_same_tenants ok(1)] and d1 = ok(1)
      from ok(2) show ?thesis
      proof (cases rule: or_stop_cases)
        case (ok u' w2)
        note s2 = vsteps_run [OF when_same_tenants [OF utils_same_tenants(4)] ok(1)] and d2 = ok(1)
        from ok(2) show ?thesis
        proof (cases rule: or_stop_cases)
          case (ok u'' w3)
          with d1 d2 show ?thesis by (intro cleaned [of w1 w2 w3]) simp_all
        next
          case (err e)
          from vsteps_run [OF utils_same_tenants(2) err(1)] s1 s2 show ?thesis by (blast intro: stopped same)
        next
          case (panic s)
          from vsteps_run [OF utils_same_tenants(2) panic(1)] s1 s2 show ?thesis by (blast intro: stopped same)
        qed
      next
        case (err e)
        from vsteps_run [OF when_same_tenants [OF utils_same_tenants(4)] err(1)] s1
        show ?thesis by (blast intro: stopped same)
      next
        case (panic s)
        from vsteps_run [OF when_same_tenants [OF utils_same_tenants(4)] panic(1)] s1
        show ?thesis by (blast intro: stopped same)
      qed
    next
      case (err e)
      from vsteps_run [OF DeletePostgreSQL_same_tenants err(1)] show ?thesis by (rule stopped)
    next
      case (panic s)
      from vsteps_run [OF DeletePostgreSQL_same_tenants panic(1)] show ?thesis by (rule stopped)
    qed
  qed
qed

lemma deletion_cleans:
  assumes db: "DeletePostgreSQLForTenant rt t w = (Ok (), w1)"
    and quota: "(if ResourceQuotas (Spec t) \<noteq> None then DeleteResourceQuotaForTenant rt t else ret ()) w1 = (Ok (), w2)"
    and ns: "DeleteNamespaceForTenant rt (uid_of t) w2 = (Ok (), w3)"
    and cons: "registries_consistent (view w)" and once: "listed_once (view w)"
  shows "cleaned_up (view w3) t"
proof -
  have w2: "\<exists>f. view w2 = cl_quotas_update f (view w1)"
    and q: "ResourceQuotas (Spec t) \<noteq> None \<longrightarrow> removed (cl_quotas (view w2)) (''tenant-'' @ uid_of t, ''tenant-quota'')"
  proof -
    have "(\<exists>f. view w2 = cl_quotas_update f (view w1)) \<and> (ResourceQuotas (Spec t) \<noteq> None \<longrightarrow>
        removed (cl_quotas (view w2)) (''tenant-'' @ uid_of t, ''tenant-quota''))"
      using quota
    proof (cases rule: when_Ok)
      case 1
      from DeleteResourceQuota_Ok [OF 1(2)] gone_removed show ?thesis by blast
    next
      case 2
      then have "view w2 = cl_quotas_update (\<lambda>m. m) (view w1)" by simp
      with 2(1) show ?thesis by blast
    qed
    then show "\<exists>f. view w2 = cl_quotas_update f (view w1)"
      and "ResourceQuotas (Spec t) \<noteq> None \<longrightarrow> removed (cl_quotas (view w2)) (''tenant-'' @ uid_of t, ''tenant-quota'')"
      by blast+
  qed
  note w3 = DeleteNamespace_Ok(2) [OF ns]
  have "removed (cl_namespaces (view w3)) ('''', ''tenant-'' @ uid_of t)"
    using DeleteNamespace_Ok(1) [OF ns] by (auto simp: removed_def)
  moreover have "cl_quotas (view w3) = cl_quotas (view w2)" by (subst w3) simp
  moreover have "uid_of t \<notin> set (tenant_list_of ss)"
    if "\<not> DedicatedInstance (Database (Spec t))" "shared_instance (view w3) n = Some ss" for n ss
  proof (rule removed_everywhere [of "uid_of t" w w1])
    show "removeTenantFromSharedInstance rt (uid_of t) w = (Ok (), w1)"
      using db that(1) by (simp add: DeletePostgreSQLForTenant_def)
    have "cl_stateful_sets (view w3) = cl_stateful_sets (view w2)" by (subst w3) simp
    then have "cl_stateful_sets (view w3) = cl_stateful_sets (view w1)" using w2 by auto
    then show "shared_instance (view w1) n = Some ss" using that(2) by (simp add: shared_instance_def)
  qed (rule cons, rule listed_onceD [OF once])
  ultimately show ?thesis using q unfolding cleaned_up_def by simp
qed

end

section \<open>A database that is not unassigned\<close>

text \<open>What provisioning would change: the objects of the database part, and the tenants.\<close>

definition same_database :: "'q cluster \<Rightarrow> 'q cluster \<Rightarrow> bool" where
  "same_database v v' \<longleftrightarrow>
     cl_secrets v' = cl_secrets v \<and> cl_config_maps v' = cl_config_maps v \<and>
     cl_stateful_sets v' = cl_stateful_sets v \<and> cl_services v' = cl_services v \<and>
     cl_jobs v' = cl_jobs v \<and> cl_claims v' = cl_claims v \<and> cl_tenants v' = cl_tenants v"

lemma same_database_preorder [simp]: "preorder_rel same_database"
  by (rule preorder_relI) (auto simp: same_database_def)

lemma same_database_updates [simp]:
  "same_database v (cl_namespaces_update f1 v)" "same_database v (cl_quotas_update f2 v)"
  "same_database v (cl_deployments_update f3 v)"
  by (simp_all add: same_database_def)

context cluster_client
begin

lemma main_same_database:
  assumes "\<not> unassigned t"
  shows "vsteps view same_database (reconcile_main rt t)"
proof -
  have ns: "vsteps view same_database (CreateNamespaceForTenant rt t)"
    unfolding CreateNamespaceForTenant_def Let_def
    by (intro vsteps_rules client_steps same_database_preorder; simp)
  have quota: "vsteps view same_database (CreateResourceQuotaForTenant rt t)"
    unfolding CreateResourceQuotaForTenant_def Let_def split_def
    by (intro vsteps_rules client_steps vsteps_sync_desired same_database_preorder; simp)
  have deployment: "vsteps view same_database (CreateTenantServiceDeployment rt t)"
    unfolding CreateTenantServiceDeployment_def Let_def split_def
    by (intro vsteps_rules client_steps vsteps_roll_out same_database_preorder; simp)
  have "reconcile_database rt t = (\<lambda>k. k t)"
    using assms by (auto simp: reconcile_database_def unassigned_def fun_eq_iff)
  then show ?thesis
    unfolding reconcile_main_def or_stop_def
    by (simp only:) (intro vsteps_rules ns quota deployment same_database_preorder)
qed

end

section \<open>Pod events\<close>

lemma ready_at_set: "ReadyAt (Status t) \<noteq> None \<Longrightarrow> mark_ready rt t = ret (False, None)"
  by (auto simp: mark_ready_def)

context cluster_client
begin

lemma get_same_tenant: "cl_tenants (view w) k = Some t \<Longrightarrow> key_of t = k"
  by (rule ten.keyed)

text \<open>Marking a tenant ready that was not: the duration is recorded first, then the status.\<close>

lemma mark_ready_run:
  assumes run: "mark_ready rt t w = (r, w')" and "ReadyAt (Status t) = None"
  defines "label \<equiv> (if DedicatedInstance (Database (Spec t)) then ''true'' else ''false'')"
  obtains now w1 w2 r2 where "TimeNow rt w = (Ok now, w1)"
    and "view w2 = (view w)\<lparr>cl_observed := cl_observed (view w) @
       (case CreatedAt (Status t) of None \<Rightarrow> [] | Some c \<Rightarrow> [(label, duration_Seconds (time_Sub now c))])\<rparr>"
    and "StatusUpdate rt (t\<lparr>Status := (Status t)\<lparr>ReadyAt := Some now, Phase := ''Ready''\<rparr>\<rparr>) w2 = (r2, w')"
    and "r = (case r2 of Ok x \<Rightarrow> Ok (False, None) | Err e \<Rightarrow> Ok (False, Some e) | Panic s \<Rightarrow> Panic s)"
proof -
  from run show ?thesis
    unfolding mark_ready_def if_P [OF assms(2)]
  proof (cases rule: and_then_cases)
    case (ok now w1)
    note clock = ok(1)
    have w1: "view w1 = view w" using now_view [OF clock] by simp
    from ok(2) show ?thesis
      unfolding Let_def
    proof (cases rule: and_then_cases)
      case (ok u w2)
      have "view w2 = (view w)\<lparr>cl_observed := cl_observed (view w) @
          (case CreatedAt (Status t) of None \<Rightarrow> [] | Some c \<Rightarrow> [(label, duration_Seconds (time_Sub now c))])\<rparr>"
        using ok(1) w1 by (auto dest: observe_view simp: label_def split: option.splits if_splits)
      moreover from ok(2) obtain r2 where
        "StatusUpdate rt (t\<lparr>Status := (Status t)\<lparr>ReadyAt := Some now, Phase := ''Ready''\<rparr>\<rparr>) w2 = (r2, w')"
        "r = (case r2 of Ok x \<Rightarrow> Ok (False, None) | Err e \<Rightarrow> Ok (False, Some e) | Panic s \<Rightarrow> Panic s)"
        by (cases rule: or_stop_cases) auto
      ultimately show ?thesis by (rule that [OF clock])
    next
      case (err e)
      then show ?thesis by (auto dest: observe_view split: option.splits)
    next
      case (panic s)
      then show ?thesis by (auto dest: observe_view split: option.splits)
    qed
  qed (auto dest: now_view)
qed

lemma ready_once:
  assumes "handlePodEventFromMapping rt req w = (r, w')"
    and "strings_Split CHR '':'' (RequestName req) = [x, p, n]"
    and "cl_tenants (view w) (RequestNamespace req, n) = Some t" and "ReadyAt (Status t) \<noteq> None"
  shows "view w' = view w"
  using assms(1)
proof (cases rule: pod_event_cases)
  case nothing
  then show ?thesis by simp
next
  case (ready x' p' n' t' pod w1)
  with assms(2,3) have "t' = t" by auto
  with ready assms(4) show ?thesis by (auto simp: ready_at_set)
qed

end

end
