(* ===== verification/Operator.thy ===== *)
theory Operator
  imports Lifecycle
begin

text \<open>
  The operator as a transition system: reconciliations of any request with any outcome, restarts
  (\<open>startupRunner.Start\<close>), the mapping of pods, and what the rest of the cluster does in between;
  and the invariant of every run of it.
\<close>

section \<open>The invariant\<close>

text \<open>
  The registries are consistent, no tenant is registered twice, tenants have valid and distinct
  identifiers, and a tenant whose database is unassigned is registered nowhere.
\<close>

definition tenants_sound :: "'q cluster \<Rightarrow> bool" where
  "tenants_sound v \<longleftrightarrow>
     (\<forall>k t. cl_tenants v k = Some t \<longrightarrow> valid_uid (uid_of t)) \<and>
     (\<forall>k k' t t'. cl_tenants v k = Some t \<longrightarrow> cl_tenants v k' = Some t' \<longrightarrow> uid_of t = uid_of t' \<longrightarrow> k = k')"

definition unassigned_unlisted :: "'q cluster \<Rightarrow> bool" where
  "unassigned_unlisted v \<longleftrightarrow>
     (\<forall>k t n. cl_tenants v k = Some t \<longrightarrow> unassigned t \<longrightarrow> \<not> listed v n (uid_of t))"

definition operator_inv :: "'q cluster \<Rightarrow> bool" where
  "operator_inv v \<longleftrightarrow>
     registries_consistent v \<and> listed_once v \<and> tenants_sound v \<and> unassigned_unlisted v"

lemma operator_invI:
  "\<lbrakk>registries_consistent v; listed_once v; tenants_sound v; unassigned_unlisted v\<rbrakk> \<Longrightarrow> operator_inv v"
  by (simp add: operator_inv_def)

lemma operator_invD:
  assumes "operator_inv v"
  shows "registries_consistent v" "listed_once v" "tenants_sound v" "unassigned_unlisted v"
  using assms by (simp_all add: operator_inv_def)

lemma tenants_sound_progress:
  assumes "tenants_progress v v'" and "tenants_sound v"
  shows "tenants_sound v'"
proof -
  have origin: "\<exists>t. cl_tenants v k = Some t \<and> uid_of t' = uid_of t" if "cl_tenants v' k = Some t'" for k t'
    using tenants_progressD [OF assms(1) that] by (auto simp: same_tenant_def)
  have valid: "valid_uid (uid_of t')" if "cl_tenants v' k = Some t'" for k t'
    using origin [OF that] assms(2) unfolding tenants_sound_def by metis
  have unique: "k = k'" if "cl_tenants v' k = Some t" "cl_tenants v' k' = Some t'" "uid_of t = uid_of t'" for k k' t t'
    using origin [OF that(1)] origin [OF that(2)] that(3) assms(2) unfolding tenants_sound_def by metis
  show ?thesis unfolding tenants_sound_def using valid unique by blast
qed

lemma db_step_to: "db_step\<^sup>*\<^sup>* s s' \<Longrightarrow> s' = '''' \<or> s' = ''Unassigned'' \<Longrightarrow> s = s'"
  by (induction rule: rtranclp_induct) (auto elim: db_step.cases)

lemma unassigned_back: "\<lbrakk>status_le (Status t) (Status t'); unassigned t'\<rbrakk> \<Longrightarrow> unassigned t"
  unfolding status_le_def unassigned_def using db_step_to by fastforce

text \<open>Steps that only shrink the lists.\<close>

lemma operator_inv_shrink:
  assumes inv: "operator_inv v" and tenants: "tenants_progress v v'" and cons: "registries_consistent v'"
    and less: "\<And>n u. listed v' n u \<Longrightarrow> listed v n u"
  shows "operator_inv v'"
proof (rule operator_invI [OF cons])
  show "listed_once v'" using operator_invD(2) [OF inv] less unfolding listed_once_def by blast
  show "tenants_sound v'" by (rule tenants_sound_progress [OF tenants operator_invD(3) [OF inv]])
  show "unassigned_unlisted v'"
    unfolding unassigned_unlisted_def
  proof (intro allI impI notI)
    fix k t' n
    assume t': "cl_tenants v' k = Some t'" "unassigned t'" "listed v' n (uid_of t')"
    from tenants_progressD [OF tenants t'(1)] obtain t where "cl_tenants v k = Some t"
      "uid_of t' = uid_of t" "status_le (Status t) (Status t')" by (auto simp: same_tenant_def)
    moreover from this t'(2) have "unassigned t" by (blast intro: unassigned_back)
    ultimately show False
      using less [OF t'(3)] operator_invD(4) [OF inv] unfolding unassigned_unlisted_def by metis
  qed
qed

text \<open>The step of a tenant that is registered: by then its database is not unassigned.\<close>

lemma operator_inv_enrol:
  assumes inv: "operator_inv v" and tenants: "tenants_progress v v'" and cons: "registries_consistent v'"
    and enrols: "enrols u (listed v) (listed v')"
    and busy: "\<And>k t'. \<lbrakk>cl_tenants v' k = Some t'; uid_of t' = u\<rbrakk> \<Longrightarrow> \<not> unassigned t'"
  shows "operator_inv v'"
proof (rule operator_invI [OF cons])
  have step: "table_step u (listed v) (listed v')" using enrols by (simp add: table_step_def)
  show "listed_once v'"
    using table_step_single [OF step] operator_invD(2) [OF inv] by (simp add: listed_once_table)
  show "tenants_sound v'" by (rule tenants_sound_progress [OF tenants operator_invD(3) [OF inv]])
  show "unassigned_unlisted v'"
    unfolding unassigned_unlisted_def
  proof (intro allI impI notI)
    fix k t' n
    assume t': "cl_tenants v' k = Some t'" "unassigned t'" "listed v' n (uid_of t')"
    from tenants_progressD [OF tenants t'(1)] obtain t where t: "cl_tenants v k = Some t"
      "uid_of t' = uid_of t" "status_le (Status t) (Status t')" by (auto simp: same_tenant_def)
    from busy [OF t'(1)] t'(2) have "uid_of t' \<noteq> u" by blast
    with table_step_others [OF step] t'(3) have "listed v n (uid_of t)" by (simp add: t(2))
    moreover have "unassigned t" using t(3) t'(2) by (rule unassigned_back)
    ultimately show False using t(1) operator_invD(4) [OF inv] unfolding unassigned_unlisted_def by blast
  qed
qed

section \<open>Every reconciliation keeps it\<close>

text \<open>The stateful sets, which hold the registries, change only in the database part.\<close>

abbreviation same_sets :: "'q cluster \<Rightarrow> 'q cluster \<Rightarrow> bool" where
  "same_sets v v' \<equiv> cl_stateful_sets v' = cl_stateful_sets v"

context cluster_client
begin

lemma same_sets_parts:
  "vsteps view same_sets (CreateNamespaceForTenant rt t)"
  "vsteps view same_sets (DeleteNamespaceForTenant rt u)"
  "vsteps view same_sets (DeleteResourceQuotaForTenant rt t)"
  "vsteps view same_sets (CreateResourceQuotaForTenant rt t)"
  "vsteps view same_sets (CreateTenantServiceDeployment rt t)"
  "vsteps view same_sets (return_update rt b t)"
  "vsteps view same_sets (GetTenantEnvironment rt ns n)"
  unfolding CreateNamespaceForTenant_def DeleteNamespaceForTenant_def DeleteResourceQuotaForTenant_def
    CreateResourceQuotaForTenant_def CreateTenantServiceDeployment_def return_update_def
    GetTenantEnvironment_def Let_def split_def
  by (intro vsteps_rules client_steps vsteps_sync_desired vsteps_roll_out preorder_frame; simp)+

lemma same_sets_finalizer: "vsteps view same_sets (reconcile_finalizer rt t)"
  unfolding reconcile_finalizer_def or_stop_def Let_def
  by (intro vsteps_rules client_steps same_sets_parts preorder_frame; simp)

lemma same_sets_ready: "vsteps view same_sets (mark_ready rt t)"
  unfolding mark_ready_def or_stop_def Let_def
  by (intro vsteps_rules client_steps preorder_frame; simp)

lemma same_sets_start: "vsteps view same_sets (Start rt)"
  unfolding Start_def ensureSharedServicesNamespace_def ensureSharedPostgreSQLConfigMap_def
    shared_config_literal_def
  by (intro vsteps_rules client_steps vsteps_read_config preorder_frame; simp)

lemma deletion_expels:
  assumes run: "reconcile_deletion rt t w = (r, w')" and cons: "registries_consistent (view w)"
  shows "expels (uid_of t) (listed (view w)) (listed (view w')) \<and> registries_consistent (view w')"
proof (cases "ContainsFinalizer rt t tenantEnvironmentFinalizer")
  case False
  with run cons show ?thesis by (auto simp: reconcile_deletion_def expels.not_listed)
next
  case True
  let ?rest = "or_stop (if ResourceQuotas (Spec t) \<noteq> None then DeleteResourceQuotaForTenant rt t else ret ()) (\<lambda>_.
        or_stop (DeleteNamespaceForTenant rt (uid_of t)) (\<lambda>_.
          return_update rt False (RemoveFinalizer rt t tenantEnvironmentFinalizer)))"
  have rest: "vsteps view same_sets ?rest"
    unfolding or_stop_def by (intro vsteps_rules same_sets_parts preorder_frame)
  have after: "expels (uid_of t) (listed (view w)) (listed (view w1)) \<and> registries_consistent (view w1)"
    if "DeletePostgreSQLForTenant rt t w = (r1, w1)" for r1 w1
    using delete_expels [OF that cons] vsteps_run [OF DeletePostgreSQL_keeps_registries that] cons by blast
  from run True have "or_stop (DeletePostgreSQLForTenant rt t) (\<lambda>_. ?rest) w = (r, w')"
    by (simp add: reconcile_deletion_def)
  then show ?thesis
  proof (cases rule: or_stop_cases)
    case (ok u w1)
    have same: "same_sets (view w1) (view w')" by (rule vsteps_run [OF rest ok(2)])
    from after [OF ok(1)] show ?thesis
      unfolding listed_frame [OF same] registries_consistent_def same .
  next
    case (err e)
    from after [OF err(1)] show ?thesis .
  next
    case (panic s)
    from after [OF panic(1)] show ?thesis .
  qed
qed

end

context cluster_client
begin

text \<open>
  Once \<open>Provisioning\<close> is stored, the tenant is not unassigned any more, whatever happens next.
\<close>

lemma provisioning_busy:
  assumes sync: "in_sync (view w) t" and status: "DatabaseStatus (Status t) = ''Provisioning''"
    and sound: "tenants_sound (view w)" and progress: "tenants_progress (view w) (view w')"
    and t': "cl_tenants (view w') k = Some t'" "uid_of t' = uid_of t"
  shows "\<not> unassigned t'"
proof
  assume "unassigned t'"
  from tenants_progressD [OF progress t'(1)] obtain s where s: "cl_tenants (view w) k = Some s"
    "uid_of s = uid_of t" "status_le (Status s) (Status t')" using t'(2) by (auto simp: same_tenant_def)
  obtain cur where cur: "cl_tenants (view w) (key_of t) = Some cur" "uid_of cur = uid_of t" "Status cur = Status t"
    using sync by (auto simp: in_sync_def same_tenant_def)
  have "k = key_of t" using sound s(1,2) cur(1,2) unfolding tenants_sound_def by metis
  with s(1) cur have "Status s = Status t" by simp
  moreover have "unassigned s" using s(3) \<open>unassigned t'\<close> by (rule unassigned_back)
  ultimately show False using status by (simp add: unassigned_def)
qed

lemma provision_enrols:
  assumes run: "or_stop (CreatePostgreSQLForTenant rt t) (\<lambda>_.
        or_stop (StatusUpdate rt (set_database_status ''Assigned'' t)) k) w = (r, w')"
    and k: "\<And>t'. vsteps view same_sets (k t')"
    and cons: "registries_consistent (view w)" and valid: "valid_uid (uid_of t)"
    and fresh: "\<forall>n. \<not> listed (view w) n (uid_of t)"
  shows "enrols (uid_of t) (listed (view w)) (listed (view w')) \<and> registries_consistent (view w')"
proof -
  have after: "enrols (uid_of t) (listed (view w)) (listed (view w1)) \<and> registries_consistent (view w1)"
    if "CreatePostgreSQLForTenant rt t w = (r1, w1)" for r1 w1
    using create_enrols [OF that cons valid fresh] cons
      vsteps_run [OF CreatePostgreSQL_keeps_registries [OF valid] that] by blast
  have rest: "vsteps view same_sets (or_stop (StatusUpdate rt (set_database_status ''Assigned'' t)) k)"
    unfolding or_stop_def by (intro vsteps_rules client_steps k preorder_frame) simp
  from run show ?thesis
  proof (cases rule: or_stop_cases)
    case (ok u w1)
    have same: "same_sets (view w1) (view w')" by (rule vsteps_run [OF rest ok(2)])
    from after [OF ok(1)] show ?thesis
      unfolding listed_frame [OF same] registries_consistent_def same .
  next
    case (err e)
    from after [OF err(1)] show ?thesis .
  next
    case (panic s)
    from after [OF panic(1)] show ?thesis .
  qed
qed

lemma operator_inv_quiet:
  assumes "operator_inv v" and "tenants_progress v v'" and same: "same_sets v v'"
  shows "operator_inv v'"
proof (rule operator_inv_shrink [OF assms(1,2)])
  show "registries_consistent v'" using operator_invD(1) [OF assms(1)] by (simp add: registries_consistent_def same)
  show "listed v n u" if "listed v' n u" for n u using that by (simp add: listed_frame [OF same])
qed

lemma status_same_sets: "vsteps view same_sets (StatusUpdate rt t)"
  by (intro client_steps preorder_frame) simp

lemma in_sync_unlisted:
  assumes "operator_inv v" and "in_sync v t" and "unassigned t"
  shows "\<not> listed v n (uid_of t)" and "valid_uid (uid_of t)"
proof -
  obtain cur where cur: "cl_tenants v (key_of t) = Some cur" "uid_of cur = uid_of t" "Status cur = Status t"
    using assms(2) by (auto simp: in_sync_def same_tenant_def)
  then have "unassigned cur" using assms(3) by (simp add: unassigned_def)
  then show "\<not> listed v n (uid_of t)"
    using cur(1,2) operator_invD(4) [OF assms(1)] unfolding unassigned_unlisted_def by metis
  show "valid_uid (uid_of t)"
    using cur(1,2) operator_invD(3) [OF assms(1)] unfolding tenants_sound_def by metis
qed

lemma database_inv:
  assumes run: "reconcile_database rt t k w = (r, w')" and sync: "in_sync (view w) t" and new: "unassigned t"
    and k: "\<And>t'. vsteps view same_sets (k t')"
    and k_progress: "\<And>t' w1. \<lbrakk>same_tenant t t'; k t' w1 = (r, w')\<rbrakk> \<Longrightarrow> tenants_progress (view w1) (view w')"
    and inv: "operator_inv (view w)"
  shows "operator_inv (view w') \<and> table_step (uid_of t) (listed (view w)) (listed (view w'))"
proof -
  let ?x = "set_database_status ''Provisioning'' t"
  have x: "same_tenant t ?x" by (simp add: same_tenant_def)
  have le: "status_le (Status t) (Status ?x)"
    using new by (auto simp: status_le_def set_database_status_def db_steps unassigned_def)
  have first: "operator_inv (view w1) \<and> same_sets (view w) (view w1) \<and> listed (view w1) = listed (view w)"
    if "StatusUpdate rt ?x w = (r1, w1)" for r1 w1
    using operator_inv_quiet [OF inv status_progress [OF that sync x le]] vsteps_run [OF status_same_sets that]
    by (blast intro: listed_frame)
  from run new have "or_stop (StatusUpdate rt ?x) (\<lambda>tenantEnv.
        or_stop (CreatePostgreSQLForTenant rt tenantEnv) (\<lambda>_.
        or_stop (StatusUpdate rt (set_database_status ''Assigned'' tenantEnv)) k)) w = (r, w')"
    by (simp add: reconcile_database_def unassigned_def)
  then show ?thesis
  proof (cases rule: or_stop_cases)
    case (ok t1 w1)
    note t1 = status_sync [OF ok(1) sync x]
    have uid: "uid_of t1 = uid_of t" using t1(2) by (simp add: same_tenant_def)
    have status: "DatabaseStatus (Status t1) = ''Provisioning''" by (simp add: t1(3))
    have inv1: "operator_inv (view w1)" and same: "same_sets (view w) (view w1)"
      and lists: "listed (view w1) = listed (view w)" using first [OF ok(1)] by blast+
    have fresh: "\<forall>n. \<not> listed (view w1) n (uid_of t1)"
      using in_sync_unlisted(1) [OF inv sync new] by (simp add: uid listed_frame [OF same])
    have progress: "tenants_progress (view w1) (view w')"
      by (rule provision_progress [OF ok(2) t1(1) status])
        (blast intro: k_progress same_tenant_trans [OF t1(2)])
    have enrolled: "enrols (uid_of t1) (listed (view w1)) (listed (view w')) \<and> registries_consistent (view w')"
      by (rule provision_enrols [OF ok(2) k operator_invD(1) [OF inv1] _ fresh])
        (use in_sync_unlisted(2) [OF inv sync new] in \<open>simp add: uid\<close>)
    then have "operator_inv (view w')"
      by (intro operator_inv_enrol [OF inv1 progress])
        (use provisioning_busy [OF t1(1) status operator_invD(3) [OF inv1] progress] in \<open>blast+\<close>)
    with enrolled show ?thesis by (simp add: table_step_def uid lists)
  next
    case (err e)
    from first [OF err(1)] show ?thesis by simp
  next
    case (panic s)
    from first [OF panic(1)] show ?thesis by simp
  qed
qed

end

context cluster_client
begin

lemma quiet_then:
  assumes run: "or_stop m k w = (r, w')" and m: "vsteps view same_tenants m" "vsteps view same_sets m"
    and sync: "in_sync (view w) t" and inv: "operator_inv (view w)"
    and k: "\<And>a w1. \<lbrakk>k a w1 = (r, w'); in_sync (view w1) t; operator_inv (view w1)\<rbrakk> \<Longrightarrow>
      operator_inv (view w') \<and> table_step (uid_of t) (listed (view w1)) (listed (view w'))"
  shows "operator_inv (view w') \<and> table_step (uid_of t) (listed (view w)) (listed (view w'))"
proof -
  have after: "in_sync (view w1) t \<and> operator_inv (view w1) \<and> listed (view w1) = listed (view w)"
    if "m w = (r1, w1)" for r1 w1
    using in_sync_same [OF sync vsteps_run [OF m(1) that]]
      operator_inv_quiet [OF inv same_tenants_progress [OF vsteps_run [OF m(1) that]] vsteps_run [OF m(2) that]]
      listed_frame [OF vsteps_run [OF m(2) that]]
    by blast
  from run show ?thesis
  proof (cases rule: or_stop_cases)
    case (ok a w1)
    from k [OF ok(2)] after [OF ok(1)] show ?thesis by simp
  next
    case (err e)
    from after [OF err(1)] show ?thesis by simp
  next
    case (panic s)
    from after [OF panic(1)] show ?thesis by simp
  qed
qed

lemma main_inv:
  assumes run: "reconcile_main rt t w = (r, w')" and sync: "in_sync (view w) t" and inv: "operator_inv (view w)"
  shows "operator_inv (view w') \<and> table_step (uid_of t) (listed (view w)) (listed (view w'))"
proof (cases "unassigned t")
  case False
  have "same_database (view w) (view w')" by (rule vsteps_run [OF main_same_database [OF False] run])
  then show ?thesis
    by (intro conjI operator_inv_quiet [OF inv])
      (simp_all add: same_database_def tenants_progress_same listed_frame [of "view w'" "view w"])
next
  case True
  let ?k = "\<lambda>t'. or_stop (CreateTenantServiceDeployment rt t') (\<lambda>_. ret (False, None))"
  have k: "vsteps view same_sets (?k t')" for t'
    unfolding or_stop_def by (intro vsteps_rules same_sets_parts preorder_frame)
  have k_progress: "tenants_progress (view w1) (view w')" if "?k t' w1 = (r, w')" for t' w1
    by (rule or_stop_progress [OF that deployment_same_tenants]) (simp add: tenants_progress_same)
  have quota: "vsteps view same_sets (if b then CreateResourceQuotaForTenant rt t else ret ())" for b
    by (intro vsteps_rules same_sets_parts preorder_frame)
  from run show ?thesis
    unfolding reconcile_main_def
  proof (rule quiet_then [OF _ utils_same_tenants(1) same_sets_parts(1) sync inv])
    fix w1
    assume run1: "or_stop (if ResourceQuotas (Spec t) \<noteq> None then CreateResourceQuotaForTenant rt t else ret ())
          (\<lambda>_. reconcile_database rt t ?k) w1 = (r, w')"
      and "in_sync (view w1) t" "operator_inv (view w1)"
    then show "operator_inv (view w') \<and> table_step (uid_of t) (listed (view w1)) (listed (view w'))"
    proof (rule quiet_then [OF _ when_same_tenants [OF quota_same_tenants] quota])
      fix w2
      assume run2: "reconcile_database rt t ?k w2 = (r, w')"
        and sync2: "in_sync (view w2) t" and inv2: "operator_inv (view w2)"
      show "operator_inv (view w') \<and> table_step (uid_of t) (listed (view w2)) (listed (view w'))"
        by (rule database_inv [OF run2 sync2 True k k_progress inv2])
    qed
  qed
qed

lemma Reconcile_inv:
  assumes run: "Reconcile rt req w = (r, w')" and inv: "operator_inv (view w)"
  shows "operator_inv (view w')"
  using run
proof (cases rule: Reconcile_cases)
  case event
  have progress: "tenants_progress (view w) (view w')" by (rule Reconcile_progress [OF run])
  from event(2) show ?thesis
  proof (cases rule: pod_event_cases)
    case nothing
    with inv show ?thesis by simp
  next
    case (ready x p n t pod w1)
    have "same_sets (view w1) (view w')" by (rule vsteps_run [OF same_sets_ready ready(8)])
    then show ?thesis by (intro operator_inv_quiet [OF inv progress]) (simp add: ready(7))
  qed
next
  case (deleting t w1)
  have "registries_consistent (view w1)" using operator_invD(1) [OF inv] by (simp add: deleting(4))
  from deletion_expels [OF deleting(7) this]
  have "expels (uid_of t) (listed (view w)) (listed (view w'))" "registries_consistent (view w')"
    by (simp_all add: deleting(4))
  then show ?thesis
    by (intro operator_inv_shrink [OF inv Reconcile_progress [OF run]]) (blast dest: expels_less)+
next
  case (unmarked t w1)
  have "same_sets (view w1) (view w')" by (rule vsteps_run [OF same_sets_finalizer unmarked(8)])
  then show ?thesis by (intro operator_inv_quiet [OF inv Reconcile_progress [OF run]]) (simp add: unmarked(4))
next
  case (live t w1)
  then have "in_sync (view w1) t" by (auto simp: in_sync_def)
  moreover have "operator_inv (view w1)" using inv by (simp add: live(4))
  ultimately show ?thesis using main_inv [OF live(8)] by blast
qed (use inv in simp_all)

lemma Start_inv:
  assumes run: "Start rt w = (r, w')" and inv: "operator_inv (view w)"
  shows "operator_inv (view w')"
proof -
  have "vsteps view same_tenants (Start rt)"
    unfolding Start_def by (intro vsteps_rules utils_same_tenants same_tenants_preorder)
  from operator_inv_quiet [OF inv same_tenants_progress [OF vsteps_run [OF this run]]
      vsteps_run [OF same_sets_start run]] show ?thesis .
qed

end

section \<open>Runs of the operator\<close>

text \<open>
  Between the operator's own steps the rest of the cluster moves: pods, jobs, claims and anything
  else come and go, users create, change and delete tenants. It leaves the stateful sets of the
  shared namespace to the operator, gives tenants valid and distinct identifiers, never uses the
  identifier of a registered tenant for a new one, and leaves \<open>DatabaseStatus\<close> to the operator.
\<close>

definition environment_step :: "'q cluster \<Rightarrow> 'q cluster \<Rightarrow> bool" where
  "environment_step v v' \<longleftrightarrow>
     (\<forall>n. cl_stateful_sets v' (''shared-services'', n) = cl_stateful_sets v (''shared-services'', n)) \<and>
     tenants_sound v' \<and>
     (\<forall>k t'. cl_tenants v' k = Some t' \<longrightarrow>
        (\<exists>t. cl_tenants v k = Some t \<and> uid_of t' = uid_of t \<and>
           DatabaseStatus (Status t') = DatabaseStatus (Status t)) \<or>
        (\<forall>n. \<not> listed v n (uid_of t')))"

inductive operator_step :: "('w, 'q) runtime \<Rightarrow> ('w \<Rightarrow> 'q cluster) \<Rightarrow> 'w \<Rightarrow> 'w \<Rightarrow> bool" for rt view where
  reconcile: "Reconcile rt req w = (r, w') \<Longrightarrow> operator_step rt view w w'"
| map_pod: "podToTenantEnvironment rt obj w = (reqs, w') \<Longrightarrow> operator_step rt view w w'"
| restart: "Start rt w = (r, w') \<Longrightarrow> operator_step rt view w w'"
| environment: "environment_step (view w) (view w') \<Longrightarrow> operator_step rt view w w'"

inductive operator_run :: "('w, 'q) runtime \<Rightarrow> ('w \<Rightarrow> 'q cluster) \<Rightarrow> 'w \<Rightarrow> 'w \<Rightarrow> bool" for rt view where
  start: "operator_run rt view w w"
| step: "\<lbrakk>operator_run rt view w w1; operator_step rt view w1 w2\<rbrakk> \<Longrightarrow> operator_run rt view w w2"

inductive_cases operator_stepE: "operator_step rt view w w'"

lemma environment_inv:
  assumes env: "environment_step v v'" and inv: "operator_inv v"
  shows "operator_inv v'"
proof (rule operator_invI)
  have sets: "cl_stateful_sets v' (''shared-services'', n) = cl_stateful_sets v (''shared-services'', n)" for n
    using env by (simp add: environment_step_def)
  then have same: "listed v' = listed v" by (simp add: listed_def fun_eq_iff)
  show "registries_consistent v'" using operator_invD(1) [OF inv] by (simp add: registries_consistent_def sets)
  show "listed_once v'" using operator_invD(2) [OF inv] by (simp add: listed_once_table same)
  show "tenants_sound v'" using env by (simp add: environment_step_def)
  show "unassigned_unlisted v'"
    unfolding unassigned_unlisted_def same
  proof (intro allI impI)
    fix k t' n
    assume t': "cl_tenants v' k = Some t'" "unassigned t'"
    from env t'(1) consider t where "cl_tenants v k = Some t" "uid_of t' = uid_of t"
        "DatabaseStatus (Status t') = DatabaseStatus (Status t)" | "\<forall>n. \<not> listed v n (uid_of t')"
      unfolding environment_step_def by blast
    then show "\<not> listed v n (uid_of t')"
    proof cases
      case 1
      then have "unassigned t" using t'(2) by (simp add: unassigned_def)
      with 1 operator_invD(4) [OF inv] show ?thesis unfolding unassigned_unlisted_def by metis
    qed blast
  qed
qed

context cluster_client
begin

lemma map_pod_view: "podToTenantEnvironment rt obj w = (reqs, w') \<Longrightarrow> view w' = view w"
proof -
  have "vsteps view (\<lambda>v v'. v' = v) (podToTenantEnvironment rt obj)"
    unfolding podToTenantEnvironment_def by (intro vsteps_rules ten.vsteps_reads preorder_frame)
  then show "podToTenantEnvironment rt obj w = (reqs, w') \<Longrightarrow> view w' = view w" by (rule vsteps_run)
qed

lemma operator_step_inv:
  "\<lbrakk>operator_step rt view w w'; operator_inv (view w)\<rbrakk> \<Longrightarrow> operator_inv (view w')"
  by (erule operator_stepE) (simp_all add: Reconcile_inv Start_inv environment_inv map_pod_view)

lemma operator_run_inv:
  "\<lbrakk>operator_run rt view w w'; operator_inv (view w)\<rbrakk> \<Longrightarrow> operator_inv (view w')"
  by (induction rule: operator_run.induct) (auto intro: operator_step_inv)

end

section \<open>Reconciliations of a stored tenant\<close>

lemma or_stop_unit:
  assumes "or_stop (m :: ('w, unit) prog) k w = (Ok (b, None), w')"
  obtains w1 where "m w = (Ok (), w1)" and "k () w1 = (Ok (b, None), w')"
  using assms by (rule or_stop_Ok) simp

definition plain_request :: "request \<Rightarrow> bool" where
  "plain_request req \<longleftrightarrow>
     \<not> strings_HasPrefix (RequestName req) ''pod-event:'' \<and> RequestNamespace req = ''default''"

definition stored_tenant :: "'q cluster \<Rightarrow> request \<Rightarrow> 'q tenant_environment \<Rightarrow> bool" where
  "stored_tenant v req t \<longleftrightarrow> cl_tenants v (''default'', RequestName req) = Some t"

definition is_deleting :: "'q tenant_environment \<Rightarrow> bool" where
  "is_deleting t \<longleftrightarrow> MetaDeletionTimestamp (ObjectMeta t) \<noteq> None"

definition is_marked :: "'q tenant_environment \<Rightarrow> bool" where
  "is_marked t \<longleftrightarrow> tenantEnvironmentFinalizer \<in> set (MetaFinalizers (ObjectMeta t))"

context cluster_client
begin

lemma stored_run:
  assumes run: "Reconcile rt req w = (r, w')" and plain: "plain_request req" and stored: "stored_tenant (view w) req t"
  obtains (get_failed) e where "r = Ok (False, Some e)" and "view w' = view w"
  | (deleting) w1 where "is_deleting t" and "view w1 = view w" and "in_sync (view w1) t"
      and "reconcile_deletion rt t w1 = (r, w')"
  | (unmarked) w1 where "\<not> is_deleting t" and "\<not> is_marked t" and "view w1 = view w" and "in_sync (view w1) t"
      and "reconcile_finalizer rt t w1 = (r, w')"
  | (live) w1 where "\<not> is_deleting t" and "is_marked t" and "view w1 = view w" and "in_sync (view w1) t"
      and "reconcile_main rt t w1 = (r, w')"
proof -
  have sync: "in_sync (view w1) t"
    if "view w1 = view w" "key_of t = (''default'', RequestName req)" for w1
    using stored that by (simp add: in_sync_def stored_tenant_def)
  have t: "t' = t" if "cl_tenants (view w) (''default'', RequestName req) = Some t'" for t'
    using stored that by (simp add: stored_tenant_def)
  from run show ?thesis
  proof (cases rule: Reconcile_cases)
    case event
    with plain show ?thesis by (simp add: plain_request_def)
  next
    case foreign
    with plain show ?thesis by (simp add: plain_request_def)
  next
    case (missing e)
    with stored have "IgnoreNotFound e = Some e" by (auto simp: stored_tenant_def IgnoreNotFound_def)
    with missing show ?thesis by (intro get_failed [of e]) simp_all
  next
    case d: (deleting t' w1)
    with t [OF d(3)] sync [OF d(4)] show ?thesis by (intro deleting [of w1]) (simp_all add: is_deleting_def)
  next
    case u: (unmarked t' w1)
    with t [OF u(3)] sync [OF u(4)] show ?thesis
      by (intro unmarked [of w1]) (simp_all add: is_deleting_def is_marked_def)
  next
    case l: (live t' w1)
    with t [OF l(3)] sync [OF l(4)] show ?thesis
      by (intro live [of w1]) (simp_all add: is_deleting_def is_marked_def)
  qed
qed

lemma stored_key: "stored_tenant (view w) req t \<Longrightarrow> key_of t = (''default'', RequestName req)"
  unfolding stored_tenant_def by (rule ten.keyed)

lemma live_established:
  assumes run: "Reconcile rt req w = (Ok (b, None), w')" and plain: "plain_request req"
    and stored: "stored_tenant (view w) req t" and live: "\<not> is_deleting t" "is_marked t"
    and inv: "operator_inv (view w)" and refl: "\<And>q. QCmp (Quantities rt) q q = 0"
  shows "established (Quantities rt) (view w') t"
    and "unassigned t \<Longrightarrow> has_database (view w') t \<and>
      (\<exists>t'. stored_tenant (view w') req t' \<and> same_tenant t t' \<and> DatabaseStatus (Status t') = ''Assigned'')"
proof -
  from run plain stored show "established (Quantities rt) (view w') t"
  proof (cases rule: stored_run)
    case l: (live w1)
    have "valid_uid (uid_of t)"
      using stored operator_invD(3) [OF inv] unfolding stored_tenant_def tenants_sound_def by blast
    from main_established(1) [OF l(5,4) _ this refl] operator_invD(1) [OF inv] show ?thesis by (simp add: l(3))
  qed (use live in simp_all)
  assume new: "unassigned t"
  from run plain stored show "has_database (view w') t \<and>
      (\<exists>t'. stored_tenant (view w') req t' \<and> same_tenant t t' \<and> DatabaseStatus (Status t') = ''Assigned'')"
  proof (cases rule: stored_run)
    case l: (live w1)
    have "valid_uid (uid_of t)"
      using stored operator_invD(3) [OF inv] unfolding stored_tenant_def tenants_sound_def by blast
    from main_established(2) [OF l(5,4) _ this refl new] operator_invD(1) [OF inv] stored_key [OF stored]
    show ?thesis by (simp add: l(3) stored_tenant_def)
  qed (use live in simp_all)
qed

lemma finalizer_guard:
  assumes run: "Reconcile rt req w = (r, w')" and plain: "plain_request req"
    and stored: "stored_tenant (view w) req t" and del: "is_deleting t"
    and inv: "operator_inv (view w)" and changed: "cl_tenants (view w') \<noteq> cl_tenants (view w)"
  shows "cleaned_up (view w') t"
  using run plain stored
proof (cases rule: stored_run)
  case d: (deleting w1)
  from d(4) show ?thesis
  proof (cases rule: deletion_cases)
    case stopped
    with changed show ?thesis by (simp add: same_tenants_def d(2))
  next
    case (cleaned w2 w3 w4)
    have "cleaned_up (view w4) t"
      by (rule deletion_cleans [OF cleaned(1-3)]) (simp_all add: d(2) operator_invD [OF inv])
    with update_only_tenants [OF cleaned(4)] show ?thesis by (auto simp: cleaned_up_tenants)
  qed
qed (use del changed in simp_all)

text \<open>A deletion that succeeds and held the last finalizer lets the tenant go.\<close>

lemma deletion_releases:
  assumes run: "Reconcile rt req w = (Ok (b, None), w')" and plain: "plain_request req"
    and stored: "stored_tenant (view w) req t" and del: "is_deleting t"
    and last: "MetaFinalizers (ObjectMeta t) = [tenantEnvironmentFinalizer]"
    and inv: "operator_inv (view w)"
  shows "cl_tenants (view w') (''default'', RequestName req) = None" and "cleaned_up (view w') t"
proof -
  have "cl_tenants (view w') (''default'', RequestName req) = None \<and> cleaned_up (view w') t"
    using run plain stored
  proof (cases rule: stored_run)
    case d: (deleting w1)
    have marked: "ContainsFinalizer rt t tenantEnvironmentFinalizer" by (simp add: contains_finalizer last)
    have "or_stop (DeletePostgreSQLForTenant rt t) (\<lambda>_.
        or_stop (if ResourceQuotas (Spec t) \<noteq> None then DeleteResourceQuotaForTenant rt t else ret ()) (\<lambda>_.
        or_stop (DeleteNamespaceForTenant rt (uid_of t)) (\<lambda>_.
          return_update rt False (RemoveFinalizer rt t tenantEnvironmentFinalizer)))) w1 = (Ok (b, None), w')"
      using d(4) marked by (simp add: reconcile_deletion_def)
    then obtain w2 w3 w4 where 1: "DeletePostgreSQLForTenant rt t w1 = (Ok (), w2)"
      and 2: "(if ResourceQuotas (Spec t) \<noteq> None then DeleteResourceQuotaForTenant rt t else ret ()) w2 = (Ok (), w3)"
      and 3: "DeleteNamespaceForTenant rt (uid_of t) w3 = (Ok (), w4)"
      and 4: "return_update rt False (RemoveFinalizer rt t tenantEnvironmentFinalizer) w4 = (Ok (b, None), w')"
      by (elim or_stop_unit) (rule that)
    have clean: "cleaned_up (view w4) t"
      by (rule deletion_cleans [OF 1 2 3]) (simp_all add: d(2) operator_invD [OF inv])
    have "same_tenants (view w1) (view w4)"
      using vsteps_run [OF DeletePostgreSQL_same_tenants 1] vsteps_run [OF utils_same_tenants(2) 3]
        vsteps_run [OF when_same_tenants [OF utils_same_tenants(4)] 2] by (simp add: same_tenants_def)
    then have cur: "cl_tenants (view w4) (key_of t) = Some t"
      using stored stored_key [OF stored] by (simp add: same_tenants_def d(2) stored_tenant_def)
    let ?x = "RemoveFinalizer rt t tenantEnvironmentFinalizer"
    have x: "key_of ?x = key_of t" "MetaFinalizers (ObjectMeta ?x) = []"
      by (simp_all add: remove_finalizer last)
    from 4 obtain x' where "ApiUpdate (Tenants rt) ?x w4 = (Ok x', w')"
      unfolding return_update_def by (auto elim!: on_error_Ok)
    from ten.main_ok [OF this] cur del have "cl_tenants (view w') (key_of t) = None"
      by (auto simp: x is_deleting_def)
    moreover have "cleaned_up (view w') t"
      using update_only_tenants [OF 4] clean by (auto simp: cleaned_up_tenants)
    ultimately show ?thesis by (simp add: stored_key [OF stored])
  qed (use del in simp_all)
  then show "cl_tenants (view w') (''default'', RequestName req) = None" and "cleaned_up (view w') t" by blast+
qed

end

section \<open>A reconciled tenant is settled\<close>

text \<open>The main part leaves the finalizers and the deletion of every tenant alone.\<close>

definition keeps_marks :: "'q cluster \<Rightarrow> 'q cluster \<Rightarrow> bool" where
  "keeps_marks v v' \<longleftrightarrow>
     (\<forall>k t'. cl_tenants v' k = Some t' \<longrightarrow>
        (\<exists>t. cl_tenants v k = Some t \<and> is_marked t' = is_marked t \<and> is_deleting t' = is_deleting t))"

lemma keeps_marksD:
  "\<lbrakk>keeps_marks v v'; cl_tenants v' k = Some t'\<rbrakk>
    \<Longrightarrow> \<exists>t. cl_tenants v k = Some t \<and> is_marked t' = is_marked t \<and> is_deleting t' = is_deleting t"
  unfolding keeps_marks_def by blast

lemma keeps_marks_preorder [simp]: "preorder_rel keeps_marks"
proof (rule preorder_relI)
  show "keeps_marks v v" for v :: "'a cluster" by (simp add: keeps_marks_def)
  fix a b c :: "'a cluster"
  assume ab: "keeps_marks a b" and bc: "keeps_marks b c"
  show "keeps_marks a c"
    unfolding keeps_marks_def
  proof (intro allI impI)
    fix k t
    assume "cl_tenants c k = Some t"
    from keeps_marksD [OF bc this] obtain s where "cl_tenants b k = Some s"
      and s: "is_marked t = is_marked s" "is_deleting t = is_deleting s" by blast
    from keeps_marksD [OF ab this(1)] s
    show "\<exists>r. cl_tenants a k = Some r \<and> is_marked t = is_marked r \<and> is_deleting t = is_deleting r" by simp
  qed
qed

lemma same_tenants_marks: "same_tenants v v' \<Longrightarrow> keeps_marks v v'"
  by (simp add: same_tenants_def keeps_marks_def)

context cluster_client
begin

lemma status_marks: "vsteps view keeps_marks (StatusUpdate rt x)"
proof (rule vstepsI)
  fix w r w'
  assume "StatusUpdate rt x w = (r, w')"
  from ten.status_effect [OF this] show "keeps_marks (view w) (view w')"
    by (auto simp: keeps_marks_def is_marked_def is_deleting_def split: if_splits)
qed

lemma main_marks: "vsteps view keeps_marks (reconcile_main rt t)"
proof -
  note marks = utils_same_tenants(1) [THEN vsteps_mono, OF same_tenants_marks]
    quota_same_tenants [THEN vsteps_mono, OF same_tenants_marks]
    CreatePostgreSQL_same_tenants [THEN vsteps_mono, OF same_tenants_marks]
    deployment_same_tenants [THEN vsteps_mono, OF same_tenants_marks]
  show ?thesis
    unfolding reconcile_main_def reconcile_database_def or_stop_def
    by (intro vsteps_rules marks status_marks keeps_marks_preorder)
qed

lemma settled_main:
  assumes run: "reconcile_main rt t w = (Ok (b, None), w')"
    and est: "established (Quantities rt) (view w) t" and old: "\<not> unassigned t"
    and refl: "\<And>q. QCmp (Quantities rt) q q = 0"
  shows "view w' = view w"
proof -
  obtain w1 w2 where 1: "CreateNamespaceForTenant rt t w = (Ok (), w1)"
    and 2: "(if ResourceQuotas (Spec t) \<noteq> None then CreateResourceQuotaForTenant rt t else ret ()) w1 = (Ok (), w2)"
    and 3: "reconcile_database rt t (\<lambda>tenantEnv.
      or_stop (CreateTenantServiceDeployment rt tenantEnv) (\<lambda>_. ret (False, None))) w2 = (Ok (b, None), w')"
    by (rule main_steps [OF run])
  have w1: "view w1 = view w"
    using tenant_ns.ensure_ok [OF 1] est unfolding namespace_keys established_def by blast
  have w2: "view w2 = view w1"
    using 2
  proof (cases rule: when_Ok)
    case 1
    with est obtain quota where "cl_quotas (view w1) (''tenant-'' @ uid_of t, ''tenant-quota'') = Some quota"
      "\<And>key. agrees (Quantities rt) (gm_lookup (Hard quota) key) (map_of (desired_resources (Quantities rt) t) key)"
      unfolding established_def w1 by blast
    then show ?thesis by (rule quota_not_rewritten [OF 1(2) refl])
  qed simp
  from 3 old have "CreateTenantServiceDeployment rt t w2 = (Ok (), w')"
    by (auto simp: reconcile_database_def unassigned_def elim!: or_stop_unit)
  moreover obtain d where "cl_deployments (view w2) (''tenant-'' @ uid_of t, ''backend'') = Some d" "rolled_out t d"
    using est unfolding established_def w1 w2 by blast
  ultimately have "view w' = view w2" using CreateDeployment_Ok by metis
  then show ?thesis by (simp add: w1 w2)
qed

lemma established_same:
  "same_tenant t t' \<Longrightarrow> established pkg v t' = established pkg v t"
  unfolding established_def desired_resources_def rolled_out_same
  by (simp add: same_tenant_def rolled_out_def cong: option.case_cong list.case_cong)

end

context cluster_client
begin

lemma live_after:
  assumes run: "Reconcile rt req w = (Ok (b, None), w')" and plain: "plain_request req"
    and stored: "stored_tenant (view w) req t" and live: "\<not> is_deleting t" "is_marked t"
    and inv: "operator_inv (view w)" and refl: "\<And>q. QCmp (Quantities rt) q q = 0"
  shows "\<exists>t'. stored_tenant (view w') req t' \<and> same_tenant t t' \<and> \<not> is_deleting t' \<and> is_marked t' \<and> \<not> unassigned t'"
  using run plain stored
proof (cases rule: stored_run)
  case l: (live w1)
  have marks: "keeps_marks (view w) (view w')" using vsteps_run [OF main_marks l(5)] by (simp add: l(3))
  have kept: "\<not> is_deleting t' \<and> is_marked t'" if "stored_tenant (view w') req t'" for t'
    using keeps_marksD [OF marks that [unfolded stored_tenant_def]] stored live by (auto simp: stored_tenant_def)
  show ?thesis
  proof (cases "unassigned t")
    case True
    from live_established(2) [OF run plain stored live inv refl True] kept show ?thesis
      by (auto simp: unassigned_def)
  next
    case False
    have "same_database (view w) (view w')"
      using vsteps_run [OF main_same_database [OF False] l(5)] by (simp add: l(3))
    with stored have "stored_tenant (view w') req t" by (simp add: same_database_def stored_tenant_def)
    with kept False show ?thesis by (intro exI [of _ t]) simp
  qed
qed (use live in simp_all)

lemma reconcile_settles:
  assumes run: "Reconcile rt req w = (Ok (b, None), w1)" and again: "Reconcile rt req w1 = (Ok (b', None), w2)"
    and plain: "plain_request req"
    and stored: "stored_tenant (view w) req t" and live: "\<not> is_deleting t" "is_marked t"
    and inv: "operator_inv (view w)" and refl: "\<And>q. QCmp (Quantities rt) q q = 0"
  shows "view w2 = view w1"
proof -
  obtain t' where t': "stored_tenant (view w1) req t'" "same_tenant t t'" "\<not> is_deleting t'" "is_marked t'" "\<not> unassigned t'"
    using live_after [OF run plain stored live inv refl] by blast
  have "established (Quantities rt) (view w1) t'"
    using live_established(1) [OF run plain stored live inv refl] established_same [OF t'(2)] by simp
  with again plain t'(1) show ?thesis
  proof (cases rule: stored_run)
    case l: (live w3)
    have "established (Quantities rt) (view w3) t'"
      using \<open>established (Quantities rt) (view w1) t'\<close> by (simp add: l(3))
    from settled_main [OF l(5) this t'(5) refl] show ?thesis by (simp add: l(3))
  qed (use t' in simp_all)
qed

section \<open>The first reconciliations\<close>

text \<open>They touch nothing but the tenant, mark it, and ask for another round.\<close>

lemma return_update_stored:
  assumes run: "return_update rt True x w = (Ok (b, None), w')"
    and cur: "cl_tenants (view w) (key_of x) = Some cur" "\<not> is_deleting cur"
  shows "\<exists>v. b \<and> view w' = cl_tenants_update (\<lambda>m. m(key_of x \<mapsto>
    (with_server_fields (uid_of x) v x)\<lparr>Status := Status cur\<rparr>)) (view w)"
proof -
  from run obtain x' where b: "b" and "ApiUpdate (Tenants rt) x w = (Ok x', w')"
    unfolding return_update_def by (auto elim!: on_error_Ok)
  from ten.main_ok [OF this(2)] cur show ?thesis
    unfolding is_deleting_def by (auto simp: b)
qed

lemma finalizer_added:
  assumes "\<not> is_marked t"
  shows "AddFinalizer rt t tenantEnvironmentFinalizer =
    with_finalizers (MetaFinalizers (ObjectMeta t) @ [tenantEnvironmentFinalizer]) t"
  using assms by (simp add: add_finalizer is_marked_def)

text \<open>When the creation time is already recorded, the finalizer is stored in one write.\<close>

lemma finalizer_stored:
  assumes run: "reconcile_finalizer rt t w = (Ok (b, None), w')"
    and stored: "cl_tenants (view w) (key_of t) = Some t" and fresh: "\<not> is_deleting t" "\<not> is_marked t"
    and created: "CreatedAt (Status t) \<noteq> None"
  shows "\<exists>t'. b \<and> view w' = cl_tenants_update (\<lambda>m. m(key_of t \<mapsto> t')) (view w) \<and> same_tenant t t' \<and>
    \<not> is_deleting t' \<and> Status t' = Status t \<and>
    MetaFinalizers (ObjectMeta t') = MetaFinalizers (ObjectMeta t) @ [tenantEnvironmentFinalizer]"
proof -
  let ?t = "with_finalizers (MetaFinalizers (ObjectMeta t) @ [tenantEnvironmentFinalizer]) t"
  from run created have "return_update rt True ?t w = (Ok (b, None), w')"
    by (simp add: reconcile_finalizer_def Let_def finalizer_added [OF fresh(2)])
  from return_update_stored [OF this _ fresh(1)] stored obtain v where
    b: "b" and w': "view w' = cl_tenants_update (\<lambda>m. m(key_of t \<mapsto>
      (with_server_fields (uid_of t) v ?t)\<lparr>Status := Status t\<rparr>)) (view w)" by auto
  show ?thesis
    by (intro exI [of _ "(with_server_fields (uid_of t) v ?t)\<lparr>Status := Status t\<rparr>"] conjI b w')
      (use fresh(1) in \<open>simp_all add: same_tenant_def key_of_def is_deleting_def\<close>)
qed

text \<open>
  Else the creation time is stored first, and the finalizer is written with what its response left
  in memory.
\<close>

lemma creation_recorded:
  assumes run: "reconcile_finalizer rt t w = (Ok (b, None), w')"
    and stored: "cl_tenants (view w) (key_of t) = Some t" and fresh: "\<not> is_deleting t" "\<not> is_marked t"
    and new: "CreatedAt (Status t) = None"
  shows "\<exists>now w1 t'. TimeNow rt w = (Ok now, w1) \<and> b \<and>
    view w' = cl_tenants_update (\<lambda>m. m(key_of t \<mapsto> t')) (view w) \<and> same_tenant t t' \<and> \<not> is_deleting t' \<and>
    Status t' = (Status t)\<lparr>CreatedAt := Some (whole_second now)\<rparr> \<and>
    MetaFinalizers (ObjectMeta t') \<in> {MetaFinalizers (ObjectMeta t),
      MetaFinalizers (ObjectMeta t) @ [tenantEnvironmentFinalizer]} \<and>
    (MetaFinalizers (ObjectMeta t) = [] \<longrightarrow> is_marked t')"
proof -
  let ?fs = "MetaFinalizers (ObjectMeta t) @ [tenantEnvironmentFinalizer]"
  from run new obtain now w1 x w2 where now: "TimeNow rt w = (Ok now, w1)"
    and st: "StatusUpdate rt ((with_finalizers ?fs t)\<lparr>Status := (Status t)\<lparr>CreatedAt := Some now\<rparr>\<rparr>) w1 = (Ok x, w2)"
    and u: "return_update rt True x w2 = (Ok (b, None), w')"
    by (auto simp: reconcile_finalizer_def Let_def finalizer_added [OF fresh(2)] elim!: and_then_Ok or_stop_Ok)
  let ?t = "(with_finalizers ?fs t)\<lparr>Status := (Status t)\<lparr>CreatedAt := Some now\<rparr>\<rparr>"
  have key: "key_of ?t = key_of t" by (simp add: key_of_def)
  have w1: "view w1 = view w" using now_view [OF now] by simp
  have cur: "cl_tenants (view w1) (key_of ?t) = Some t" by (simp only: key w1 stored)
  from status_step [OF st cur] obtain s where s: "view w2 = cl_tenants_update (\<lambda>m. m(key_of ?t \<mapsto> s)) (view w1)"
      "same_tenant t s" "Status s = wire_status (Status ?t)" "same_tenant t x" "Status x = wire_status (Status ?t)"
      "MetaFinalizers (ObjectMeta s) = MetaFinalizers (ObjectMeta t)"
      "MetaDeletionTimestamp (ObjectMeta s) = MetaDeletionTimestamp (ObjectMeta t)"
      "MetaFinalizers (ObjectMeta x) \<in> {MetaFinalizers (ObjectMeta ?t), MetaFinalizers (ObjectMeta t)}"
      "MetaFinalizers (ObjectMeta t) = [] \<longrightarrow> MetaFinalizers (ObjectMeta x) = MetaFinalizers (ObjectMeta ?t)"
      "MetaDeletionTimestamp (ObjectMeta x) = MetaDeletionTimestamp (ObjectMeta t)" .
  have status: "Status s = (Status t)\<lparr>CreatedAt := Some (whole_second now)\<rparr>"
    using ten.stored_status [OF stored] by (simp add: s(3) wire_status_update)
  have kx: "key_of x = key_of t" using s(4) by (simp add: same_tenant_def)
  have "cl_tenants (view w2) (key_of x) = Some s" "\<not> is_deleting s"
    using s(1,7) fresh(1) by (simp_all add: kx key is_deleting_def)
  from return_update_stored [OF u this] obtain v where b: "b"
    and "view w' = cl_tenants_update (\<lambda>m. m(key_of x \<mapsto>
      (with_server_fields (uid_of x) v x)\<lparr>Status := Status s\<rparr>)) (view w2)" by blast
  then have w': "view w' = cl_tenants_update (\<lambda>m. m(key_of t \<mapsto>
      (with_server_fields (uid_of x) v x)\<lparr>Status := Status s\<rparr>)) (view w)"
    by (simp add: s(1) kx key w1 comp_def)
  show ?thesis
    by (intro exI [of _ now] exI [of _ w1] exI [of _ "(with_server_fields (uid_of x) v x)\<lparr>Status := Status s\<rparr>"]
        conjI now b w')
      (use s(4,8,9,10) fresh(1) in
        \<open>auto simp: same_tenant_def key_of_def is_deleting_def is_marked_def status\<close>)
qed

end

section \<open>Startup\<close>

context cluster_client
begin

lemma start_prepares:
  assumes run: "Start rt w = (r, w')"
  shows "only_adds (view w) (view w') \<and>
    (r = Ok () \<longrightarrow> cl_namespaces (view w') ('''', ''shared-services'') \<noteq> None \<and>
       cl_config_maps (view w') (''shared-services'', ''postgresql-config'') \<noteq> None)"
proof
  have config: "vsteps view only_adds (ensureSharedPostgreSQLConfigMap rt)"
    unfolding ensureSharedPostgreSQLConfigMap_def shared_config_literal_def
    by (intro adds_rules vsteps_read_config)
  have "vsteps view only_adds (Start rt)"
    unfolding Start_def ensureSharedServicesNamespace_def by (intro adds_rules config)
  from vsteps_run [OF this run] show "only_adds (view w) (view w')" .
  show "r = Ok () \<longrightarrow> cl_namespaces (view w') ('''', ''shared-services'') \<noteq> None \<and>
       cl_config_maps (view w') (''shared-services'', ''postgresql-config'') \<noteq> None"
  proof
    assume "r = Ok ()"
    with run obtain w1 where 1: "ensureSharedServicesNamespace rt w = (Ok (), w1)"
      and 2: "ensureSharedPostgreSQLConfigMap rt w1 = (Ok (), w')"
      by (auto simp: Start_def elim!: and_then_Ok)
    obtain n where "cl_namespaces (view w1) ('''', ''shared-services'') = Some n"
      using shared_ns.ensured [OF 1] unfolding namespace_keys by blast
    moreover have "cl_namespaces (view w1) \<subseteq>\<^sub>m cl_namespaces (view w')"
      using vsteps_run [OF config 2] by (simp add: only_adds_def)
    ultimately have "cl_namespaces (view w') ('''', ''shared-services'') = Some n" by (blast intro: map_le_kept)
    with shared_config.provided [OF 2]
    show "cl_namespaces (view w') ('''', ''shared-services'') \<noteq> None \<and>
       cl_config_maps (view w') (''shared-services'', ''postgresql-config'') \<noteq> None" by simp
  qed
qed

end

context cluster_client
begin

lemma first_reconciliation:
  assumes run: "Reconcile rt req w = (Ok (b, None), w')" and plain: "plain_request req"
    and stored: "stored_tenant (view w) req t" and fresh: "\<not> is_deleting t" "\<not> is_marked t"
  shows "b \<and> (\<exists>t'. view w' = cl_tenants_update (\<lambda>m. m((''default'', RequestName req) \<mapsto> t')) (view w) \<and>
    same_tenant t t' \<and> \<not> is_deleting t' \<and>
    (case CreatedAt (Status t) of
       Some c \<Rightarrow> Status t' = Status t \<and>
         MetaFinalizers (ObjectMeta t') = MetaFinalizers (ObjectMeta t) @ [tenantEnvironmentFinalizer]
     | None \<Rightarrow> (\<exists>now w0 w1. view w0 = view w \<and> TimeNow rt w0 = (Ok now, w1) \<and>
           Status t' = (Status t)\<lparr>CreatedAt := Some (whole_second now)\<rparr>) \<and>
         MetaFinalizers (ObjectMeta t') \<in> {MetaFinalizers (ObjectMeta t),
           MetaFinalizers (ObjectMeta t) @ [tenantEnvironmentFinalizer]} \<and>
         (MetaFinalizers (ObjectMeta t) = [] \<longrightarrow> is_marked t')))"
  using run plain stored
proof (cases rule: stored_run)
  case (unmarked w1)
  have cur: "cl_tenants (view w1) (key_of t) = Some t" "key_of t = (''default'', RequestName req)"
    using stored stored_key [OF stored] by (simp_all add: stored_tenant_def unmarked(3))
  show ?thesis
  proof (cases "CreatedAt (Status t)")
    case (Some c)
    with finalizer_stored [OF unmarked(5) cur(1) fresh] show ?thesis by (simp add: unmarked(3) cur(2))
  next
    case None
    from creation_recorded [OF unmarked(5) cur(1) fresh None] obtain now w2 t' where
      t': "TimeNow rt w1 = (Ok now, w2)" "b"
        "view w' = cl_tenants_update (\<lambda>m. m((''default'', RequestName req) \<mapsto> t')) (view w)"
        "same_tenant t t'" "\<not> is_deleting t'" "Status t' = (Status t)\<lparr>CreatedAt := Some (whole_second now)\<rparr>"
        "MetaFinalizers (ObjectMeta t') \<in> {MetaFinalizers (ObjectMeta t),
          MetaFinalizers (ObjectMeta t) @ [tenantEnvironmentFinalizer]}"
        "MetaFinalizers (ObjectMeta t) = [] \<longrightarrow> is_marked t'"
      unfolding unmarked(3) cur(2) by blast
    show ?thesis
      unfolding None option.case
      by (intro conjI exI [of _ t'] exI [of _ now] exI [of _ w1] exI [of _ w2] t' unmarked(3))
  qed
qed (use fresh in simp_all)

lemma not_retried:
  assumes run: "Reconcile rt req w = (r, w')" and plain: "plain_request req"
    and stored: "stored_tenant (view w) req t" and live: "\<not> is_deleting t" "is_marked t" and "\<not> unassigned t"
  shows "same_database (view w) (view w')"
  using run plain stored
proof (cases rule: stored_run)
  case l: (live w1)
  from vsteps_run [OF main_same_database [OF assms(6)] l(5)] show ?thesis by (simp add: l(3))
qed (use live in \<open>simp_all add: same_database_def\<close>)

end

end
