(* ===== verification/PodEvents.thy ===== *)
theory PodEvents
  imports Lifecycle
begin

text \<open>
  Pod events end to end: the request that \<open>podToTenantEnvironment\<close> makes of a pod is taken apart by
  \<open>handlePodEventFromMapping\<close>, which marks the tenant ready once and records how many seconds it took
  (\<open>internal/controller/tenantenvironment_controller.go\<close>).
\<close>

section \<open>The name of a request\<close>

text \<open>The two halves of the encoding, as a contract between the mapping and the handler.\<close>

locale event_codec =
  fixes encode :: "string \<Rightarrow> string \<Rightarrow> string"
    and decode :: "string \<Rightarrow> string list"
    and clean :: "string \<Rightarrow> bool"
  assumes decode_encode: "\<lbrakk>clean p; clean n\<rbrakk> \<Longrightarrow> tl (decode (encode p n)) = [p, n]"
begin

lemma encode_inject:
  "\<lbrakk>clean p; clean n; clean p'; clean n'; encode p n = encode p' n'\<rbrakk> \<Longrightarrow> p = p' \<and> n = n'"
  using decode_encode by (metis list.inject)

end

definition event_name :: "string \<Rightarrow> string \<Rightarrow> string" where
  "event_name p n = ''pod-event:'' @ p @ '':'' @ n"

definition colon_free :: "string \<Rightarrow> bool" where
  "colon_free s \<longleftrightarrow> CHR '':'' \<notin> set s"

lemma event_name_split:
  assumes "colon_free p" and "colon_free n"
  shows "strings_Split CHR '':'' (event_name p n) = [''pod-event'', p, n]"
proof -
  have name: "event_name p n = ''pod-event'' @ CHR '':'' # (p @ CHR '':'' # n)" by (simp add: event_name_def)
  have first: "strings_Split CHR '':'' (''pod-event'' @ CHR '':'' # s) = ''pod-event'' # strings_Split CHR '':'' s" for s
    by (rule Split_append_sep) simp
  have rest: "strings_Split CHR '':'' (p @ CHR '':'' # n) = [p, n]"
    using assms by (simp add: Split_append_sep Split_no_sep colon_free_def)
  show ?thesis by (simp only: name first rest)
qed

interpretation pod_events: event_codec event_name "strings_Split CHR '':''" colon_free
  by unfold_locales (simp add: event_name_split)

lemma event_name_prefix: "strings_HasPrefix (event_name p n) ''pod-event:''"
  by (simp add: event_name_def strings_HasPrefix_def)

section \<open>Mapping\<close>

context cluster_client
begin

lemma mapped_request:
  assumes run: "podToTenantEnvironment rt (Some pod) w = (Ok reqs, w')" and req: "req \<in> set reqs"
  shows "\<exists>t. cl_tenants (view w) (''default'', name_of t) = Some t \<and> RequestNamespace req = ''default'' \<and>
    RequestName req = event_name (name_of pod) (name_of t) \<and> reqs = [req] \<and>
    gm_lookup (labels_of pod) ''tenant.core.mellifluus.io/tenant-uid'' = Some (uid_of t) \<and>
    gm_lookup (labels_of pod) ''tenant.core.mellifluus.io/component'' = Some ''backend-service''"
proof -
  have component: "gm_lookup (labels_of pod) ''tenant.core.mellifluus.io/component'' = Some ''backend-service''"
    using run req by (auto simp: podToTenantEnvironment_def split: if_splits)
  obtain u where u: "gm_lookup (labels_of pod) ''tenant.core.mellifluus.io/tenant-uid'' = Some u"
    using run req component by (auto simp: podToTenantEnvironment_def split: option.splits)
  have "on_error (ApiList (Tenants rt) ''default'' []) (\<lambda>_. ret [])
          (\<lambda>items. case find (\<lambda>tenantEnv. uid_of tenantEnv = u) items of
             None \<Rightarrow> ret []
           | Some tenantEnv \<Rightarrow>
               ret [\<lparr>RequestNamespace = namespace_of tenantEnv,
                     RequestName = ''pod-event:'' @ name_of pod @ '':'' @ name_of tenantEnv\<rparr>]) w = (Ok reqs, w')"
    using run component u by (simp add: podToTenantEnvironment_def del: append_Cons)
  then show ?thesis
  proof (cases rule: on_error_Ok [consumes 1, case_names items failed])
    case (items ts w1)
    then obtain t where found: "find (\<lambda>t. uid_of t = u) ts = Some t"
      using req by (auto split: option.splits)
    then have t: "t \<in> set ts" "uid_of t = u" by (auto simp: find_Some_iff)
    with ten.list_found [OF items(1)] have stored: "cl_tenants (view w) (''default'', name_of t) = Some t" by auto
    from ten.keyed [OF this] have "namespace_of t = ''default''" by (simp add: key_of_def)
    with items(2) found req have "reqs = [req]" "RequestNamespace req = ''default''"
      "RequestName req = event_name (name_of pod) (name_of t)"
      by (auto simp: event_name_def)
    with stored u t(2) component show ?thesis by blast
  qed (use req in auto)
qed

section \<open>Marking ready\<close>

lemma ready_marked:
  assumes run: "handlePodEventFromMapping rt req w = (Ok (b, None), w')"
    and parts: "strings_Split CHR '':'' (RequestName req) = [x, p, n]"
    and stored: "cl_tenants (view w) (RequestNamespace req, n) = Some t" and waiting: "ReadyAt (Status t) = None"
    and pod: "cl_pods (view w) (''tenant-'' @ uid_of t, p) = Some pod" "pod_is_ready pod"
      "gm_lookup (labels_of pod) ''tenant.core.mellifluus.io/tenant-uid'' \<noteq> None"
  defines "label \<equiv> (if DedicatedInstance (Database (Spec t)) then ''true'' else ''false'')"
  shows "\<exists>now w0 w1 t'. view w0 = view w \<and> TimeNow rt w0 = (Ok now, w1) \<and> same_tenant t t' \<and>
    Status t' = (Status t)\<lparr>ReadyAt := Some (whole_second now), Phase := ''Ready''\<rparr> \<and>
    view w' = (view w)
      \<lparr>cl_tenants := (cl_tenants (view w))((RequestNamespace req, n) \<mapsto> t'),
       cl_observed := cl_observed (view w) @
         (case CreatedAt (Status t) of None \<Rightarrow> [] | Some c \<Rightarrow> [(label, duration_Seconds (time_Sub now c))])\<rparr>"
proof -
  from run parts have "on_error (GetTenantEnvironment rt (RequestNamespace req) n)
            (\<lambda>err. ret (False, IgnoreNotFound err))
            (\<lambda>tenantEnv.
               on_error (ApiGet (Pods rt) (''tenant-'' @ uid_of tenantEnv) p)
                 (\<lambda>err. if IgnoreNotFound err = None then ret (False, None) else ret (False, Some err))
                 (\<lambda>pod.
                    if gm_lookup (labels_of pod) ''tenant.core.mellifluus.io/tenant-uid'' = None
                    then ret (False, None)
                    else if pod_is_ready pod then mark_ready rt tenantEnv else ret (False, None))) w = (Ok (b, None), w')"
    by (simp add: handlePodEventFromMapping_def del: append_Cons)
  then show ?thesis
  proof (cases rule: on_error_Ok [consumes 1, case_names got missing])
    case (missing e w1)
    with GetTenantEnvironment_run(2) [OF missing(1)] stored show ?thesis
      by (auto simp: IgnoreNotFound_def split: if_splits)
  next
    case (got t0 w1)
    from GetTenantEnvironment_run(1) [OF got(1)] stored have t0: "t0 = t" and w1: "view w1 = view w" by auto
    from got(2) show ?thesis
      unfolding t0
    proof (cases rule: on_error_Ok [consumes 1, case_names found lost])
      case (lost e w2)
      with pod.get_failed [OF lost(1)] pod(1) show ?thesis
        by (auto simp: IgnoreNotFound_def w1 split: if_splits)
    next
      case (found pod' w2)
      from pod.get_found [OF found(1)] pod(1) have "pod' = pod" and w2: "view w2 = view w" by (auto simp: w1)
      with found(2) pod(2,3) have "mark_ready rt t w2 = (Ok (b, None), w')" by simp
      then obtain now w4 w3 r2 where clock: "TimeNow rt w2 = (Ok now, w4)" and
        w3: "view w3 = (view w2)\<lparr>cl_observed := cl_observed (view w2) @
          (case CreatedAt (Status t) of None \<Rightarrow> [] | Some c \<Rightarrow> [(label, duration_Seconds (time_Sub now c))])\<rparr>"
        and upd: "StatusUpdate rt (t\<lparr>Status := (Status t)\<lparr>ReadyAt := Some now, Phase := ''Ready''\<rparr>\<rparr>) w3 = (r2, w')"
        and r2: "Ok (b, None) = (case r2 of Ok x \<Rightarrow> Ok (False, None) | Err e \<Rightarrow> Ok (False, Some e) | Panic s \<Rightarrow> Panic s)"
        using waiting unfolding label_def by (rule mark_ready_run)
      let ?x = "t\<lparr>Status := (Status t)\<lparr>ReadyAt := Some now, Phase := ''Ready''\<rparr>\<rparr>"
      have key: "key_of ?x = (RequestNamespace req, n)"
        using ten.keyed [OF stored] by (simp add: key_of_def)
      from r2 obtain x' where "r2 = Ok x'" by (cases r2) auto
      with upd have upd: "StatusUpdate rt ?x w3 = (Ok x', w')" by simp
      have "cl_tenants (view w3) (key_of ?x) = Some t" using stored by (simp add: key w3 w2)
      from status_step [OF upd this] obtain st where
        st: "view w' = cl_tenants_update (\<lambda>m. m(key_of ?x \<mapsto> st)) (view w3)" "same_tenant t st"
          "Status st = wire_status (Status ?x)" .
      have "Status st = (Status t)\<lparr>ReadyAt := Some (whole_second now), Phase := ''Ready''\<rparr>"
        using ten.stored_status [OF stored] by (simp add: st(3) wire_status_update)
      moreover have "view w2 = view w" by (simp add: w2 w1)
      ultimately show ?thesis
        using st(1,2) clock
        by (intro exI [of _ now] exI [of _ w2] exI [of _ w4] exI [of _ st]) (simp add: key w3)
    qed
  qed
qed

text \<open>A handling that recorded a duration, without storing the readiness, is not remembered.\<close>

lemma recorded_again:
  assumes parts: "strings_Split CHR '':'' (RequestName req) = [x, p, n]"
    and stored: "cl_tenants (view w) (RequestNamespace req, n) = Some t"
    and first: "handlePodEventFromMapping rt req w = (Ok (b1, Some e), w1)"
    and observed: "cl_observed (view w1) \<noteq> cl_observed (view w)" and lost: "cl_tenants (view w1) = cl_tenants (view w)"
    and second: "handlePodEventFromMapping rt req w1 = (Ok (b2, None), w2)"
  defines "label \<equiv> (if DedicatedInstance (Database (Spec t)) then ''true'' else ''false'')"
  shows "\<exists>c now1 now2. CreatedAt (Status t) = Some c \<and>
    cl_observed (view w2) = cl_observed (view w) @
      [(label, duration_Seconds (time_Sub now1 c)), (label, duration_Seconds (time_Sub now2 c))]"
  using first
proof (cases rule: pod_event_cases)
  case nothing
  with observed show ?thesis by simp
next
  case (ready x' p' n' t' pod w0)
  with parts stored have names: "p' = p" "t' = t" by auto
  have waiting: "ReadyAt (Status t) = None"
    using ready(7,8) observed by (cases "ReadyAt (Status t) = None") (simp_all add: names ready_at_set)
  obtain now w3 w4 r2 where w4: "view w4 = (view w0)\<lparr>cl_observed := cl_observed (view w0) @
      (case CreatedAt (Status t) of None \<Rightarrow> [] | Some c \<Rightarrow> [(label, duration_Seconds (time_Sub now c))])\<rparr>"
    and upd: "StatusUpdate rt (t\<lparr>Status := (Status t)\<lparr>ReadyAt := Some now, Phase := ''Ready''\<rparr>\<rparr>) w4 = (r2, w1)"
    using ready(8) waiting unfolding names label_def by (rule mark_ready_run)
  obtain f where "view w1 = cl_tenants_update f (view w4)" using status_only_tenants [OF upd] by blast
  then have o: "cl_observed (view w1) = cl_observed (view w4)" "cl_pods (view w1) = cl_pods (view w)"
    by (simp_all add: w4 ready(7))
  with observed obtain c where c: "CreatedAt (Status t) = Some c"
    and once: "cl_observed (view w1) = cl_observed (view w) @ [(label, duration_Seconds (time_Sub now c))]"
    by (cases "CreatedAt (Status t)") (simp_all add: w4 ready(7))
  have "cl_tenants (view w1) (RequestNamespace req, n) = Some t" using stored by (simp add: lost)
  moreover have "cl_pods (view w1) (''tenant-'' @ uid_of t, p) = Some pod" using ready(4) by (simp add: o names)
  ultimately obtain now2 t2 where "view w2 = (view w1)
      \<lparr>cl_tenants := (cl_tenants (view w1))((RequestNamespace req, n) \<mapsto> t2),
       cl_observed := cl_observed (view w1) @
         (case CreatedAt (Status t) of None \<Rightarrow> [] | Some c \<Rightarrow> [(label, duration_Seconds (time_Sub now2 c))])\<rparr>"
    using ready_marked [OF second parts _ waiting _ ready(6,5)] unfolding label_def by blast
  then show ?thesis by (intro exI [of _ c] exI [of _ now] exI [of _ now2]) (simp add: c once)
qed

end

end
