(* ===== verification/Isolation.thy ===== *)
theory Isolation
  imports Operator
begin

text \<open>
  Tenants are kept apart: a reconciliation of a tenant, whatever its outcome, writes to nothing but
  the tenant's own namespace, the shared namespace and the tenant itself. The relation \<open>within\<close> says
  so; each operation of \<open>internal/controller\<close> is shown to make only such steps. Then tenants whose
  provisioning failed, and dedicated databases, which do not even reach the shared namespace.
\<close>

section \<open>What is outside a tenant's reach\<close>

definition outside :: "string \<Rightarrow> (object_key \<rightharpoonup> 'x) \<Rightarrow> (object_key \<rightharpoonup> 'x) \<Rightarrow> bool" where
  "outside ns m m' \<longleftrightarrow> (\<forall>k. fst k \<notin> {ns, ''shared-services''} \<longrightarrow> m' k = m k)"

definition within :: "string \<Rightarrow> object_key \<Rightarrow> 'q cluster \<Rightarrow> 'q cluster \<Rightarrow> bool" where
  "within ns tk v v' \<longleftrightarrow>
     (\<forall>k. k \<noteq> ('''', ns) \<longrightarrow> cl_namespaces v' k = cl_namespaces v k) \<and>
     outside ns (cl_secrets v) (cl_secrets v') \<and> outside ns (cl_config_maps v) (cl_config_maps v') \<and>
     outside ns (cl_quotas v) (cl_quotas v') \<and> outside ns (cl_deployments v) (cl_deployments v') \<and>
     outside ns (cl_stateful_sets v) (cl_stateful_sets v') \<and> outside ns (cl_services v) (cl_services v') \<and>
     outside ns (cl_jobs v) (cl_jobs v') \<and> outside ns (cl_claims v) (cl_claims v') \<and>
     cl_pods v' = cl_pods v \<and> (\<forall>k. k \<noteq> tk \<longrightarrow> cl_tenants v' k = cl_tenants v k)"

lemma outside_refl [simp]: "outside ns m m"
  by (simp add: outside_def)

lemma outside_trans: "\<lbrakk>outside ns a b; outside ns b c\<rbrakk> \<Longrightarrow> outside ns a c"
  by (simp add: outside_def)

lemma outside_upd: "fst k \<in> {ns, ''shared-services''} \<Longrightarrow> outside ns m (m(k := x))"
  by (auto simp: outside_def)

lemma within_preorder [simp]: "preorder_rel (within ns tk)"
  by (rule preorder_relI) (simp_all add: within_def, blast intro: outside_trans)

lemma within_trans: "\<lbrakk>within ns tk a b; within ns tk b c\<rbrakk> \<Longrightarrow> within ns tk a c"
  using within_preorder unfolding preorder_rel_def by (meson transpD)

lemma within_refl [simp]: "within ns tk v v"
  by (simp add: within_def)

section \<open>Programs that look at what they read\<close>

text \<open>The rules for \<open>on_error\<close> and \<open>and_then\<close> that keep the run of the first part.\<close>

lemma vsteps_on_error_run:
  assumes P: "preorder_rel P" and m: "vsteps view P m" and h: "\<And>e. vsteps view P (h e)"
    and k: "\<And>w a w'. m w = (Ok a, w') \<Longrightarrow> vsteps view P (k a)"
  shows "vsteps view P (on_error m h k)"
proof (rule vstepsI)
  have trans: "P a c" if "P a b" "P b c" for a b c
    using P that unfolding preorder_rel_def by (meson transpD)
  fix w r w'
  assume "on_error m h k w = (r, w')"
  then show "P (view w) (view w')"
    by (cases rule: on_error_cases) (blast intro: trans vsteps_run [OF m] vsteps_run [OF h] vsteps_run [OF k])+
qed

lemma vsteps_and_then_run:
  "\<lbrakk>preorder_rel P; vsteps view P m; \<And>w a w'. m w = (Ok a, w') \<Longrightarrow> vsteps view P (k a)\<rbrakk>
    \<Longrightarrow> vsteps view P (and_then m k)"
  unfolding and_then_def by (rule vsteps_on_error_run) (auto intro: vsteps_rules)

lemma vsteps_let: "(\<And>x. x = e \<Longrightarrow> vsteps view P (m x)) \<Longrightarrow> vsteps view P (let x = e in m x)"
  by simp

section \<open>Writes\<close>

context cluster_client
begin

abbreviation reach :: "string \<Rightarrow> object_key \<Rightarrow> ('w, 'a) prog \<Rightarrow> bool" where
  "reach ns tk \<equiv> vsteps view (within ns tk)"

lemma creates_within:
  "fst (key_of se) \<in> {ns, ''shared-services''} \<Longrightarrow> reach ns tk (ApiCreate (Secrets rt) se)"
  "fst (key_of c) \<in> {ns, ''shared-services''} \<Longrightarrow> reach ns tk (ApiCreate (ConfigMaps rt) c)"
  "fst (key_of q) \<in> {ns, ''shared-services''} \<Longrightarrow> reach ns tk (ApiCreate (Quotas rt) q)"
  "fst (key_of d) \<in> {ns, ''shared-services''} \<Longrightarrow> reach ns tk (ApiCreate (Deployments rt) d)"
  "fst (key_of s) \<in> {ns, ''shared-services''} \<Longrightarrow> reach ns tk (ApiCreate (StatefulSets rt) s)"
  "fst (key_of sv) \<in> {ns, ''shared-services''} \<Longrightarrow> reach ns tk (ApiCreate (Services rt) sv)"
  "fst (key_of j) \<in> {ns, ''shared-services''} \<Longrightarrow> reach ns tk (ApiCreate (Jobs rt) j)"
  "key_of n = ('''', ns) \<Longrightarrow> reach ns tk (ApiCreate (Namespaces rt) n)"
  by (rule sec.vsteps_create cm.vsteps_create quo.vsteps_create dep.vsteps_create sts.vsteps_create
      svc.vsteps_create job.vsteps_create ns.vsteps_create,
    rule within_preorder, simp add: within_def outside_upd)+

lemma updates_within:
  "fst (key_of q) \<in> {ns, ''shared-services''} \<Longrightarrow> reach ns tk (ApiUpdate (Quotas rt) q)"
  "fst (key_of d) \<in> {ns, ''shared-services''} \<Longrightarrow> reach ns tk (ApiUpdate (Deployments rt) d)"
  "fst (key_of s) \<in> {ns, ''shared-services''} \<Longrightarrow> reach ns tk (ApiUpdate (StatefulSets rt) s)"
  by (rule quo.vsteps_update dep.vsteps_update sts.vsteps_update,
    rule within_preorder, simp add: within_def outside_upd)+

lemma deletes_within:
  "fst (key_of se) \<in> {ns, ''shared-services''} \<Longrightarrow> reach ns tk (ApiDelete (Secrets rt) se opt)"
  "fst (key_of q) \<in> {ns, ''shared-services''} \<Longrightarrow> reach ns tk (ApiDelete (Quotas rt) q opt)"
  "fst (key_of s) \<in> {ns, ''shared-services''} \<Longrightarrow> reach ns tk (ApiDelete (StatefulSets rt) s opt)"
  "fst (key_of sv) \<in> {ns, ''shared-services''} \<Longrightarrow> reach ns tk (ApiDelete (Services rt) sv opt)"
  "fst (key_of j) \<in> {ns, ''shared-services''} \<Longrightarrow> reach ns tk (ApiDelete (Jobs rt) j opt)"
  "fst (key_of c) \<in> {ns, ''shared-services''} \<Longrightarrow> reach ns tk (ApiDelete (Claims rt) c opt)"
  "key_of n = ('''', ns) \<Longrightarrow> reach ns tk (ApiDelete (Namespaces rt) n opt)"
  by (rule sec.vsteps_delete quo.vsteps_delete sts.vsteps_delete svc.vsteps_delete job.vsteps_delete
      pvc.vsteps_delete ns.vsteps_delete,
    rule within_preorder, simp add: within_def outside_upd, simp add: within_def outside_upd)+

lemma tenant_writes_within:
  "key_of t = tk \<Longrightarrow> reach ns tk (ApiUpdate (Tenants rt) t)"
  "key_of t = tk \<Longrightarrow> reach ns tk (StatusUpdate rt t)"
  by (rule vstepsI, drule ten.main_effect ten.status_effect, elim disjE exE conjE,
    simp, simp add: within_def)+

lemmas reach_rules = vsteps_and_then_run vsteps_on_error_run vsteps_control(1-5,8,9) vsteps_branch
  vsteps_MustParse vsteps_generate vsteps_read_config vsteps_rand vsteps_now vsteps_retry within_preorder
  ns.vsteps_reads sec.vsteps_reads cm.vsteps_reads quo.vsteps_reads dep.vsteps_reads
  sts.vsteps_reads svc.vsteps_reads job.vsteps_reads pvc.vsteps_reads pod.vsteps_reads
  ten.vsteps_reads creates_within updates_within deletes_within

text \<open>Where an object comes from.\<close>

lemma read_keys:
  "ApiGet (Namespaces rt) a n w = (Ok x1, w') \<Longrightarrow> key_of x1 = (a, n)"
  "ApiGet (Secrets rt) a n w = (Ok x2, w') \<Longrightarrow> key_of x2 = (a, n)"
  "ApiGet (Quotas rt) a n w = (Ok x3, w') \<Longrightarrow> key_of x3 = (a, n)"
  "ApiGet (Deployments rt) a n w = (Ok x4, w') \<Longrightarrow> key_of x4 = (a, n)"
  "ApiGet (StatefulSets rt) a n w = (Ok x5, w') \<Longrightarrow> key_of x5 = (a, n)"
  "ApiGet (Services rt) a n w = (Ok x6, w') \<Longrightarrow> key_of x6 = (a, n)"
  by (drule ns.get_found sec.get_found quo.get_found dep.get_found sts.get_found svc.get_found,
    elim conjE, erule ns.keyed sec.keyed quo.keyed dep.keyed sts.keyed svc.keyed)+

lemma list_keys:
  "\<lbrakk>ApiList (StatefulSets rt) a kvs w = (Ok xs1, w'); x1 \<in> set xs1\<rbrakk> \<Longrightarrow> key_of x1 = (a, name_of x1)"
  "\<lbrakk>ApiList (Jobs rt) a kvs w = (Ok xs2, w'); x2 \<in> set xs2\<rbrakk> \<Longrightarrow> key_of x2 = (a, name_of x2)"
  "\<lbrakk>ApiList (Claims rt) a kvs w = (Ok xs3, w'); x3 \<in> set xs3\<rbrakk> \<Longrightarrow> key_of x3 = (a, name_of x3)"
  by (drule sts.list_found job.list_found pvc.list_found, simp, elim conjE,
    drule sts.keyed job.keyed pvc.keyed, simp)+

end

section \<open>Every operation stays within reach\<close>

context cluster_client
begin

lemma utils_within:
  assumes "ns = ''tenant-'' @ uid_of t"
  shows "reach ns tk (CreateNamespaceForTenant rt t)" "reach ns tk (DeleteNamespaceForTenant rt (uid_of t))"
    "reach ns tk (DeleteResourceQuotaForTenant rt t)"
  unfolding CreateNamespaceForTenant_def DeleteNamespaceForTenant_def DeleteResourceQuotaForTenant_def Let_def
  by (intro reach_rules; auto dest!: read_keys simp: assms)+

lemma quota_within:
  assumes "ns = ''tenant-'' @ uid_of t"
  shows "reach ns tk (CreateResourceQuotaForTenant rt t)"
proof -
  have key: "key_of (q\<lparr>Hard := h\<rparr>) = key_of q" for q :: "'b resource_quota" and h by (simp add: key_of_def)
  show ?thesis
    unfolding CreateResourceQuotaForTenant_def Let_def split_def
    by (intro reach_rules vsteps_sync_desired; auto dest!: read_keys simp: assms key)
qed

lemma roll_out_key: "roll_out t d w = (Ok p, w') \<Longrightarrow> key_of (fst p) = key_of d"
  using roll_out_Ok(2) [of t d w "fst p" "snd p"] by simp

lemma deployment_within:
  assumes "ns = ''tenant-'' @ uid_of t"
  shows "reach ns tk (CreateTenantServiceDeployment rt t)"
proof -
  have key: "key_of d = (''tenant-'' @ uid_of t, ''backend'')"
    if "on_error (ApiGet (Deployments rt) (''tenant-'' @ uid_of t) ''backend'')
         (\<lambda>err. if is_not_found err
                then and_then (MustParse rt ''50m'') (\<lambda>requestCPU.
                     and_then (MustParse rt ''32Mi'') (\<lambda>requestMemory.
                     and_then (MustParse rt ''500m'') (\<lambda>limitCPU.
                     and_then (MustParse rt ''256Mi'') (\<lambda>limitMemory.
                       ApiCreate (Deployments rt)
                         (backend_deployment t requestCPU requestMemory limitCPU limitMemory)))))
                else fail err)
         ret w = (Ok d, w')" for w d w'
    using that
  proof (cases rule: on_error_Ok [consumes 1, case_names found missing])
    case (found x w1)
    then show ?thesis by (auto dest: read_keys)
  next
    case (missing e w1)
    then show ?thesis
      by (auto elim!: and_then_Ok MustParse_Ok dest!: dep.create_ok split: if_splits)
  qed
  show ?thesis
    unfolding CreateTenantServiceDeployment_def Let_def split_def
    by (intro reach_rules vsteps_roll_out; auto dest!: key roll_out_key simp: assms simp del: append_Cons)
qed

text \<open>The programs that build the literals write nothing, and the literals have the key asked for.\<close>

lemma literals_within:
  "reach ns tk (postgres_literal rt t n s sec)" "reach ns tk (init_job_literal rt t j m n creds)"
  "reach ns tk (new_tenant_secret rt t s n)" "reach ns tk (shared_config_literal rt)"
  "reach ns tk (remove_job_literal rt u j s)"
  unfolding postgres_literal_def init_job_literal_def new_tenant_secret_def shared_config_literal_def
    remove_job_literal_def job_quantities_def Let_def
  by (intro reach_rules)+

lemma literals_keys:
  "postgres_literal rt t n s m w = (Ok x1, w') \<Longrightarrow> key_of x1 = (n, s)"
  "init_job_literal rt t j m n creds w = (Ok x2, w') \<Longrightarrow> key_of x2 = (n, j)"
  "new_tenant_secret rt t s n w = (Ok x3, w') \<Longrightarrow> key_of x3 = (''tenant-'' @ uid_of t, ''database-secret'')"
  "and_then (wrapping msg (generatePassword rt i)) (\<lambda>pw. ret (master_secret_object n s pw)) w = (Ok x4, w')
    \<Longrightarrow> key_of x4 = (n, s)"
  "remove_job_literal rt u j s w = (Ok x5, w') \<Longrightarrow> key_of x5 = (''shared-services'', j)"
      apply (auto dest: postgres_literal_Ok(2) init_job_literal_Ok new_tenant_secret_Ok)[3]
   apply (auto elim!: and_then_Ok)[1]
  apply (auto simp: remove_job_literal_def Let_def elim!: and_then_Ok dest!: job_quantities_Ok(2))[1]
  done

lemma instance_within:
  assumes "n \<in> {ns, ''shared-services''}" and "ns = ''tenant-'' @ uid_of t"
  shows "reach ns tk (copyPostgreSQLConfigMapToNamespace rt n)" "reach ns tk (createPostgreSQLSecret rt n)"
    "reach ns tk (createPostgreSQLStatefulSet rt t n s)" "reach ns tk (createPostgreSQLService rt t n s)"
    "reach ns tk (createTenantPostgreSQLSecret rt t s n)" "reach ns tk (createDatabaseInitJob rt t m n creds)"
  unfolding copyPostgreSQLConfigMapToNamespace_def createPostgreSQLSecret_def
    createPostgreSQLStatefulSet_def createPostgreSQLService_def createTenantPostgreSQLSecret_def
    createDatabaseInitJob_def Let_def
  by (intro reach_rules literals_within; use assms in \<open>auto dest!: literals_keys\<close>)+

end

section \<open>The database part\<close>

context cluster_client
begin

lemma createPostgreSQLInstance_within:
  assumes "ns = ''tenant-'' @ uid_of t"
  shows "reach ns tk (createPostgreSQLInstance rt t)"
  unfolding createPostgreSQLInstance_def Let_def
  by (intro reach_rules instance_within; simp add: assms)

lemma add_within: "reach ns tk (addTenantToSharedInstance rt t n)"
  unfolding addTenantToSharedInstance_def add_attempt_def Let_def
  by (intro reach_rules; auto dest!: read_keys)

lemma CreatePostgreSQL_within:
  assumes "ns = ''tenant-'' @ uid_of t"
  shows "reach ns tk (CreatePostgreSQLForTenant rt t)"
proof -
  have "reach ns tk (joinSharedInstance rt t n)" for n
    unfolding joinSharedInstance_def by (intro reach_rules instance_within; simp add: assms)
  then show ?thesis
    unfolding CreatePostgreSQLForTenant_def findAvailableSharedInstance_def
    by (intro reach_rules createPostgreSQLInstance_within add_within assms)
qed

lemma deleting_within: "reach ns tk m \<Longrightarrow> reach ns tk (deleting msg m)"
  unfolding deleting_def by (intro reach_rules)

lemma delete_each_within:
  "(\<And>x. x \<in> set xs \<Longrightarrow> reach ns tk (f x)) \<Longrightarrow> reach ns tk (delete_each f xs)"
  by (induction xs) (simp_all only: delete_each.simps, (intro reach_rules; simp)+)

lemma claims_listed:
  assumes "getPostgreSQLPVCsByLabels rt ss w = (Ok xs, w')" and "x \<in> set xs"
  shows "fst (key_of x) = namespace_of ss"
proof -
  from assms obtain items w1 where "ApiList (Claims rt) (namespace_of ss) [] w = (Ok items, w1)" "x \<in> set items"
    unfolding getPostgreSQLPVCsByLabels_def by (auto elim!: and_then_Ok)
  from list_keys(3) [OF this] show ?thesis by simp
qed

lemma claims_within: "reach ns tk (getPostgreSQLPVCsByLabels rt ss)"
  unfolding getPostgreSQLPVCsByLabels_def by (intro reach_rules)

lemma cleanup_claims_within:
  assumes "\<And>ss. found = Some ss \<Longrightarrow> namespace_of ss = ''shared-services''"
  shows "reach ns tk (cleanup_claims rt found)"
proof (cases found)
  case (Some ss)
  have "fst (key_of x) \<in> {ns, ''shared-services''}"
    if "getPostgreSQLPVCsByLabels rt ss w = (Ok xs, w')" "x \<in> set xs" for w xs w' x
    using claims_listed [OF that] assms [OF Some] by simp
  then show ?thesis
    unfolding cleanup_claims_def Some option.case
    by (intro reach_rules claims_within delete_each_within deleting_within)
qed (simp add: cleanup_claims_def reach_rules)

lemma cleanup_parts_within:
  "(\<And>ss. found = Some ss \<Longrightarrow> namespace_of ss = ''shared-services'') \<Longrightarrow> reach ns tk (cleanup_stateful_set rt found)"
  "reach ns tk (cleanup_service rt n)" "reach ns tk (cleanup_master_secret rt n)" "reach ns tk (cleanup_jobs rt n)"
  unfolding cleanup_stateful_set_def cleanup_service_def cleanup_master_secret_def cleanup_jobs_def
  by (intro reach_rules delete_each_within deleting_within; auto simp: key_of_def dest!: read_keys list_keys)+

lemma cleanup_within: "reach ns tk (cleanupSharedPostgreSQLInstance rt n)"
proof -
  have found: "namespace_of ss = ''shared-services''"
    if "on_error (ApiGet (StatefulSets rt) ''shared-services'' n)
          (\<lambda>err. if is_not_found err then ret None else fail (Wrapf ''failed to get StatefulSet'' err))
          (\<lambda>statefulSet. ret (Some statefulSet)) w = (Ok found, w')" and "found = Some ss" for w found w' ss
  proof -
    from that obtain w1 where "ApiGet (StatefulSets rt) ''shared-services'' n w = (Ok ss, w1)"
      by (auto elim!: on_error_Ok split: if_splits)
    from read_keys(5) [OF this] show ?thesis by (simp add: key_of_def)
  qed
  show ?thesis
    unfolding cleanupSharedPostgreSQLInstance_def Let_def
    by (intro reach_rules cleanup_claims_within cleanup_parts_within) (erule (1) found)+
qed

end

context cluster_client
begin

lemma removal_job_within: "reach ns tk (createRemovalJob rt u n)"
  unfolding createRemovalJob_def Let_def
  by (intro reach_rules literals_within; auto dest!: literals_keys)

lemma remove_from_first_within:
  "(\<And>ss. ss \<in> set xs \<Longrightarrow> fst (key_of ss) = ''shared-services'') \<Longrightarrow> reach ns tk (remove_from_first rt u xs)"
proof (induction xs)
  case Nil
  show ?case unfolding remove_from_first.simps by (intro reach_rules)
next
  case (Cons ss rest)
  have "fst (key_of ss) = ''shared-services''" and "reach ns tk (remove_from_first rt u rest)"
    using Cons by simp_all
  then show ?case
    unfolding remove_from_first.simps Let_def
    by (intro reach_rules cleanup_within removal_job_within vsteps_control(9)) simp_all
qed

lemma DeletePostgreSQL_within: "reach ns tk (DeletePostgreSQLForTenant rt t)"
  unfolding DeletePostgreSQLForTenant_def removeTenantFromSharedInstance_def
  by (intro reach_rules remove_from_first_within; auto dest!: list_keys)

section \<open>Reconciliations\<close>

lemma or_stop_within:
  "\<lbrakk>reach ns tk m; \<And>w a w'. m w = (Ok a, w') \<Longrightarrow> reach ns tk (k a)\<rbrakk> \<Longrightarrow> reach ns tk (or_stop m k)"
  unfolding or_stop_def by (intro reach_rules)

lemma return_update_within: "key_of t = tk \<Longrightarrow> reach ns tk (return_update rt b t)"
  unfolding return_update_def by (intro reach_rules tenant_writes_within)

lemma status_key: "StatusUpdate rt x w = (Ok x', w') \<Longrightarrow> key_of x' = key_of x"
  by (drule ten.status_ok) (auto simp: Let_def key_of_def dest: ten.keyed)

lemma deletion_within:
  assumes "ns = ''tenant-'' @ uid_of t" and "key_of t = tk"
  shows "reach ns tk (reconcile_deletion rt t)"
  unfolding reconcile_deletion_def
  by (intro or_stop_within vsteps_branch vsteps_control within_preorder DeletePostgreSQL_within utils_within
      return_update_within; simp add: assms remove_finalizer)

lemma finalizer_within:
  assumes "key_of t = tk"
  shows "reach ns tk (reconcile_finalizer rt t)"
proof -
  have key: "key_of (AddFinalizer rt t f) = tk" for f by (simp add: add_finalizer assms)
  have same: "key_of (x\<lparr>Status := s\<rparr>) = key_of x" for x :: "'b tenant_environment" and s by (simp add: key_of_def)
  show ?thesis
    unfolding reconcile_finalizer_def Let_def
    by (intro reach_rules or_stop_within tenant_writes_within return_update_within;
        auto simp: key same dest!: status_key)
qed

text \<open>The tenant that a status update returns is the one at hand as long as it is stored as such.\<close>

lemma run_within:
  assumes "or_stop m k w = (r, w')" and "reach ns tk m" and "vsteps view same_tenants m" and "in_sync (view w) t"
    and "\<And>a w1. \<lbrakk>k a w1 = (r, w'); in_sync (view w1) t\<rbrakk> \<Longrightarrow> within ns tk (view w1) (view w')"
  shows "within ns tk (view w) (view w')"
  using assms(1)
proof (cases rule: or_stop_cases)
  case (ok a w1)
  have "in_sync (view w1) t"
    by (rule in_sync_same [OF assms(4) vsteps_run [OF assms(3) ok(1)]])
  from assms(5) [OF ok(2) this] vsteps_run [OF assms(2) ok(1)] show ?thesis by (blast intro: within_trans)
qed (auto dest: vsteps_run [OF assms(2)])

lemma database_within:
  assumes run: "reconcile_database rt t k w = (r, w')" and sync: "in_sync (view w) t"
    and ns: "ns = ''tenant-'' @ uid_of t" and key: "key_of t = tk"
    and k: "\<And>t'. same_tenant t t' \<Longrightarrow> reach ns tk (k t')"
  shows "within ns tk (view w) (view w')"
proof (cases "DatabaseStatus (Status t) = '''' \<or> DatabaseStatus (Status t) = ''Unassigned''")
  case False
  with run have "k t w = (r, w')" by (simp add: reconcile_database_def)
  with k [of t] show ?thesis by (auto dest: vsteps_run)
next
  case True
  with run have run': "or_stop (StatusUpdate rt (set_database_status ''Provisioning'' t)) (\<lambda>tenantEnv.
        or_stop (CreatePostgreSQLForTenant rt tenantEnv) (\<lambda>_.
        or_stop (StatusUpdate rt (set_database_status ''Assigned'' tenantEnv)) k)) w = (r, w')"
    by (simp add: reconcile_database_def)
  have first: "reach ns tk (StatusUpdate rt (set_database_status ''Provisioning'' t))"
    by (rule tenant_writes_within(2)) (simp add: key)
  from run' show ?thesis
  proof (cases rule: or_stop_cases)
    case (ok t1 w1)
    have same: "same_tenant t (set_database_status ''Provisioning'' t)" by (simp add: same_tenant_def)
    note t1 = status_sync [OF ok(1) sync same]
    have ns1: "ns = ''tenant-'' @ uid_of t1" using t1(2) ns by (simp add: same_tenant_def)
    have "within ns tk (view w1) (view w')"
    proof (rule run_within [OF ok(2) CreatePostgreSQL_within [OF ns1] CreatePostgreSQL_same_tenants t1(1)])
      fix w2
      assume rest: "or_stop (StatusUpdate rt (set_database_status ''Assigned'' t1)) k w2 = (r, w')"
        and sync2: "in_sync (view w2) t1"
      have key1: "key_of (set_database_status ''Assigned'' t1) = tk" using t1(2) key by (simp add: same_tenant_def)
      have same1: "same_tenant t1 (set_database_status ''Assigned'' t1)" by (simp add: same_tenant_def)
      from rest show "within ns tk (view w2) (view w')"
      proof (cases rule: or_stop_cases)
        case (ok t2 w3)
        have "same_tenant t t2" by (rule same_tenant_trans [OF t1(2) status_sync(2) [OF ok(1) sync2 same1]])
        from vsteps_run [OF k [OF this] ok(2)] vsteps_run [OF tenant_writes_within(2) [OF key1] ok(1)]
        show ?thesis by (blast intro: within_trans)
      qed (auto dest: vsteps_run [OF tenant_writes_within(2) [OF key1]])
    qed
    with vsteps_run [OF first ok(1)] show ?thesis by (rule within_trans)
  qed (auto dest: vsteps_run [OF first])
qed

lemma main_within:
  assumes "reconcile_main rt t w = (r, w')" and sync: "in_sync (view w) t"
    and ns: "ns = ''tenant-'' @ uid_of t" and key: "key_of t = tk"
  shows "within ns tk (view w) (view w')"
  using assms(1) unfolding reconcile_main_def
proof (rule run_within [OF _ utils_within(1) [OF ns] utils_same_tenants(1) sync])
  fix w1
  assume "or_stop (if ResourceQuotas (Spec t) \<noteq> None then CreateResourceQuotaForTenant rt t else ret ()) (\<lambda>_.
     reconcile_database rt t (\<lambda>tenantEnv.
     or_stop (CreateTenantServiceDeployment rt tenantEnv) (\<lambda>_. ret (False, None)))) w1 = (r, w')"
    and sync1: "in_sync (view w1) t"
  then show "within ns tk (view w1) (view w')"
  proof (rule_tac run_within [OF _ _ when_same_tenants [OF quota_same_tenants]])
    show "reach ns tk (if ResourceQuotas (Spec t) \<noteq> None then CreateResourceQuotaForTenant rt t else ret ())"
      by (intro vsteps_branch quota_within [OF ns] vsteps_control within_preorder)
    fix w2
    assume run: "reconcile_database rt t (\<lambda>tenantEnv.
        or_stop (CreateTenantServiceDeployment rt tenantEnv) (\<lambda>_. ret (False, None))) w2 = (r, w')"
      and sync2: "in_sync (view w2) t"
    have "reach ns tk (or_stop (CreateTenantServiceDeployment rt t') (\<lambda>_. ret (False, None)))"
      if "same_tenant t t'" for t'
      using that ns by (intro or_stop_within deployment_within vsteps_control within_preorder)
        (simp add: same_tenant_def)
    from database_within [OF run sync2 ns key this] show "within ns tk (view w2) (view w')" .
  qed
qed

end

section \<open>Any request\<close>

text \<open>The tenant that a request is about.\<close>

definition addressed :: "request \<Rightarrow> object_key" where
  "addressed req =
     (RequestNamespace req,
      if strings_HasPrefix (RequestName req) ''pod-event:''
      then (case strings_Split CHR '':'' (RequestName req) of [_, _, n] \<Rightarrow> n | _ \<Rightarrow> '''')
      else RequestName req)"

context cluster_client
begin

lemma mark_ready_within:
  assumes "key_of t = tk"
  shows "reach ns tk (mark_ready rt t)"
proof -
  have same: "key_of (x\<lparr>Status := s\<rparr>) = key_of x" for x :: "'b tenant_environment" and s by (simp add: key_of_def)
  show ?thesis
    unfolding mark_ready_def Let_def
    by (intro reach_rules or_stop_within tenant_writes_within vsteps_observe; simp add: same assms within_def)
qed

lemma Reconcile_within:
  assumes "Reconcile rt req w = (r, w')"
  shows "view w' = view w \<or> (\<exists>ns. within ns (addressed req) (view w) (view w') \<and>
    (\<forall>t. cl_tenants (view w) (addressed req) = Some t \<longrightarrow> ns = ''tenant-'' @ uid_of t) \<and>
    cl_tenants (view w) (addressed req) \<noteq> None)"
  using assms
proof (cases rule: Reconcile_cases)
  case event
  from event(2) show ?thesis
  proof (cases rule: pod_event_cases)
    case (ready x p n t pod w1)
    with event(1) have "addressed req = key_of t" by (simp add: addressed_def)
    with ready vsteps_run [OF mark_ready_within [OF refl] ready(8)] show ?thesis by auto
  qed simp
next
  case (deleting t w1)
  then have "addressed req = (''default'', RequestName req)" by (simp add: addressed_def)
  with deleting vsteps_run [OF deletion_within [OF refl refl] deleting(7)] show ?thesis by auto
next
  case (unmarked t w1)
  then have "addressed req = (''default'', RequestName req)" by (simp add: addressed_def)
  with unmarked vsteps_run [OF finalizer_within [OF refl], OF unmarked(8)] show ?thesis by auto
next
  case (live t w1)
  then have a: "addressed req = (''default'', RequestName req)" by (simp add: addressed_def)
  have "in_sync (view w1) t" using live by (simp add: in_sync_def)
  from main_within [OF live(8) this refl refl] live a show ?thesis by auto
qed auto

end

section \<open>Isolation\<close>

text \<open>Everything a tenant namespace holds, and the namespace, is as before.\<close>

definition same_namespace :: "string \<Rightarrow> 'q cluster \<Rightarrow> 'q cluster \<Rightarrow> bool" where
  "same_namespace ns v v' \<longleftrightarrow>
     cl_namespaces v' ('''', ns) = cl_namespaces v ('''', ns) \<and>
     (\<forall>n. cl_secrets v' (ns, n) = cl_secrets v (ns, n) \<and> cl_config_maps v' (ns, n) = cl_config_maps v (ns, n) \<and>
        cl_quotas v' (ns, n) = cl_quotas v (ns, n) \<and> cl_deployments v' (ns, n) = cl_deployments v (ns, n) \<and>
        cl_stateful_sets v' (ns, n) = cl_stateful_sets v (ns, n) \<and> cl_services v' (ns, n) = cl_services v (ns, n) \<and>
        cl_jobs v' (ns, n) = cl_jobs v (ns, n) \<and> cl_claims v' (ns, n) = cl_claims v (ns, n) \<and>
        cl_pods v' (ns, n) = cl_pods v (ns, n))"

lemma within_other:
  assumes "within ns tk v v'" and "ns' \<notin> {ns, ''shared-services''}"
  shows "same_namespace ns' v v'"
  using assms by (simp add: within_def outside_def same_namespace_def)

lemma within_tenant: "\<lbrakk>within ns tk v v'; k \<noteq> tk\<rbrakk> \<Longrightarrow> cl_tenants v' k = cl_tenants v k"
  unfolding within_def by blast

context cluster_client
begin

lemma reconcile_isolated:
  assumes "Reconcile rt req w = (r, w')" and sound: "tenants_sound (view w)"
    and s: "cl_tenants (view w) k = Some s" "k \<noteq> addressed req"
  shows "same_namespace (''tenant-'' @ uid_of s) (view w) (view w') \<and> cl_tenants (view w') k = Some s"
  using Reconcile_within [OF assms(1)]
proof (elim disjE exE conjE)
  assume "view w' = view w"
  with s show ?thesis by (simp add: same_namespace_def)
next
  fix ns
  assume reach: "within ns (addressed req) (view w) (view w')"
    and ns: "\<forall>t. cl_tenants (view w) (addressed req) = Some t \<longrightarrow> ns = ''tenant-'' @ uid_of t"
    and "cl_tenants (view w) (addressed req) \<noteq> None"
  then obtain t where t: "cl_tenants (view w) (addressed req) = Some t" "ns = ''tenant-'' @ uid_of t" by auto
  from sound s t(1) have "uid_of s \<noteq> uid_of t" unfolding tenants_sound_def by metis
  with t(2) have "''tenant-'' @ uid_of s \<notin> {ns, ''shared-services''}" by simp
  from within_other [OF reach this] within_tenant [OF reach s(2)] s(1) show ?thesis by simp
qed

end

section \<open>What the operator does to a tenant it has given up\<close>

text \<open>A run of the operator by itself: reconciliations of any request, pod events, restarts.\<close>

inductive controller_step :: "('w, 'q) runtime \<Rightarrow> 'w \<Rightarrow> 'w \<Rightarrow> bool" for rt where
  reconcile: "Reconcile rt req w = (r, w') \<Longrightarrow> controller_step rt w w'"
| map_pod: "podToTenantEnvironment rt obj w = (reqs, w') \<Longrightarrow> controller_step rt w w'"
| restart: "Start rt w = (r, w') \<Longrightarrow> controller_step rt w w'"

inductive controller_run :: "('w, 'q) runtime \<Rightarrow> 'w \<Rightarrow> 'w \<Rightarrow> bool" for rt where
  start: "controller_run rt w w"
| step: "\<lbrakk>controller_run rt w w1; controller_step rt w1 w2\<rbrakk> \<Longrightarrow> controller_run rt w w2"

inductive_cases controller_stepE: "controller_step rt w w'"

text \<open>The registrations of the tenant and the database objects of its namespace are as before.\<close>

definition same_provisioning :: "'q tenant_environment \<Rightarrow> 'q cluster \<Rightarrow> 'q cluster \<Rightarrow> bool" where
  "same_provisioning t v v' \<longleftrightarrow>
     (\<forall>n. listed v' n (uid_of t) = listed v n (uid_of t)) \<and>
     (\<forall>n. cl_secrets v' (tenant_namespace t, n) = cl_secrets v (tenant_namespace t, n) \<and>
        cl_stateful_sets v' (tenant_namespace t, n) = cl_stateful_sets v (tenant_namespace t, n) \<and>
        cl_services v' (tenant_namespace t, n) = cl_services v (tenant_namespace t, n) \<and>
        cl_jobs v' (tenant_namespace t, n) = cl_jobs v (tenant_namespace t, n) \<and>
        cl_claims v' (tenant_namespace t, n) = cl_claims v (tenant_namespace t, n))"

definition given_up :: "'q cluster \<Rightarrow> object_key \<Rightarrow> 'q tenant_environment \<Rightarrow> bool" where
  "given_up v k t \<longleftrightarrow> (\<exists>t'. cl_tenants v k = Some t' \<and> same_tenant t t' \<and> \<not> is_deleting t' \<and> is_marked t' \<and>
     DatabaseStatus (Status t') = ''Provisioning'')"

lemma same_provisioning_refl [simp]: "same_provisioning t v v"
  by (simp add: same_provisioning_def)

lemma same_provisioning_trans:
  "\<lbrakk>same_provisioning t a b; same_provisioning t b c\<rbrakk> \<Longrightarrow> same_provisioning t a c"
  by (simp add: same_provisioning_def)

lemma same_provisioning_tenant: "same_tenant t t' \<Longrightarrow> same_provisioning t' = same_provisioning t"
  by (simp add: fun_eq_iff same_provisioning_def same_tenant_def)

lemma same_database_provisioning: "same_database v v' \<Longrightarrow> same_provisioning t v v'"
  by (simp add: same_database_def same_provisioning_def listed_frame [of v' v])

context cluster_client
begin

lemma Reconcile_table:
  assumes run: "Reconcile rt req w = (r, w')" and inv: "operator_inv (view w)"
  shows "listed (view w') = listed (view w) \<or>
    (\<exists>t. cl_tenants (view w) (addressed req) = Some t \<and> table_step (uid_of t) (listed (view w)) (listed (view w')))"
  using run
proof (cases rule: Reconcile_cases)
  case event
  from event(2) show ?thesis
  proof (cases rule: pod_event_cases)
    case (ready x p n t pod w1)
    from listed_frame [OF vsteps_run [OF same_sets_ready ready(8)]] show ?thesis by (simp add: ready(7))
  qed simp
next
  case (deleting t w1)
  have "addressed req = (''default'', RequestName req)" using deleting by (simp add: addressed_def)
  moreover have "registries_consistent (view w1)" using operator_invD(1) [OF inv] by (simp add: deleting(4))
  ultimately show ?thesis
    using deletion_expels [OF deleting(7)] deleting(3) by (simp add: deleting(4) table_step_def)
next
  case (unmarked t w1)
  from listed_frame [OF vsteps_run [OF same_sets_finalizer unmarked(8)]] show ?thesis by (simp add: unmarked(4))
next
  case (live t w1)
  have "addressed req = (''default'', RequestName req)" using live by (simp add: addressed_def)
  moreover have "in_sync (view w1) t" "operator_inv (view w1)" using live inv by (auto simp: in_sync_def)
  ultimately show ?thesis using main_inv [OF live(8)] live(3) by (simp add: live(4))
qed simp_all

lemma other_provisioning:
  assumes run: "Reconcile rt req w = (r, w')" and inv: "operator_inv (view w)"
    and s: "cl_tenants (view w) k = Some s" "k \<noteq> addressed req"
  shows "same_provisioning s (view w) (view w')"
proof -
  have "listed (view w') n (uid_of s) = listed (view w) n (uid_of s)" for n
    using Reconcile_table [OF run inv]
  proof (elim disjE exE conjE)
    fix t
    assume t: "cl_tenants (view w) (addressed req) = Some t"
      and step: "table_step (uid_of t) (listed (view w)) (listed (view w'))"
    have "uid_of s \<noteq> uid_of t" using operator_invD(3) [OF inv] s t unfolding tenants_sound_def by metis
    then show ?thesis by (rule table_step_others [OF step])
  qed simp
  with reconcile_isolated [OF run operator_invD(3) [OF inv] s] show ?thesis
    by (simp add: same_provisioning_def same_namespace_def)
qed

lemma ready_given_up:
  assumes run: "mark_ready rt t w = (r, w')" and t: "cl_tenants (view w) (key_of t) = Some t"
    "\<not> is_deleting t" "is_marked t" "DatabaseStatus (Status t) = ''Provisioning''"
  shows "given_up (view w') (key_of t) t \<and> same_provisioning t (view w) (view w')"
proof (cases "ReadyAt (Status t) = None")
  case False
  with run t show ?thesis by (auto simp: ready_at_set given_up_def)
next
  case True
  obtain now w1 w2 r2 os where w2: "view w2 = (view w)\<lparr>cl_observed := os\<rparr>"
    and upd: "StatusUpdate rt (t\<lparr>Status := (Status t)\<lparr>ReadyAt := Some now, Phase := ''Ready''\<rparr>\<rparr>) w2 = (r2, w')"
    by (rule mark_ready_run [OF run True])
  have key: "key_of (t\<lparr>Status := s\<rparr>) = key_of t" for s by (simp add: key_of_def)
  from ten.status_effect [OF upd] t w2 have "given_up (view w') (key_of t) t"
    by (auto simp: given_up_def key same_tenant_def is_deleting_def is_marked_def) (auto simp: key_of_def)
  moreover obtain f where "view w' = cl_tenants_update f (view w2)" using status_only_tenants [OF upd] by blast
  then have "same_provisioning t (view w) (view w')"
    by (simp add: w2 same_provisioning_def listed_def)
  ultimately show ?thesis by blast
qed

lemma start_provisioning:
  assumes "Start rt w = (r, w')"
  shows "same_provisioning t (view w) (view w') \<and> cl_tenants (view w') = cl_tenants (view w)"
proof -
  let ?P = "\<lambda>v v'. (cl_secrets v', cl_stateful_sets v', cl_services v', cl_jobs v', cl_claims v', cl_tenants v') =
    (cl_secrets v, cl_stateful_sets v, cl_services v, cl_jobs v, cl_claims v, cl_tenants v)"
  have "vsteps view ?P (Start rt)"
    unfolding Start_def ensureSharedServicesNamespace_def ensureSharedPostgreSQLConfigMap_def
      shared_config_literal_def
    by (intro vsteps_rules client_steps vsteps_read_config preorder_frame; simp)
  from vsteps_run [OF this assms] show ?thesis by (simp add: same_provisioning_def listed_def)
qed

lemma controller_step_inv:
  "\<lbrakk>controller_step rt w w'; operator_inv (view w)\<rbrakk> \<Longrightarrow> operator_inv (view w')"
  by (erule controller_stepE) (simp_all add: Reconcile_inv Start_inv map_pod_view)

text \<open>Whatever the request, a tenant left at \<open>Provisioning\<close> stays there.\<close>

lemma reconcile_given_up:
  assumes run: "Reconcile rt req w = (r, w')" and inv: "operator_inv (view w)"
    and t: "cl_tenants (view w) (''default'', n) = Some t" "\<not> is_deleting t" "is_marked t"
      "DatabaseStatus (Status t) = ''Provisioning''"
  shows "given_up (view w') (''default'', n) t \<and> same_provisioning t (view w) (view w')"
proof (cases "(''default'', n) = addressed req")
  case False
  from reconcile_isolated [OF run operator_invD(3) [OF inv] t(1) False] have "given_up (view w') (''default'', n) t"
    using t by (simp add: given_up_def)
  with other_provisioning [OF run inv t(1) False] show ?thesis by blast
next
  case addr: True
  have key: "key_of t = (''default'', n)" using t(1) by (rule ten.keyed)
  show ?thesis
  proof (cases "strings_HasPrefix (RequestName req) ''pod-event:''")
    case False
    with addr have plain: "plain_request req" "RequestName req = n"
      by (simp_all add: plain_request_def addressed_def)
    then have "stored_tenant (view w) req t" "\<not> unassigned t"
      using t by (simp_all add: stored_tenant_def unassigned_def)
    then have "same_database (view w) (view w')" by (intro not_retried [OF run plain(1) _ t(2,3)])
    then show ?thesis
      using t by (simp add: same_database_provisioning given_up_def same_database_def)
  next
    case True
    with run have "handlePodEventFromMapping rt req w = (r, w')" by (simp add: Reconcile_def)
    then show ?thesis
    proof (cases rule: pod_event_cases)
      case nothing
      with t show ?thesis by (simp add: given_up_def)
    next
      case (ready x p m t' pod w1)
      with addr True t(1) have t': "t' = t" by (simp add: addressed_def)
      from ready_given_up [OF ready(8)] ready(7) t show ?thesis by (simp add: t' key)
    qed
  qed
qed

lemma step_given_up:
  assumes "controller_step rt w w'" and "operator_inv (view w)" and "given_up (view w) (''default'', n) t"
  shows "given_up (view w') (''default'', n) t \<and> same_provisioning t (view w) (view w')"
proof -
  obtain s where s: "cl_tenants (view w) (''default'', n) = Some s" "same_tenant t s" "\<not> is_deleting s" "is_marked s"
    "DatabaseStatus (Status s) = ''Provisioning''"
    using assms(3) by (auto simp: given_up_def)
  have lift: "given_up v k s \<Longrightarrow> given_up v k t" for v k
    using s(2) unfolding given_up_def by (blast intro: same_tenant_trans)
  from assms(1) show ?thesis
  proof (cases rule: controller_step.cases)
    case (reconcile req r)
    from reconcile_given_up [OF this assms(2) s(1,3-5)] lift s(2) show ?thesis
      by (simp add: same_provisioning_tenant)
  next
    case (map_pod obj reqs)
    with assms(3) show ?thesis by (simp add: map_pod_view)
  next
    case (restart r)
    from start_provisioning [OF this, of t] assms(3) show ?thesis by (simp add: given_up_def)
  qed
qed

lemma run_given_up:
  assumes "controller_run rt w w'" and "operator_inv (view w)" and "given_up (view w) (''default'', n) t"
  shows "operator_inv (view w') \<and> given_up (view w') (''default'', n) t \<and> same_provisioning t (view w) (view w')"
  using assms
proof induction
  case (step w w1 w2)
  then have w1: "operator_inv (view w1)" "given_up (view w1) (''default'', n) t" "same_provisioning t (view w) (view w1)"
    by blast+
  from step_given_up [OF step.hyps(2) w1(1,2)] controller_step_inv [OF step.hyps(2) w1(1)] w1(3)
  show ?case by (blast intro: same_provisioning_trans)
qed simp

end

section \<open>Dedicated databases\<close>

text \<open>Objects are added in the namespace \<open>ns\<close> and nowhere else, and nothing that is stored changes.\<close>

definition adds_inside :: "string \<Rightarrow> 'q cluster \<Rightarrow> 'q cluster \<Rightarrow> bool" where
  "adds_inside ns v v' \<longleftrightarrow>
     only_adds v v' \<and> cl_namespaces v' = cl_namespaces v \<and> cl_quotas v' = cl_quotas v \<and>
     cl_deployments v' = cl_deployments v \<and>
     (\<forall>k. fst k \<noteq> ns \<longrightarrow> cl_secrets v' k = cl_secrets v k \<and> cl_config_maps v' k = cl_config_maps v k \<and>
        cl_stateful_sets v' k = cl_stateful_sets v k \<and> cl_services v' k = cl_services v k \<and>
        cl_jobs v' k = cl_jobs v k)"

lemma adds_inside_preorder [simp]: "preorder_rel (adds_inside ns)"
proof (rule preorder_relI)
  have "only_adds a c" if "only_adds a b" "only_adds b c" for a b c :: "'b cluster"
    using only_adds_preorder that unfolding preorder_rel_def by (meson transpD)
  then show "adds_inside ns a c" if "adds_inside ns a b" "adds_inside ns b c" for a b c :: "'b cluster"
    using that unfolding adds_inside_def by metis
qed (simp add: adds_inside_def only_adds_def)

context cluster_client
begin

lemma creates_inside:
  "fst (key_of se) = ns \<Longrightarrow> vsteps view (adds_inside ns) (ApiCreate (Secrets rt) se)"
  "fst (key_of c) = ns \<Longrightarrow> vsteps view (adds_inside ns) (ApiCreate (ConfigMaps rt) c)"
  "fst (key_of s) = ns \<Longrightarrow> vsteps view (adds_inside ns) (ApiCreate (StatefulSets rt) s)"
  "fst (key_of sv) = ns \<Longrightarrow> vsteps view (adds_inside ns) (ApiCreate (Services rt) sv)"
  "fst (key_of j) = ns \<Longrightarrow> vsteps view (adds_inside ns) (ApiCreate (Jobs rt) j)"
  by (rule sec.vsteps_create cm.vsteps_create sts.vsteps_create svc.vsteps_create job.vsteps_create,
    rule adds_inside_preorder, (auto simp: adds_inside_def only_adds_def map_le_fresh)[1], metis fst_conv)+

lemmas inside_rules = vsteps_and_then_run vsteps_on_error_run vsteps_control(1-5,8,9) vsteps_branch
  vsteps_MustParse vsteps_generate vsteps_rand adds_inside_preorder
  sec.vsteps_reads cm.vsteps_reads sts.vsteps_reads svc.vsteps_reads job.vsteps_reads creates_inside

lemma literals_inside:
  "vsteps view (adds_inside ns) (postgres_literal rt t n s sec)"
  "vsteps view (adds_inside ns) (init_job_literal rt t j m n creds)"
  "vsteps view (adds_inside ns) (new_tenant_secret rt t s n)"
  unfolding postgres_literal_def init_job_literal_def new_tenant_secret_def job_quantities_def Let_def
  by (intro inside_rules)+

lemma instance_inside:
  assumes "ns = ''tenant-'' @ uid_of t"
  shows "vsteps view (adds_inside ns) (copyPostgreSQLConfigMapToNamespace rt ns)"
    "vsteps view (adds_inside ns) (createPostgreSQLSecret rt ns)"
    "vsteps view (adds_inside ns) (createPostgreSQLStatefulSet rt t ns s)"
    "vsteps view (adds_inside ns) (createPostgreSQLService rt t ns s)"
    "vsteps view (adds_inside ns) (createTenantPostgreSQLSecret rt t s ns)"
    "vsteps view (adds_inside ns) (createDatabaseInitJob rt t m ns creds)"
  unfolding copyPostgreSQLConfigMapToNamespace_def createPostgreSQLSecret_def
    createPostgreSQLStatefulSet_def createPostgreSQLService_def createTenantPostgreSQLSecret_def
    createDatabaseInitJob_def Let_def
  by (intro inside_rules literals_inside; use assms in \<open>auto dest!: literals_keys\<close>)+

lemma dedicated_inside:
  assumes "DedicatedInstance (Database (Spec t))"
  shows "vsteps view (adds_inside (''tenant-'' @ uid_of t)) (CreatePostgreSQLForTenant rt t)"
  unfolding CreatePostgreSQLForTenant_def createPostgreSQLInstance_def if_P [OF assms] Let_def
  by (intro inside_rules instance_inside) simp_all

lemma dedicated_instance:
  assumes dedicated: "DedicatedInstance (Database (Spec t))"
    and run: "CreatePostgreSQLForTenant rt t w = (Ok (), w')"
  shows "\<exists>i. is_instance_id i \<and>
    (let ns = ''tenant-'' @ uid_of t in
     cl_config_maps (view w') (ns, ''postgresql-config'') \<noteq> None \<and>
     cl_secrets (view w') (ns, master_secret_name i) \<noteq> None \<and>
     cl_stateful_sets (view w') (ns, instance_name i) \<noteq> None \<and>
     cl_services (view w') (ns, instance_name i) \<noteq> None \<and>
     cl_jobs (view w') (ns, ''db-init-'' @ take 8 (uid_of t)) \<noteq> None \<and>
     cl_secrets (view w') (ns, ''database-secret'') \<noteq> None)"
proof -
  from run dedicated obtain name where inst: "createPostgreSQLInstance rt t w = (Ok name, w')"
    by (auto simp: CreatePostgreSQLForTenant_def elim!: and_then_Ok)
  show ?thesis
  proof (rule instance_Ok [OF inst])
    fix i creds w1 w2 w3 w4 w5
    let ?n = "if DedicatedInstance (Database (Spec t)) then ''tenant-'' @ uid_of t else ''shared-services''"
    assume "is_instance_id i" and name: "name = instance_name i"
      and config: "DedicatedInstance (Database (Spec t)) \<Longrightarrow> cl_config_maps (view w1) (?n, ''postgresql-config'') \<noteq> None"
      and runs: "createPostgreSQLSecret rt ?n w1 = (Ok (master_secret_name i), w2)"
        "createPostgreSQLStatefulSet rt t ?n (master_secret_name i) w2 = (Ok name, w3)"
        "createPostgreSQLService rt t ?n name w3 = (Ok name, w4)"
        "createTenantPostgreSQLSecret rt t name ?n w4 = (Ok creds, w5)"
        "createDatabaseInitJob rt t (master_secret_name i) ?n creds w5 = (Ok (), w')"
    have "only_adds (view w1) (view w')"
      using instance_adds(2-6) [THEN vsteps_run] runs by (meson only_adds_trans)
    with config dedicated have "cl_config_maps (view w') (''tenant-'' @ uid_of t, ''postgresql-config'') \<noteq> None"
      by (simp add: only_adds_present)
    with instance_objects [OF inst] dedicated show ?thesis by (auto simp: Let_def)
  qed
qed

end

text \<open>C40: a dedicated database lives in the namespace of its tenant: provisioning it, whatever the
  outcome, changes nothing that is stored and adds objects in that namespace only, none in the shared one; and
  when it succeeds the configuration, the master secret, the stateful set, the service, the init job and
  the tenant's credentials are all there.\<close>

theorem dedicated_kept_apart:
  assumes "cluster_client rt view" and "CreatePostgreSQLForTenant rt t w = (r, w')"
    and "DedicatedInstance (Database (Spec t))"
  shows "adds_inside (''tenant-'' @ uid_of t) (view w) (view w') \<and>
    (r = Ok () \<longrightarrow> (\<exists>i. is_instance_id i \<and>
      (let ns = ''tenant-'' @ uid_of t in
       cl_config_maps (view w') (ns, ''postgresql-config'') \<noteq> None \<and>
       cl_secrets (view w') (ns, master_secret_name i) \<noteq> None \<and>
       cl_stateful_sets (view w') (ns, instance_name i) \<noteq> None \<and>
       cl_services (view w') (ns, instance_name i) \<noteq> None \<and>
       cl_jobs (view w') (ns, ''db-init-'' @ take 8 (uid_of t)) \<noteq> None \<and>
       cl_secrets (view w') (ns, ''database-secret'') \<noteq> None)))"
  using vsteps_run [OF cluster_client.dedicated_inside [OF assms(1,3)] assms(2)]
    cluster_client.dedicated_instance [OF assms(1,3)] assms(2) by blast

lemma started_world: "fst (CreatePostgreSQLForTenant mem_runtime (sample_tenant True)
    (snd (Start mem_runtime empty_world))) = Ok ()"
  by code_simp

theorem dedicated_kept_apart_witness:
  "\<exists>i. cl_stateful_sets (mem_view (snd (CreatePostgreSQLForTenant mem_runtime (sample_tenant True)
    (snd (Start mem_runtime empty_world))))) (''tenant-0a1b2c3d-4e5f'', instance_name i) \<noteq> None"
proof -
  have "DedicatedInstance (Database (Spec (sample_tenant True)))" by simp
  moreover have "CreatePostgreSQLForTenant mem_runtime (sample_tenant True) (snd (Start mem_runtime empty_world)) =
      (Ok (), snd (CreatePostgreSQLForTenant mem_runtime (sample_tenant True) (snd (Start mem_runtime empty_world))))"
    by (rule evaluated, rule started_world)
  note dedicated_kept_apart [OF mem_client, OF this]
  ultimately show ?thesis
    by (auto simp: Let_def)
qed

end
