(* ===== verification/TenantService.thy ===== *)
theory TenantService
  imports PgInstance Samples
begin

text \<open>
  The backend that the operator deploys for a tenant (\<open>tenant-service/main.go\<close>): it connects to the
  database named by its environment, retrying for ever, and serves \<open>/healthz\<close>. The environment,
  \<open>database/sql\<close> with its driver, \<open>time.Sleep\<close> and \<open>http.ListenAndServe\<close> are parameters. A loop
  that does not return is \<open>None\<close>, \<open>log.Fatal\<close> is \<open>Inl\<close> of its message.
\<close>

section \<open>State and environment\<close>

text \<open>The package variable \<open>db\<close>, \<open>None\<close> for \<open>nil\<close>, beside the world.\<close>

record ('w, 'db) service_state =
  sv_db :: "'db option"
  sv_world :: 'w

record response =
  StatusCode :: int
  Body :: string

record ('w, 'db) service_runtime =
  Getenv :: "string \<Rightarrow> string"
  SqlOpen :: "string \<Rightarrow> string \<Rightarrow> 'w \<Rightarrow> (go_error + 'db) \<times> 'w"
  PingDb :: "'db \<Rightarrow> 'w \<Rightarrow> go_error option \<times> 'w"
  CloseDb :: "'db \<Rightarrow> 'w \<Rightarrow> 'w"
  SleepSeconds :: "int \<Rightarrow> 'w \<Rightarrow> 'w"
  ListenAndServe :: "string \<Rightarrow>
    (string \<times> (('w, 'db) service_state \<Rightarrow> response \<times> ('w, 'db) service_state)) list \<Rightarrow>
    ('w, 'db) service_state \<Rightarrow> (string \<times> ('w, 'db) service_state) option"

section \<open>Connecting\<close>

definition conn_str :: "string \<Rightarrow> string \<Rightarrow> string \<Rightarrow> string \<Rightarrow> string \<Rightarrow> string" where
  "conn_str dbHost dbPort dbUser dbPassword dbName =
     ''host='' @ dbHost @ '' port='' @ dbPort @ '' user='' @ dbUser @ '' password='' @ dbPassword @
     '' dbname='' @ dbName @ '' sslmode=disable''"

text \<open>One round of the loop; the flag says whether it ended with \<open>break\<close>.\<close>

definition connect_attempt ::
  "('w, 'db) service_runtime \<Rightarrow> string \<Rightarrow> ('w, 'db) service_state \<Rightarrow> bool \<times> ('w, 'db) service_state" where
  "connect_attempt sr connStr s =
     (case SqlOpen sr ''postgres'' connStr (sv_world s) of
        (Inl err, w) \<Rightarrow> (False, \<lparr>sv_db = None, sv_world = SleepSeconds sr 1 w\<rparr>)
      | (Inr db, w) \<Rightarrow>
          (case PingDb sr db w of
             (Some err, w) \<Rightarrow> (False, \<lparr>sv_db = Some db, sv_world = SleepSeconds sr 1 (CloseDb sr db w)\<rparr>)
           | (None, w) \<Rightarrow> (True, \<lparr>sv_db = Some db, sv_world = w\<rparr>)))"

partial_function (option) connect_loop ::
  "('w, 'db) service_runtime \<Rightarrow> string \<Rightarrow> ('w, 'db) service_state \<Rightarrow> ('w, 'db) service_state option" where
  "connect_loop sr connStr s =
     (let (connected, s') = connect_attempt sr connStr s
      in if connected then Some s' else connect_loop sr connStr s')"

definition connectToDatabase ::
  "('w, 'db) service_runtime \<Rightarrow> ('w, 'db) service_state \<Rightarrow> ((string + unit) \<times> ('w, 'db) service_state) option" where
  "connectToDatabase sr s =
     (let dbHost = Getenv sr ''DB_HOST'';
          dbPort = Getenv sr ''DB_PORT'';
          dbUser = Getenv sr ''DB_USERNAME'';
          dbPassword = Getenv sr ''DB_PASSWORD'';
          dbName = Getenv sr ''DB_NAME''
      in if dbHost = '''' \<or> dbUser = '''' \<or> dbPassword = '''' \<or> dbName = ''''
         then Some (Inl ''Missing required database environment variables'', s)
         else
           let dbPort = (if dbPort = '''' then ''5432'' else dbPort);
               connStr = conn_str dbHost dbPort dbUser dbPassword dbName
           in map_option (\<lambda>s'. (Inr (), s')) (connect_loop sr connStr s))"

section \<open>Serving\<close>

definition healthHandler ::
  "('w, 'db) service_runtime \<Rightarrow> ('w, 'db) service_state \<Rightarrow> response \<times> ('w, 'db) service_state" where
  "healthHandler sr s =
     (case sv_db s of
        None \<Rightarrow> (\<lparr>StatusCode = 503, Body = ''Database not connected''\<rparr>, s)
      | Some db \<Rightarrow>
          (case PingDb sr db (sv_world s) of
             (Some err, w) \<Rightarrow> (\<lparr>StatusCode = 503, Body = ''Database connection failed''\<rparr>, s\<lparr>sv_world := w\<rparr>)
           | (None, w) \<Rightarrow> (\<lparr>StatusCode = 200, Body = ''OK''\<rparr>, s\<lparr>sv_world := w\<rparr>)))"

text \<open>\<open>log.Fatal\<close> ends the process with the error of \<open>ListenAndServe\<close>; deferred calls do not run.\<close>

definition service_main ::
  "('w, 'db) service_runtime \<Rightarrow> 'w \<Rightarrow> (string \<times> ('w, 'db) service_state) option" where
  "service_main sr w =
     (case connectToDatabase sr \<lparr>sv_db = None, sv_world = w\<rparr> of
        None \<Rightarrow> None
      | Some (Inl msg, s) \<Rightarrow> Some (msg, s)
      | Some (Inr _, s) \<Rightarrow> ListenAndServe sr ('':'' @ ''8080'') [(''/healthz'', healthHandler sr)] s)"

section \<open>The loop\<close>

text \<open>The state after a number of failed rounds.\<close>

primrec after_failures ::
  "('w, 'db) service_runtime \<Rightarrow> string \<Rightarrow> nat \<Rightarrow> ('w, 'db) service_state \<Rightarrow> ('w, 'db) service_state option" where
  "after_failures sr c 0 s = Some s"
| "after_failures sr c (Suc n) s =
     (if fst (connect_attempt sr c s) then None else after_failures sr c n (snd (connect_attempt sr c s)))"

lemma connect_loop_unfold:
  "connect_loop sr c s =
     (if fst (connect_attempt sr c s) then Some (snd (connect_attempt sr c s))
      else connect_loop sr c (snd (connect_attempt sr c s)))"
  by (subst connect_loop.simps) (simp add: split_def)

lemma connect_loop_complete:
  "\<lbrakk>after_failures sr c n s = Some s1; connect_attempt sr c s1 = (True, s')\<rbrakk> \<Longrightarrow> connect_loop sr c s = Some s'"
proof (induction n arbitrary: s)
  case 0
  then show ?case by (subst connect_loop_unfold) simp
next
  case (Suc n)
  then show ?case by (subst connect_loop_unfold) (simp split: if_splits)
qed

lemma connect_loop_sound:
  assumes "connect_loop sr c s = Some s'"
  shows "\<exists>n s1. after_failures sr c n s = Some s1 \<and> connect_attempt sr c s1 = (True, s')"
proof (rule connect_loop.raw_induct [where P = "\<lambda>sr c s s'. \<exists>n s1. after_failures sr c n s = Some s1 \<and>
    connect_attempt sr c s1 = (True, s')", OF _ assms])
  fix loop and sr :: "('w, 'db) service_runtime" and c s s'
  assume IH: "\<And>sr c s s'. loop sr c s = Some s' \<Longrightarrow>
      \<exists>n s1. after_failures sr c n s = Some s1 \<and> connect_attempt sr c s1 = (True, s')"
    and eq: "(let (connected, s') = connect_attempt sr c s in if connected then Some s' else loop sr c s') = Some s'"
  show "\<exists>n s1. after_failures sr c n s = Some s1 \<and> connect_attempt sr c s1 = (True, s')"
  proof (cases "fst (connect_attempt sr c s)")
    case True
    with eq have "connect_attempt sr c s = (True, s')" by (cases "connect_attempt sr c s") simp
    then show ?thesis by (intro exI [of _ 0] exI [of _ s]) simp
  next
    case False
    with eq have "loop sr c (snd (connect_attempt sr c s)) = Some s'" by (simp add: split_def)
    from IH [OF this] obtain n s1 where "after_failures sr c n (snd (connect_attempt sr c s)) = Some s1"
      and s1: "connect_attempt sr c s1 = (True, s')" by blast
    with False have "after_failures sr c (Suc n) s = Some s1" by simp
    with s1 show ?thesis by blast
  qed
qed

lemma attempt_connected:
  assumes "connect_attempt sr c s = (True, s')"
  shows "\<exists>db w. sv_db s' = Some db \<and> PingDb sr db w = (None, sv_world s')"
  using assms unfolding connect_attempt_def
  by (auto split: prod.splits sum.splits option.splits)

section \<open>A database that comes up\<close>

text \<open>
  What \<open>database/sql\<close>, its driver and the clock are relied on for: a handle is counted from the call that
  opens it to the call that closes it, no call turns the clock back, sleeping takes at least the time asked for, and
  from the time \<open>up\<close> on the database can be opened and answers pings.
\<close>

locale db_driver =
  fixes sr :: "('w, 'db) service_runtime"
    and clock :: "'w \<Rightarrow> int"
    and handles :: "'w \<Rightarrow> nat"
    and up :: int
  assumes opened: "SqlOpen sr driver c w = (Inr db, w') \<Longrightarrow> handles w' = Suc (handles w) \<and> clock w \<le> clock w'"
    and not_opened: "SqlOpen sr driver c w = (Inl e, w') \<Longrightarrow>
          handles w' = handles w \<and> clock w \<le> clock w' \<and> clock w < up"
    and pinged: "PingDb sr db w = (r, w') \<Longrightarrow>
          handles w' = handles w \<and> clock w \<le> clock w' \<and> (r \<noteq> None \<longrightarrow> clock w < up)"
    and closed: "handles (CloseDb sr db w) = handles w - 1 \<and> clock w \<le> clock (CloseDb sr db w)"
    and slept: "handles (SleepSeconds sr n w) = handles w \<and> clock w + n \<le> clock (SleepSeconds sr n w)"
begin

lemma round_failed:
  assumes "connect_attempt sr c s = (False, s')"
  shows "clock (sv_world s) < up \<and> clock (sv_world s) + 1 \<le> clock (sv_world s') \<and>
    handles (sv_world s') = handles (sv_world s)"
proof (cases "SqlOpen sr ''postgres'' c (sv_world s)")
  case (Pair r w)
  show ?thesis
  proof (cases r)
    case (Inl e)
    with assms Pair have "s' = \<lparr>sv_db = None, sv_world = SleepSeconds sr 1 w\<rparr>" by (simp add: connect_attempt_def)
    with not_opened [OF Pair [unfolded Inl]] slept [of 1 w] show ?thesis by simp
  next
    case (Inr db)
    obtain r2 w2 where ping: "PingDb sr db w = (r2, w2)" by fastforce
    with assms Pair Inr obtain e where "r2 = Some e"
      and s': "s' = \<lparr>sv_db = Some db, sv_world = SleepSeconds sr 1 (CloseDb sr db w2)\<rparr>"
      by (cases r2) (simp_all add: connect_attempt_def)
    with opened [OF Pair [unfolded Inr]] pinged [OF ping] closed [of db w2] slept [of 1 "CloseDb sr db w2"]
    show ?thesis by simp
  qed
qed

lemma round_connected:
  assumes "connect_attempt sr c s = (True, s')"
  shows "handles (sv_world s') = Suc (handles (sv_world s))"
proof (cases "SqlOpen sr ''postgres'' c (sv_world s)")
  case (Pair r w)
  with assms obtain db where r: "r = Inr db" by (cases r) (simp_all add: connect_attempt_def)
  obtain r2 w2 where ping: "PingDb sr db w = (r2, w2)" by fastforce
  with assms Pair r have "s' = \<lparr>sv_db = Some db, sv_world = w2\<rparr>"
    by (cases r2) (simp_all add: connect_attempt_def)
  with opened [OF Pair [unfolded r]] pinged [OF ping] show ?thesis by simp
qed

text \<open>Every failed round brings the time at which the database is up a second closer.\<close>

lemma rounds_end:
  "\<exists>n s1 s'. n \<le> nat (up - clock (sv_world s)) \<and> after_failures sr c n s = Some s1 \<and>
     connect_attempt sr c s1 = (True, s') \<and> handles (sv_world s1) = handles (sv_world s)"
proof (induction "nat (up - clock (sv_world s))" arbitrary: s rule: less_induct)
  case less
  obtain b s' where round: "connect_attempt sr c s = (b, s')" by fastforce
  show ?case
  proof (cases b)
    case True
    with round show ?thesis by (intro exI [of _ 0] exI [of _ s] exI [of _ s']) simp
  next
    case False
    with round have "connect_attempt sr c s = (False, s')" by simp
    note failed = round_failed [OF this]
    then have "nat (up - clock (sv_world s')) < nat (up - clock (sv_world s))" by simp
    from less [OF this] obtain n s1 s2 where ih: "n \<le> nat (up - clock (sv_world s'))"
      "after_failures sr c n s' = Some s1" "connect_attempt sr c s1 = (True, s2)"
      "handles (sv_world s1) = handles (sv_world s')" by blast
    have "Suc n \<le> nat (up - clock (sv_world s))" using ih(1) failed by linarith
    moreover from ih(2) round False have "after_failures sr c (Suc n) s = Some s1" by simp
    ultimately show ?thesis using ih(3,4) failed by metis
  qed
qed

end

section \<open>Properties\<close>

text \<open>The connection loop returns exactly when some round succeeds: it returns the state of the first
  round in which opening and pinging the database both work.\<close>

lemma connection_loop_returns:
  "connect_loop sr c s = Some s' \<longleftrightarrow>
     (\<exists>n s1. after_failures sr c n s = Some s1 \<and> connect_attempt sr c s1 = (True, s'))"
  using connect_loop_complete connect_loop_sound by metis

text \<open>C19: with a complete environment, the service connects to a database that comes up: the loop returns
  after at most as many failed rounds as there are seconds until then, with a handle that was just
  pinged successfully, and with exactly one more handle open than before, since every failed round closes the one it
  opened. A missing port is taken as 5432.\<close>

theorem service_connects:
  assumes "db_driver sr clock handles up"
    and "'''' \<notin> Getenv sr ` {''DB_HOST'', ''DB_USERNAME'', ''DB_PASSWORD'', ''DB_NAME''}"
  shows "\<exists>s' db w n s1. connectToDatabase sr s = Some (Inr (), s') \<and>
    sv_db s' = Some db \<and> PingDb sr db w = (None, sv_world s') \<and>
    handles (sv_world s') = Suc (handles (sv_world s)) \<and>
    n \<le> nat (up - clock (sv_world s)) \<and>
    (let c = conn_str (Getenv sr ''DB_HOST'') (if Getenv sr ''DB_PORT'' = '''' then ''5432'' else Getenv sr ''DB_PORT'')
           (Getenv sr ''DB_USERNAME'') (Getenv sr ''DB_PASSWORD'') (Getenv sr ''DB_NAME'')
     in after_failures sr c n s = Some s1 \<and> connect_attempt sr c s1 = (True, s'))"
proof -
  define c where "c = conn_str (Getenv sr ''DB_HOST'')
    (if Getenv sr ''DB_PORT'' = '''' then ''5432'' else Getenv sr ''DB_PORT'')
    (Getenv sr ''DB_USERNAME'') (Getenv sr ''DB_PASSWORD'') (Getenv sr ''DB_NAME'')"
  from db_driver.rounds_end [OF assms(1)] obtain n s1 s' where loop: "n \<le> nat (up - clock (sv_world s))"
    "after_failures sr c n s = Some s1" "connect_attempt sr c s1 = (True, s')"
    "handles (sv_world s1) = handles (sv_world s)" by blast
  have "connect_loop sr c s = Some s'" using loop(2,3) by (rule connect_loop_complete)
  with assms(2) have run: "connectToDatabase sr s = Some (Inr (), s')"
    unfolding connectToDatabase_def Let_def c_def by auto
  from attempt_connected [OF loop(3)] obtain db w where "sv_db s' = Some db" "PingDb sr db w = (None, sv_world s')"
    by blast
  with run loop db_driver.round_connected [OF assms(1) loop(3)] show ?thesis
    unfolding Let_def c_def [symmetric] by (metis (no_types))
qed

text \<open>A missing host, user, password or database name ends the service before it touches the
  database; a missing port does not.\<close>

theorem missing_environment_fatal:
  assumes "'''' \<in> Getenv sr ` {''DB_HOST'', ''DB_USERNAME'', ''DB_PASSWORD'', ''DB_NAME''}"
  shows "service_main sr w =
    Some (''Missing required database environment variables'', \<lparr>sv_db = None, sv_world = w\<rparr>)"
  using assms by (auto simp: service_main_def connectToDatabase_def Let_def)

text \<open>C20: when connecting succeeds, the handle that the health handler will use is set, and its last
  ping succeeded; so the handler's answer for a missing handle is never given by a running service.\<close>

theorem serves_only_connected:
  assumes "connectToDatabase sr s = Some (Inr u, s')"
  shows "\<exists>db w. sv_db s' = Some db \<and> PingDb sr db w = (None, sv_world s') \<and>
    Body (fst (healthHandler sr s')) \<noteq> ''Database not connected''"
proof -
  from assms obtain c where "connect_loop sr c s = Some s'"
    by (auto simp: connectToDatabase_def Let_def split: if_splits)
  from connect_loop_sound [OF this] attempt_connected obtain db w
    where db: "sv_db s' = Some db" and ping: "PingDb sr db w = (None, sv_world s')" by metis
  have "Body (fst (healthHandler sr s')) \<noteq> ''Database not connected''"
    by (simp add: healthHandler_def db split: prod.split option.split)
  with db ping show ?thesis by blast
qed

text \<open>C21: the credentials that the operator stores for a tenant are a complete environment for the service
  it deploys: with the keys of a fresh secret as variables, the service does not stop for a missing
  one but connects to the tenant's instance, as the tenant's user, with the generated password.\<close>

theorem operator_credentials_suffice:
  assumes "cluster_client rt view" and "createTenantPostgreSQLSecret rt t svc ns w = (Ok creds, w')"
    and "cl_secrets (view w) (''tenant-'' @ uid_of t, ''database-secret'') = None"
    and "cl_secrets (view w') (''tenant-'' @ uid_of t, ''database-secret'') = Some secret"
    and "\<forall>k. Getenv sr k = secret_value secret k"
  shows "\<exists>pw. length pw = 24 \<and> set pw \<subseteq> set password_charset \<and>
    connectToDatabase sr s = map_option (\<lambda>s'. (Inr (), s'))
      (connect_loop sr (conn_str (svc @ ''.'' @ ns @ ''.svc.cluster.local'') ''5432''
         (''tenant_'' @ take 8 (uid_of t)) pw (''tenant_'' @ take 8 (uid_of t))) s)"
proof -
  from cluster_client.tenant_secret_Ok [OF assms(1,2)] assms(3) obtain u v
    where fresh: "fresh_credentials t svc ns creds"
      and w': "view w' = cl_secrets_update (\<lambda>m. m((''tenant-'' @ uid_of t, ''database-secret'') \<mapsto>
        with_server_fields u v (tenant_secret_object t creds))) (view w)" by auto
  have "secret = with_server_fields u v (tenant_secret_object t creds)"
    using assms(4) unfolding w' by simp
  then have env: "Getenv sr ''DB_HOST'' = CredHost creds" "Getenv sr ''DB_PORT'' = CredPort creds"
    "Getenv sr ''DB_NAME'' = CredDatabase creds" "Getenv sr ''DB_USERNAME'' = CredUsername creds"
    "Getenv sr ''DB_PASSWORD'' = CredPassword creds"
    using assms(5) by (simp_all add: secret_value_def tenant_secret_object_def gm_lookup_def)
  have "CredPassword creds \<noteq> ''''" using fresh by (auto simp: fresh_credentials_def)
  then have "connectToDatabase sr s = map_option (\<lambda>s'. (Inr (), s'))
      (connect_loop sr (conn_str (svc @ ''.'' @ ns @ ''.svc.cluster.local'') ''5432''
         (''tenant_'' @ take 8 (uid_of t)) (CredPassword creds) (''tenant_'' @ take 8 (uid_of t))) s)"
    using fresh unfolding connectToDatabase_def Let_def env by (simp add: fresh_credentials_def)
  with fresh show ?thesis unfolding fresh_credentials_def by blast
qed

section \<open>Witnesses\<close>

text \<open>A database that answers from the third second on; the world is the clock and the open handles.\<close>

definition patient_service :: "(string \<Rightarrow> string) \<Rightarrow> (int \<times> nat, string) service_runtime" where
  "patient_service env = \<lparr>Getenv = env, SqlOpen = (\<lambda>driver c (t, h). (Inr c, (t, Suc h))),
     PingDb = (\<lambda>db (t, h). (if t < 3 then Some (ErrorString ''connection refused'') else None, (t, h))),
     CloseDb = (\<lambda>db (t, h). (t, h - 1)), SleepSeconds = (\<lambda>n (t, h). (t + n, h)),
     ListenAndServe = (\<lambda>addr routes s. Some (''address in use'', s))\<rparr>"

interpretation patient: db_driver "patient_service env" fst snd 3 for env
  by unfold_locales (auto simp: patient_service_def split: prod.splits if_splits)

theorem missing_environment_fatal_witness:
  "service_main (patient_service (\<lambda>k. if k = ''DB_HOST'' then ''db'' else '''')) (0, 0) =
    Some (''Missing required database environment variables'', \<lparr>sv_db = None, sv_world = (0, 0)\<rparr>)"
  by (rule missing_environment_fatal) (simp add: patient_service_def)

lemma patient_connects:
  "connectToDatabase (patient_service (\<lambda>k. ''x'')) \<lparr>sv_db = None, sv_world = (0, 0)\<rparr> =
    Some (Inr (), \<lparr>sv_db = Some (conn_str ''x'' ''x'' ''x'' ''x'' ''x''), sv_world = (3, 1)\<rparr>)"
  by (simp add: connectToDatabase_def Let_def connect_loop_unfold connect_attempt_def patient_service_def)

theorem serves_only_connected_witness:
  "\<exists>db w. PingDb (patient_service (\<lambda>k. ''x'')) db w = (None, (3, 1))"
  using serves_only_connected [OF patient_connects] by auto

theorem service_connects_witness:
  "\<exists>s' n s1. connectToDatabase (patient_service (\<lambda>k. ''x'')) \<lparr>sv_db = None, sv_world = (0, 0)\<rparr> = Some (Inr (), s') \<and>
    snd (sv_world s') = 1 \<and> n \<le> 3 \<and>
    after_failures (patient_service (\<lambda>k. ''x'')) (conn_str ''x'' ''x'' ''x'' ''x'' ''x'') n
      \<lparr>sv_db = None, sv_world = (0, 0)\<rparr> = Some s1"
proof -
  let ?sr = "patient_service (\<lambda>k. ''x'')"
  have env: "'''' \<notin> Getenv ?sr ` {''DB_HOST'', ''DB_USERNAME'', ''DB_PASSWORD'', ''DB_NAME''}"
    "Getenv ?sr = (\<lambda>k. ''x'')" by (simp_all add: patient_service_def)
  from service_connects [OF patient.db_driver_axioms env(1), of "\<lparr>sv_db = None, sv_world = (0, 0)\<rparr>"]
  show ?thesis unfolding env(2) Let_def by auto
qed

theorem operator_credentials_suffice_witness:
  "\<exists>secret pw. length pw = 24 \<and> set pw \<subseteq> set password_charset \<and>
    connectToDatabase (patient_service (secret_value secret)) \<lparr>sv_db = None, sv_world = (0, 0)\<rparr> =
      map_option (\<lambda>s'. (Inr (), s'))
        (connect_loop (patient_service (secret_value secret))
          (conn_str (''postgresql-abcdef'' @ ''.'' @ ''shared-services'' @ ''.svc.cluster.local'') ''5432''
            (''tenant_'' @ take 8 (uid_of (sample_tenant False))) pw (''tenant_'' @ take 8 (uid_of (sample_tenant False))))
          \<lparr>sv_db = None, sv_world = (0, 0)\<rparr>)"
proof -
  let ?run = "createTenantPostgreSQLSecret mem_runtime (sample_tenant False) ''postgresql-abcdef'' ''shared-services'' empty_world"
  let ?k = "(''tenant-'' @ uid_of (sample_tenant False), ''database-secret'')"
  have ok: "case fst ?run of Ok c \<Rightarrow> True | _ \<Rightarrow> False" by code_simp
  then obtain creds where run: "?run = (Ok creds, snd ?run)" by (cases "fst ?run"; cases ?run) auto
  have none: "cl_secrets (mem_view empty_world) ?k = None"
    by (simp add: mem_view_def empty_world_def stored_def)
  have "stored (w_secrets (snd ?run)) ?k \<noteq> None" by code_simp
  then obtain secret where "cl_secrets (mem_view (snd ?run)) ?k = Some secret"
    by (auto simp: mem_view_def)
  note stored = this
  have env: "\<forall>k. Getenv (patient_service (secret_value secret)) k = secret_value secret k"
    by (simp add: patient_service_def)
  from operator_credentials_suffice [OF mem_client, OF run none stored env]
  obtain pw where "length pw = 24 \<and> set pw \<subseteq> set password_charset \<and>
    connectToDatabase (patient_service (secret_value secret)) \<lparr>sv_db = None, sv_world = (0, 0)\<rparr> =
      map_option (\<lambda>s'. (Inr (), s'))
        (connect_loop (patient_service (secret_value secret))
          (conn_str (''postgresql-abcdef'' @ ''.'' @ ''shared-services'' @ ''.svc.cluster.local'') ''5432''
            (''tenant_'' @ take 8 (uid_of (sample_tenant False))) pw (''tenant_'' @ take 8 (uid_of (sample_tenant False))))
          \<lparr>sv_db = None, sv_world = (0, 0)\<rparr>)" using env by blast
  then show ?thesis by blast
qed

end
