(* ===== verification/Flags.thy ===== *)
theory Flags
  imports GoLib
begin

text \<open>
  The command line of the operator (\<open>cmd/main.go\<close>): the flags it declares with their defaults, and
  \<open>flag.Parse\<close> of the standard library on them. The flags that zap and controller-runtime add to
  the same set are the parameter \<open>extra\<close>: for a name, the kind of the flag and the values it accepts.
\<close>

section \<open>The flags\<close>

record manager_flags =
  metricsAddr :: string
  probeAddr :: string
  enableLeaderElection :: bool
  secureMetrics :: bool
  webhookCertPath :: string
  webhookCertName :: string
  webhookCertKey :: string
  metricsCertPath :: string
  metricsCertName :: string
  metricsCertKey :: string
  enableHTTP2 :: bool

definition default_flags :: manager_flags where
  "default_flags = \<lparr>metricsAddr = ''0'', probeAddr = '':8081'', enableLeaderElection = False,
     secureMetrics = True, webhookCertPath = '''', webhookCertName = ''tls.crt'',
     webhookCertKey = ''tls.key'', metricsCertPath = '''', metricsCertName = ''tls.crt'',
     metricsCertKey = ''tls.key'', enableHTTP2 = False\<rparr>"

datatype flag_kind = StringKind | BoolKind

type_synonym extra_flags = "string \<Rightarrow> (flag_kind \<times> (string \<Rightarrow> bool)) option"

definition strconv_ParseBool :: "string \<Rightarrow> bool option" where
  "strconv_ParseBool s =
     (if s \<in> {''1'', ''t'', ''T'', ''true'', ''TRUE'', ''True''} then Some True
      else if s \<in> {''0'', ''f'', ''F'', ''false'', ''FALSE'', ''False''} then Some False
      else None)"

text \<open>What the variables of \<open>StringVar\<close> and \<open>BoolVar\<close> are set to; \<open>None\<close> for a name not declared here.\<close>

definition string_flag :: "string \<Rightarrow> ((string \<Rightarrow> string) \<Rightarrow> manager_flags \<Rightarrow> manager_flags) option" where
  "string_flag name = map_of
     [(''metrics-bind-address'', metricsAddr_update), (''health-probe-bind-address'', probeAddr_update),
      (''webhook-cert-path'', webhookCertPath_update), (''webhook-cert-name'', webhookCertName_update),
      (''webhook-cert-key'', webhookCertKey_update), (''metrics-cert-path'', metricsCertPath_update),
      (''metrics-cert-name'', metricsCertName_update), (''metrics-cert-key'', metricsCertKey_update)] name"

definition bool_flag :: "string \<Rightarrow> ((bool \<Rightarrow> bool) \<Rightarrow> manager_flags \<Rightarrow> manager_flags) option" where
  "bool_flag name = map_of
     [(''leader-elect'', enableLeaderElection_update), (''metrics-secure'', secureMetrics_update),
      (''enable-http2'', enableHTTP2_update)] name"

definition kind_of_flag :: "extra_flags \<Rightarrow> string \<Rightarrow> flag_kind option" where
  "kind_of_flag extra name =
     (if string_flag name \<noteq> None then Some StringKind
      else if bool_flag name \<noteq> None then Some BoolKind
      else map_option fst (extra name))"

definition set_flag :: "extra_flags \<Rightarrow> string \<Rightarrow> string \<Rightarrow> manager_flags \<Rightarrow> manager_flags option" where
  "set_flag extra name value fs =
     (case string_flag name of
        Some upd \<Rightarrow> Some (upd (\<lambda>_. value) fs)
      | None \<Rightarrow>
          (case bool_flag name of
             Some upd \<Rightarrow> map_option (\<lambda>b. upd (\<lambda>_. b) fs) (strconv_ParseBool value)
           | None \<Rightarrow> (case extra name of
                 Some (_, accepts) \<Rightarrow> if accepts value then Some fs else None
               | None \<Rightarrow> None)))"

section \<open>\<open>flag.Parse\<close>\<close>

datatype flag_error = ErrHelp | FlagError string

text \<open>\<open>name=value\<close> at the first equals sign.\<close>

definition split_assignment :: "string \<Rightarrow> string \<times> string option" where
  "split_assignment s =
     (let name = takeWhile (\<lambda>c. c \<noteq> CHR ''='') s
      in (name, if CHR ''='' \<in> set s then Some (drop (Suc (length name)) s) else None))"

definition flag_text :: "string \<Rightarrow> string" where
  "flag_text s = (if take 2 s = ''--'' then drop 2 s else drop 1 s)"

fun parse_flags :: "extra_flags \<Rightarrow> string list \<Rightarrow> manager_flags \<Rightarrow> flag_error + manager_flags" where
  "parse_flags extra [] fs = Inr fs"
| "parse_flags extra (s # args) fs =
     (if length s < 2 \<or> take 1 s \<noteq> ''-'' \<or> s = ''--'' then Inr fs
      else if flag_text s = '''' \<or> take 1 (flag_text s) = ''-'' \<or> take 1 (flag_text s) = ''=''
      then Inl (FlagError (''bad flag syntax: '' @ s))
      else
        let (name, value) = split_assignment (flag_text s)
        in (case kind_of_flag extra name of
              None \<Rightarrow>
                if name = ''help'' \<or> name = ''h'' then Inl ErrHelp
                else Inl (FlagError (''flag provided but not defined: -'' @ name))
            | Some BoolKind \<Rightarrow>
                (case set_flag extra name (case value of None \<Rightarrow> ''true'' | Some v \<Rightarrow> v) fs of
                   None \<Rightarrow> Inl (FlagError (''invalid boolean value for -'' @ name))
                 | Some fs' \<Rightarrow> parse_flags extra args fs')
            | Some StringKind \<Rightarrow>
                (case (value, args) of
                   (Some v, _) \<Rightarrow>
                     (case set_flag extra name v fs of
                        None \<Rightarrow> Inl (FlagError (''invalid value for flag -'' @ name))
                      | Some fs' \<Rightarrow> parse_flags extra args fs')
                 | (None, v # rest) \<Rightarrow>
                     (case set_flag extra name v fs of
                        None \<Rightarrow> Inl (FlagError (''invalid value for flag -'' @ name))
                      | Some fs' \<Rightarrow> parse_flags extra rest fs')
                 | (None, []) \<Rightarrow> Inl (FlagError (''flag needs an argument: -'' @ name)))))"

text \<open>\<open>flag.CommandLine\<close> is made with \<open>ExitOnError\<close>: the status with which the process ends.\<close>

fun parse_exit :: "flag_error \<Rightarrow> int" where
  "parse_exit ErrHelp = 0"
| "parse_exit (FlagError s) = 2"

section \<open>One flag\<close>

lemma assignment_split [simp]: "CHR ''='' \<notin> set n \<Longrightarrow> split_assignment (n @ CHR ''='' # v) = (n, Some v)"
  by (simp add: split_assignment_def Let_def takeWhile_append)

text \<open>A name that \<open>--name=value\<close> can carry.\<close>

definition flag_name :: "string \<Rightarrow> bool" where
  "flag_name n \<longleftrightarrow> n \<noteq> '''' \<and> CHR ''='' \<notin> set n \<and> hd n \<noteq> CHR ''-''"

definition flag_arg :: "string \<Rightarrow> string \<Rightarrow> string" where
  "flag_arg n v = ''--'' @ n @ CHR ''='' # v"

lemma flag_arg_simps [simp]:
  "flag_text (flag_arg n v) = n @ CHR ''='' # v" "take 1 (flag_arg n v) = ''-''"
  "flag_name n \<Longrightarrow> \<not> length (flag_arg n v) < 2" "flag_name n \<Longrightarrow> flag_arg n v \<noteq> ''--''"
  by (simp_all add: flag_arg_def flag_text_def)

lemma flag_name_start [simp]:
  assumes "flag_name n"
  shows "n @ s \<noteq> ''''" "take 1 (n @ s) \<noteq> ''-''" "take 1 (n @ s) \<noteq> ''=''"
proof -
  obtain c m where "n = c # m" "c \<noteq> CHR ''-''" "c \<noteq> CHR ''=''"
    using assms by (cases n) (auto simp: flag_name_def)
  then show "n @ s \<noteq> ''''" "take 1 (n @ s) \<noteq> ''-''" "take 1 (n @ s) \<noteq> ''=''"
    by simp_all
qed

lemma parse_arg:
  assumes "flag_name n" and "kind_of_flag extra n = Some k" and "set_flag extra n v fs = Some fs'"
  shows "parse_flags extra (flag_arg n v # args) fs = parse_flags extra args fs'"
proof -
  have "CHR ''='' \<notin> set n" using assms(1) by (simp add: flag_name_def)
  with assms show ?thesis by (cases k) (simp_all del: One_nat_def take_append)
qed

lemma ParseBool_literal [simp]: "strconv_ParseBool (if b then ''true'' else ''false'') = Some b"
  by (simp add: strconv_ParseBool_def)

text \<open>What setting a flag of another name leaves alone.\<close>

lemma string_flag_frame:
  assumes "string_flag n = Some upd"
  shows "enableHTTP2 (upd f fs) = enableHTTP2 fs" "secureMetrics (upd f fs) = secureMetrics fs"
    "enableLeaderElection (upd f fs) = enableLeaderElection fs"
  using map_of_SomeD [OF assms [unfolded string_flag_def]] by auto

lemma bool_flag_frame:
  assumes "bool_flag n = Some upd"
  shows "n \<noteq> ''enable-http2'' \<Longrightarrow> enableHTTP2 (upd f fs) = enableHTTP2 fs"
    and "n \<noteq> ''metrics-secure'' \<Longrightarrow> secureMetrics (upd f fs) = secureMetrics fs"
    and "n \<noteq> ''leader-elect'' \<Longrightarrow> enableLeaderElection (upd f fs) = enableLeaderElection fs"
proof -
  from map_of_SomeD [OF assms [unfolded bool_flag_def]]
  consider "upd = enableLeaderElection_update" "n = ''leader-elect''"
    | "upd = secureMetrics_update" "n = ''metrics-secure''" | "upd = enableHTTP2_update" "n = ''enable-http2''"
    by (simp only: list.set insert_iff empty_iff prod.inject) blast
  note upd = this
  show "enableHTTP2 (upd f fs) = enableHTTP2 fs" if "n \<noteq> ''enable-http2''"
    using upd by cases (use that in simp_all)
  show "secureMetrics (upd f fs) = secureMetrics fs" if "n \<noteq> ''metrics-secure''"
    using upd by cases (use that in simp_all)
  show "enableLeaderElection (upd f fs) = enableLeaderElection fs" if "n \<noteq> ''leader-elect''"
    using upd by cases (use that in simp_all)
qed

lemma set_flag_frame:
  assumes "set_flag extra n v fs = Some fs'"
  shows "n \<noteq> ''enable-http2'' \<Longrightarrow> enableHTTP2 fs' = enableHTTP2 fs"
    and "n \<noteq> ''metrics-secure'' \<Longrightarrow> secureMetrics fs' = secureMetrics fs"
    and "n \<noteq> ''leader-elect'' \<Longrightarrow> enableLeaderElection fs' = enableLeaderElection fs"
  using assms string_flag_frame bool_flag_frame
  by (auto simp: set_flag_def split: if_splits option.splits)

section \<open>The command line\<close>

text \<open>Some argument names the flag.\<close>

definition mentions :: "string list \<Rightarrow> string \<Rightarrow> bool" where
  "mentions args n \<longleftrightarrow> (\<exists>s \<in> set args. fst (split_assignment (flag_text s)) = n)"

lemma parse_one:
  assumes "parse_flags extra (s # args) fs = Inr fs'"
  obtains "fs' = fs"
  | v fs1 rest where "set_flag extra (fst (split_assignment (flag_text s))) v fs = Some fs1"
    and "parse_flags extra rest fs1 = Inr fs'" and "set rest \<subseteq> set args" and "length rest \<le> length args"
proof -
  obtain n o' where split: "split_assignment (flag_text s) = (n, o')" by fastforce
  from assms split consider "fs' = fs"
    | v fs1 where "set_flag extra n v fs = Some fs1" "parse_flags extra args fs1 = Inr fs'"
    | a v rest fs1 where "args = a # rest" "set_flag extra n v fs = Some fs1" "parse_flags extra rest fs1 = Inr fs'"
    unfolding parse_flags.simps split Let_def prod.case
    by (simp only: sum.distinct sum.inject simp_thms split: if_split_asm;
        simp only: option.case sum.distinct sum.inject prod.case flag_kind.case simp_thms
          split: option.split_asm flag_kind.split_asm list.split_asm if_split_asm; blast)
  then show thesis
  proof cases
    case 2
    with split show ?thesis by (intro that(2) [of _ fs1 args]) simp_all
  next
    case 3
    with split show ?thesis by (intro that(2) [of _ fs1 rest]) auto
  qed (rule that(1))
qed

lemma parse_frame:
  assumes "parse_flags extra args fs = Inr fs'"
    and "\<And>m v fs1 fs2. \<lbrakk>set_flag extra m v fs1 = Some fs2; m \<noteq> n\<rbrakk> \<Longrightarrow> get fs2 = get fs1"
    and "\<not> mentions args n"
  shows "get fs' = get fs"
  using assms(1,3)
proof (induction args arbitrary: fs rule: length_induct)
  case (1 args)
  show ?case
  proof (cases args)
    case Nil
    with 1 show ?thesis by simp
  next
    case (Cons s rest)
    from "1.prems"(1) [unfolded Cons] show ?thesis
    proof (cases rule: parse_one)
      case (2 v fs1 more)
      from "1.prems"(2) Cons have other: "fst (split_assignment (flag_text s)) \<noteq> n" by (auto simp: mentions_def)
      have "\<not> mentions more n" using "1.prems"(2) Cons 2(3) by (auto simp: mentions_def)
      with 2 Cons "1.IH" have "get fs' = get fs1" by (metis length_Cons less_Suc_eq_le)
      with assms(2) [OF 2(1) other] show ?thesis by simp
    qed simp
  qed
qed

section \<open>Properties\<close>

text \<open>The arguments that spell a configuration out.\<close>

definition render_flags :: "manager_flags \<Rightarrow> string list" where
  "render_flags fs =
     [flag_arg ''metrics-bind-address'' (metricsAddr fs), flag_arg ''health-probe-bind-address'' (probeAddr fs),
      flag_arg ''leader-elect'' (if enableLeaderElection fs then ''true'' else ''false''),
      flag_arg ''metrics-secure'' (if secureMetrics fs then ''true'' else ''false''),
      flag_arg ''webhook-cert-path'' (webhookCertPath fs), flag_arg ''webhook-cert-name'' (webhookCertName fs),
      flag_arg ''webhook-cert-key'' (webhookCertKey fs), flag_arg ''metrics-cert-path'' (metricsCertPath fs),
      flag_arg ''metrics-cert-name'' (metricsCertName fs), flag_arg ''metrics-cert-key'' (metricsCertKey fs),
      flag_arg ''enable-http2'' (if enableHTTP2 fs then ''true'' else ''false'')]"

lemma parse_string_arg:
  assumes "string_flag n = Some upd" and "flag_name n"
  shows "parse_flags extra (flag_arg n v # args) fs = parse_flags extra args (upd (\<lambda>_. v) fs)"
  using assms by (intro parse_arg [where k = StringKind]) (simp_all add: kind_of_flag_def set_flag_def)

lemma parse_bool_arg:
  assumes "bool_flag n = Some upd" and "string_flag n = None" and "flag_name n"
  shows "parse_flags extra (flag_arg n (if b then ''true'' else ''false'') # args) fs =
    parse_flags extra args (upd (\<lambda>_. b) fs)"
  using assms by (intro parse_arg [where k = BoolKind]) (simp_all add: kind_of_flag_def set_flag_def)

text \<open>Every configuration can be given on the command line: parsing the arguments that spell it out
  gives it back, whatever the flags were set to before.\<close>

theorem flags_roundtrip: "parse_flags extra (render_flags fs) fs0 = Inr fs"
  unfolding render_flags_def
  by (simp add: parse_string_arg parse_bool_arg string_flag_def bool_flag_def flag_name_def
      del: parse_flags.simps(2))

text \<open>C24: the safe settings are the defaults: a command line that parses and leaves HTTP/2 on, the metrics
  without TLS, or leader election on names the flag that says so.\<close>

theorem safe_by_default:
  assumes "parse_flags extra args default_flags = Inr fs"
  shows "(enableHTTP2 fs \<longrightarrow> mentions args ''enable-http2'') \<and>
    (\<not> secureMetrics fs \<longrightarrow> mentions args ''metrics-secure'') \<and>
    (enableLeaderElection fs \<longrightarrow> mentions args ''leader-elect'')"
proof -
  have "\<not> mentions args ''enable-http2'' \<Longrightarrow> enableHTTP2 fs = enableHTTP2 default_flags"
    by (rule parse_frame [OF assms set_flag_frame(1)])
  moreover have "\<not> mentions args ''metrics-secure'' \<Longrightarrow> secureMetrics fs = secureMetrics default_flags"
    by (rule parse_frame [OF assms set_flag_frame(2)])
  moreover have "\<not> mentions args ''leader-elect'' \<Longrightarrow> enableLeaderElection fs = enableLeaderElection default_flags"
    by (rule parse_frame [OF assms set_flag_frame(3)])
  ultimately show ?thesis by (auto simp: default_flags_def)
qed

theorem safe_by_default_witness:
  "mentions [''-metrics-bind-address'', '':8443'', ''--enable-http2''] ''enable-http2''"
proof -
  let ?args = "[''-metrics-bind-address'', '':8443'', ''--enable-http2'']"
  have "parse_flags (\<lambda>_. None) ?args default_flags =
      Inr (default_flags\<lparr>metricsAddr := '':8443'', enableHTTP2 := True\<rparr>)"
    by code_simp
  from safe_by_default [OF this] show ?thesis by simp
qed

end
