(* ===== verification/Manager.thy ===== *)
theory Manager
  imports Flags Controller Samples
begin

text \<open>
  The entry point of the operator (\<open>main\<close> of \<open>cmd/main.go\<close>) and the registration of the reconciler
  (\<open>SetupWithManager\<close>): flags, TLS options, certificate watchers, the manager and what is added to it
  before it starts. The manager, the certificate watchers and the loading of the configuration are
  parameters; they have a world of their own (\<open>'m\<close>), the reconciler that is handed to the manager has the
  world of its client (\<open>'w\<close>). The slices of TLS options are kept with their backing arrays, because \<open>webhookTLSOpts\<close>
  and the options of the metrics server start as the same slice and are both appended to.
\<close>

section \<open>Paths\<close>

text \<open>\<open>filepath.Clean\<close> on the pieces between slashes, the last one first.\<close>

definition clean_step :: "bool \<Rightarrow> string \<Rightarrow> string list \<Rightarrow> string list" where
  "clean_step rooted c out =
     (if c = '''' \<or> c = ''.'' then out
      else if c = ''..'' then
        (case out of
           [] \<Rightarrow> if rooted then [] else [c]
         | p # rest \<Rightarrow> if p = ''..'' then c # out else rest)
      else c # out)"

definition filepath_Clean :: "string \<Rightarrow> string" where
  "filepath_Clean s =
     (let rooted = strings_HasPrefix s ''/'';
          body = strings_Join (rev (fold (clean_step rooted) (strings_Split CHR ''/'' s) [])) CHR ''/''
      in if rooted then CHR ''/'' # body else if body = '''' then ''.'' else body)"

definition filepath_Join :: "string \<Rightarrow> string \<Rightarrow> string" where
  "filepath_Join a b =
     (if a \<noteq> '''' then filepath_Clean (a @ CHR ''/'' # b)
      else if b \<noteq> '''' then filepath_Clean b else '''')"

section \<open>Slices\<close>

record slice =
  Backing :: nat
  Len :: nat
  Cap :: nat

text \<open>The arrays, by their number; unset cells hold \<open>None\<close>.\<close>

type_synonym 'a arrays = "'a option list list"

definition nil_slice :: slice where
  "nil_slice = \<lparr>Backing = 0, Len = 0, Cap = 0\<rparr>"

definition elements :: "'a arrays \<Rightarrow> slice \<Rightarrow> 'a list" where
  "elements h s = (if Len s = 0 then [] else map the (take (Len s) (h ! Backing s)))"

text \<open>\<open>append\<close> writes into the backing array while there is capacity, and else into a new array whose
  capacity the runtime chooses: \<open>grow\<close> of the old capacity and the length needed.\<close>

definition go_append :: "(nat \<Rightarrow> nat \<Rightarrow> nat) \<Rightarrow> slice \<Rightarrow> 'a \<Rightarrow> 'a arrays \<Rightarrow> slice \<times> 'a arrays" where
  "go_append grow s x h =
     (if Len s < Cap s
      then (s\<lparr>Len := Len s + 1\<rparr>, h[Backing s := (h ! Backing s)[Len s := Some x]])
      else
        let cap = grow (Cap s) (Len s + 1)
        in (\<lparr>Backing = length h, Len = Len s + 1, Cap = cap\<rparr>,
            h @ [map Some (elements h s) @ [Some x] @ replicate (cap - (Len s + 1)) None]))"

section \<open>TLS options\<close>

record 'cw tls_config =
  NextProtos :: "string list"
  GetCertificate :: "'cw option"

type_synonym 'cw tls_option = "'cw tls_config \<Rightarrow> 'cw tls_config"

definition disableHTTP2 :: "'cw tls_option" where
  "disableHTTP2 c = c\<lparr>NextProtos := [''http/1.1'']\<rparr>"

text \<open>The closures that set \<open>GetCertificate\<close> to the method of a certificate watcher.\<close>

definition use_certificates :: "'cw \<Rightarrow> 'cw tls_option" where
  "use_certificates cw c = c\<lparr>GetCertificate := Some cw\<rparr>"

section \<open>The manager\<close>

text \<open>\<open>os.Exit\<close> ends the process with a status.\<close>

datatype 'a exec = Running 'a | Exited int

record metrics_options =
  BindAddress :: string
  SecureServing :: bool
  MetricsTLSOpts :: slice
  FilterProvider :: "string option"

record manager_options =
  Metrics :: metrics_options
  WebhookTLSOpts :: slice
  HealthProbeBindAddress :: string
  LeaderElection :: bool
  LeaderElectionID :: string

datatype ('w, 'cw) runnable = StartupRunner "('w, unit) prog" | CertRunner 'cw

record 'w controller =
  ForKind :: string
  WatchPods :: "pod option \<Rightarrow> ('w, request list) prog"
  ControllerName :: string
  Reconciler :: "request \<Rightarrow> ('w, outcome) prog"

record ('m, 'w, 'q, 'cw, 'cfg, 'mgr) manager_runtime =
  ExtraFlags :: extra_flags
  NextCap :: "nat \<Rightarrow> nat \<Rightarrow> nat"
  CertWatcherNew :: "string \<Rightarrow> string \<Rightarrow> 'm \<Rightarrow> (go_error + 'cw) \<times> 'm"
  GetConfig :: "'m \<Rightarrow> (go_error + 'cfg) \<times> 'm"
  NewManager :: "'cfg \<Rightarrow> manager_options \<Rightarrow> 'cw tls_option arrays \<Rightarrow> 'm \<Rightarrow> (go_error + 'mgr) \<times> 'm"
  GetClient :: "'mgr \<Rightarrow> ('w, 'q) runtime"
  MgrAdd :: "'mgr \<Rightarrow> ('w, 'cw) runnable \<Rightarrow> 'm \<Rightarrow> go_error option \<times> 'm"
  CompleteController :: "'mgr \<Rightarrow> 'w controller \<Rightarrow> 'm \<Rightarrow> go_error option \<times> 'm"
  AddHealthzCheck :: "'mgr \<Rightarrow> string \<Rightarrow> 'm \<Rightarrow> go_error option \<times> 'm"
  AddReadyzCheck :: "'mgr \<Rightarrow> string \<Rightarrow> 'm \<Rightarrow> go_error option \<times> 'm"
  MgrStart :: "'mgr \<Rightarrow> 'cw tls_option arrays \<Rightarrow> 'm \<Rightarrow> go_error option \<times> 'm"

text \<open>\<open>if err != nil { os.Exit(1) }\<close> after a call.\<close>

definition or_exit :: "('w \<Rightarrow> go_error option \<times> 'w) \<Rightarrow> ('w \<Rightarrow> 'b exec \<times> 'w) \<Rightarrow> 'w \<Rightarrow> 'b exec \<times> 'w" where
  "or_exit m k w = (case m w of (Some err, w') \<Rightarrow> (Exited 1, w') | (None, w') \<Rightarrow> k w')"

definition or_exit_with ::
  "('w \<Rightarrow> (go_error + 'a) \<times> 'w) \<Rightarrow> ('a \<Rightarrow> 'w \<Rightarrow> 'b exec \<times> 'w) \<Rightarrow> 'w \<Rightarrow> 'b exec \<times> 'w" where
  "or_exit_with m k w = (case m w of (Inl err, w') \<Rightarrow> (Exited 1, w') | (Inr x, w') \<Rightarrow> k x w')"

definition continue :: "('w \<Rightarrow> 'a exec \<times> 'w) \<Rightarrow> ('a \<Rightarrow> 'w \<Rightarrow> 'b exec \<times> 'w) \<Rightarrow> 'w \<Rightarrow> 'b exec \<times> 'w" where
  "continue m k w = (case m w of (Exited n, w') \<Rightarrow> (Exited n, w') | (Running x, w') \<Rightarrow> k x w')"

section \<open>\<open>SetupWithManager\<close>\<close>

definition tenant_controller :: "('w, 'q) runtime \<Rightarrow> 'w controller" where
  "tenant_controller rt = \<lparr>ForKind = ''TenantEnvironment'', WatchPods = podToTenantEnvironment rt,
     ControllerName = ''tenantenvironment'', Reconciler = Reconcile rt\<rparr>"

definition SetupWithManager ::
  "('m, 'w, 'q, 'cw, 'cfg, 'mgr) manager_runtime \<Rightarrow> 'mgr \<Rightarrow> 'm \<Rightarrow> go_error option \<times> 'm" where
  "SetupWithManager mrt mgr w =
     (case MgrAdd mrt mgr (StartupRunner (Start (GetClient mrt mgr))) w of
        (Some err, w') \<Rightarrow> (Some err, w')
      | (None, w') \<Rightarrow> CompleteController mrt mgr (tenant_controller (GetClient mrt mgr)) w')"

section \<open>\<open>main\<close>\<close>

text \<open>\<open>tlsOpts\<close> after the test of \<open>enableHTTP2\<close>, with the arrays.\<close>

definition initial_tls ::
  "('m, 'w, 'q, 'cw, 'cfg, 'mgr) manager_runtime \<Rightarrow> manager_flags \<Rightarrow> slice \<times> 'cw tls_option arrays" where
  "initial_tls mrt fs =
     (if \<not> enableHTTP2 fs then go_append (NextCap mrt) nil_slice disableHTTP2 [] else (nil_slice, []))"

text \<open>A certificate watcher, when a path is given, and the TLS options with it.\<close>

definition with_certificates ::
  "('m, 'w, 'q, 'cw, 'cfg, 'mgr) manager_runtime \<Rightarrow> string \<Rightarrow> string \<Rightarrow> string \<Rightarrow> slice \<Rightarrow>
     'cw tls_option arrays \<Rightarrow> 'm \<Rightarrow> ('cw option \<times> slice \<times> 'cw tls_option arrays) exec \<times> 'm" where
  "with_certificates mrt path name key opts h =
     (if length path > 0
      then or_exit_with (CertWatcherNew mrt (filepath_Join path name) (filepath_Join path key))
        (\<lambda>cw w. (Running (Some cw, go_append (NextCap mrt) opts (use_certificates cw) h), w))
      else (\<lambda>w. (Running (None, opts, h), w)))"

text \<open>Both servers: the watchers and options of the webhook server and of the metrics server.\<close>

definition tls_setup ::
  "('m, 'w, 'q, 'cw, 'cfg, 'mgr) manager_runtime \<Rightarrow> manager_flags \<Rightarrow> 'm \<Rightarrow>
     (('cw option \<times> slice) \<times> ('cw option \<times> slice) \<times> 'cw tls_option arrays) exec \<times> 'm" where
  "tls_setup mrt fs =
     (let (tlsOpts, h) = initial_tls mrt fs
      in continue (with_certificates mrt (webhookCertPath fs) (webhookCertName fs) (webhookCertKey fs) tlsOpts h)
           (\<lambda>(webhookCertWatcher, webhookTLSOpts, h).
         continue (with_certificates mrt (metricsCertPath fs) (metricsCertName fs) (metricsCertKey fs) tlsOpts h)
           (\<lambda>(metricsCertWatcher, metricsTLSOpts, h) w.
         (Running ((webhookCertWatcher, webhookTLSOpts), (metricsCertWatcher, metricsTLSOpts), h), w))))"

definition metrics_server_options :: "manager_flags \<Rightarrow> slice \<Rightarrow> metrics_options" where
  "metrics_server_options fs opts = \<lparr>BindAddress = metricsAddr fs, SecureServing = secureMetrics fs,
     MetricsTLSOpts = opts,
     FilterProvider = (if secureMetrics fs then Some ''WithAuthenticationAndAuthorization'' else None)\<rparr>"

definition options_of :: "manager_flags \<Rightarrow> slice \<Rightarrow> slice \<Rightarrow> manager_options" where
  "options_of fs webhook metrics = \<lparr>Metrics = metrics_server_options fs metrics, WebhookTLSOpts = webhook,
     HealthProbeBindAddress = probeAddr fs, LeaderElection = enableLeaderElection fs,
     LeaderElectionID = ''9167cea9.core.mellifluus.io''\<rparr>"

definition add_watcher ::
  "('m, 'w, 'q, 'cw, 'cfg, 'mgr) manager_runtime \<Rightarrow> 'mgr \<Rightarrow> 'cw option \<Rightarrow> 'm \<Rightarrow> go_error option \<times> 'm" where
  "add_watcher mrt mgr watcher w =
     (case watcher of None \<Rightarrow> (None, w) | Some cw \<Rightarrow> MgrAdd mrt mgr (CertRunner cw) w)"

text \<open>From the construction of the manager to its end: \<open>mgr.Start\<close> blocks until the manager stops.\<close>

definition run_manager ::
  "('m, 'w, 'q, 'cw, 'cfg, 'mgr) manager_runtime \<Rightarrow> manager_options \<Rightarrow> 'cw option \<Rightarrow> 'cw option \<Rightarrow>
     'cw tls_option arrays \<Rightarrow> 'm \<Rightarrow> unit exec \<times> 'm" where
  "run_manager mrt opts metricsCertWatcher webhookCertWatcher h =
     or_exit_with (GetConfig mrt) (\<lambda>cfg.
     or_exit_with (NewManager mrt cfg opts h) (\<lambda>mgr.
     or_exit (SetupWithManager mrt mgr) (
     or_exit (add_watcher mrt mgr metricsCertWatcher) (
     or_exit (add_watcher mrt mgr webhookCertWatcher) (
     or_exit (AddHealthzCheck mrt mgr ''healthz'') (
     or_exit (AddReadyzCheck mrt mgr ''readyz'') (
     or_exit (MgrStart mrt mgr h) (\<lambda>w. (Running (), w)))))))))"

definition manager_main ::
  "('m, 'w, 'q, 'cw, 'cfg, 'mgr) manager_runtime \<Rightarrow> string list \<Rightarrow> 'm \<Rightarrow> unit exec \<times> 'm" where
  "manager_main mrt args w =
     (case parse_flags (ExtraFlags mrt) args default_flags of
        Inl err \<Rightarrow> (Exited (parse_exit err), w)
      | Inr fs \<Rightarrow>
          continue (tls_setup mrt fs) (\<lambda>((webhookCertWatcher, webhookTLSOpts), (metricsCertWatcher, metricsTLSOpts), h).
          run_manager mrt (options_of fs webhookTLSOpts metricsTLSOpts) metricsCertWatcher webhookCertWatcher h) w)"

section \<open>Runs\<close>

lemma or_exit_cases [consumes 1, case_names failed went_on]:
  assumes "or_exit m k w = (r, w')"
  obtains err where "m w = (Some err, w')" and "r = Exited 1"
  | w1 where "m w = (None, w1)" and "k w1 = (r, w')"
  using assms by (auto simp: or_exit_def split: prod.splits option.splits)

lemma or_exit_with_cases [consumes 1, case_names failed went_on]:
  assumes "or_exit_with m k w = (r, w')"
  obtains err where "m w = (Inl err, w')" and "r = Exited 1"
  | x w1 where "m w = (Inr x, w1)" and "k x w1 = (r, w')"
  using assms by (auto simp: or_exit_with_def split: prod.splits sum.splits)

lemma continue_cases [consumes 1, case_names ended went_on]:
  assumes "continue m k w = (r, w')"
  obtains n where "m w = (Exited n, w')" and "r = Exited n"
  | x w1 where "m w = (Running x, w1)" and "k x w1 = (r, w')"
  using assms by (auto simp: continue_def split: prod.splits exec.splits)

section \<open>Slices: what \<open>append\<close> does\<close>

definition slice_ok :: "'a arrays \<Rightarrow> slice \<Rightarrow> bool" where
  "slice_ok h s \<longleftrightarrow> Len s \<le> Cap s \<and>
     (0 < Cap s \<longrightarrow> Backing s < length h \<and> length (h ! Backing s) = Cap s \<and>
        (\<forall>i < Len s. h ! Backing s ! i \<noteq> None))"

lemma nil_slice_ok [simp]: "slice_ok h nil_slice" "elements h nil_slice = []"
  by (simp_all add: slice_ok_def nil_slice_def elements_def)

lemma append_elements:
  assumes "slice_ok h s" and "Len s + 1 \<le> grow (Cap s) (Len s + 1)" and "go_append grow s x h = (s', h')"
  shows "slice_ok h' s' \<and> elements h' s' = elements h s @ [x]"
proof (cases "Len s < Cap s")
  case True
  with assms have b: "Backing s < length h" "length (h ! Backing s) = Cap s" and
    some: "\<forall>i < Len s. h ! Backing s ! i \<noteq> None"
    and s': "s' = s\<lparr>Len := Len s + 1\<rparr>" and h': "h' = h[Backing s := (h ! Backing s)[Len s := Some x]]"
    by (simp_all add: slice_ok_def go_append_def)
  have "slice_ok h' s'"
    using True b some by (auto simp: slice_ok_def s' h' nth_list_update)
  moreover have "take (Suc (Len s)) ((h ! Backing s)[Len s := Some x]) = take (Len s) (h ! Backing s) @ [Some x]"
    using True b by (simp add: take_Suc_conv_app_nth)
  then have "elements h' s' = elements h s @ [x]"
    using b by (auto simp: elements_def s' h')
  ultimately show ?thesis by blast
next
  case False
  have "length (elements h s) = Len s"
    using assms(1) by (auto simp: elements_def slice_ok_def)
  with False assms(2,3) show ?thesis
    by (auto simp: go_append_def Let_def slice_ok_def elements_def nth_append map_idI)
qed

text \<open>Appending to a full slice writes to no array that there is.\<close>

lemma append_full:
  assumes "go_append grow s x h = (s', h')" and "\<not> Len s < Cap s" and "slice_ok h t"
  shows "slice_ok h' t \<and> elements h' t = elements h t"
  using assms by (auto simp: go_append_def Let_def slice_ok_def elements_def nth_append)

section \<open>TLS options of the two servers\<close>

definition apply_options :: "'cw tls_option arrays \<Rightarrow> slice \<Rightarrow> 'cw tls_option" where
  "apply_options h s c = fold (\<lambda>opt c. opt c) (elements h s) c"

lemma initial_tls_ok:
  assumes "enableHTTP2 fs \<or> NextCap mrt 0 1 = 1" and "initial_tls mrt fs = (s, h)"
  shows "slice_ok h s \<and> \<not> Len s < Cap s \<and> elements h s = (if enableHTTP2 fs then [] else [disableHTTP2])"
  using assms
  by (auto simp: initial_tls_def go_append_def nil_slice_def elements_def slice_ok_def split: if_splits)

lemma with_certificates_Running:
  assumes "with_certificates mrt path name key opts h w = (Running (watcher, s', h'), w')"
    and "slice_ok h opts" and "\<not> Len opts < Cap opts" and "\<And>c n. n \<le> NextCap mrt c n"
  shows "slice_ok h' s' \<and>
    elements h' s' = elements h opts @ (case watcher of None \<Rightarrow> [] | Some cw \<Rightarrow> [use_certificates cw]) \<and>
    (watcher \<noteq> None \<longleftrightarrow> path \<noteq> '''') \<and>
    (\<forall>t. slice_ok h t \<longrightarrow> slice_ok h' t \<and> elements h' t = elements h t)"
proof (cases "path = ''''")
  case True
  with assms(1,2) show ?thesis by (simp add: with_certificates_def)
next
  case False
  with assms(1) have "or_exit_with (CertWatcherNew mrt (filepath_Join path name) (filepath_Join path key))
      (\<lambda>cw w. (Running (Some cw, go_append (NextCap mrt) opts (use_certificates cw) h), w)) w =
      (Running (watcher, s', h'), w')" by (simp add: with_certificates_def)
  then obtain cw where watcher: "watcher = Some cw"
    and app: "go_append (NextCap mrt) opts (use_certificates cw) h = (s', h')"
    by (cases rule: or_exit_with_cases) auto
  from append_elements [OF assms(2,4) app] append_full [OF app assms(3)] False show ?thesis
    by (simp add: watcher)
qed

text \<open>With spare capacity both servers append to the one array that their slices share.\<close>

lemma with_certificates_spare:
  assumes "with_certificates mrt path name key \<lparr>Backing = 0, Len = 1, Cap = n\<rparr> [a # b # rest] w =
      (Running (watcher, s', h'), w')" and "1 < n"
  shows "path = '''' \<and> watcher = None \<and> s' = \<lparr>Backing = 0, Len = 1, Cap = n\<rparr> \<and> h' = [a # b # rest] \<or>
    (\<exists>cw. path \<noteq> '''' \<and> watcher = Some cw \<and> s' = \<lparr>Backing = 0, Len = 2, Cap = n\<rparr> \<and>
       h' = [a # Some (use_certificates cw) # rest])"
  using assms
  by (auto simp: with_certificates_def go_append_def split: if_splits elim!: or_exit_with_cases)

definition own_options :: "manager_flags \<Rightarrow> string \<Rightarrow> 'cw option \<Rightarrow> 'cw tls_option" where
  "own_options fs path watcher c =
     \<lparr>NextProtos = (if enableHTTP2 fs then NextProtos c else [''http/1.1'']),
      GetCertificate = (if path = '''' then GetCertificate c else watcher)\<rparr>"

lemma own_options_apply:
  assumes "elements h s = (if enableHTTP2 fs then [] else [disableHTTP2]) @
      (case watcher of None \<Rightarrow> [] | Some cw \<Rightarrow> [use_certificates cw])"
    and "watcher \<noteq> None \<longleftrightarrow> path \<noteq> ''''"
  shows "apply_options h s = own_options fs path watcher"
  using assms
  by (auto simp: apply_options_def own_options_def disableHTTP2_def use_certificates_def fun_eq_iff split: option.splits)

lemma tls_setup_parts:
  assumes "tls_setup mrt fs w =
      (Running ((webhookCertWatcher, webhookTLSOpts), (metricsCertWatcher, metricsTLSOpts), h), w')"
  obtains s0 h0 h1 w1 where "initial_tls mrt fs = (s0, h0)"
    and "with_certificates mrt (webhookCertPath fs) (webhookCertName fs) (webhookCertKey fs) s0 h0 w =
        (Running (webhookCertWatcher, webhookTLSOpts, h1), w1)"
    and "with_certificates mrt (metricsCertPath fs) (metricsCertName fs) (metricsCertKey fs) s0 h1 w1 =
        (Running (metricsCertWatcher, metricsTLSOpts, h), w')"
proof -
  obtain s0 h0 where init: "initial_tls mrt fs = (s0, h0)" by fastforce
  with assms show ?thesis by (auto simp: tls_setup_def elim!: continue_cases intro: that)
qed

lemma separate_options:
  assumes "enableHTTP2 fs \<or> NextCap mrt 0 1 = 1" and "\<And>c n. n \<le> NextCap mrt c n"
    and "tls_setup mrt fs w =
      (Running ((webhookCertWatcher, webhookTLSOpts), (metricsCertWatcher, metricsTLSOpts), h), w')"
  shows "apply_options h webhookTLSOpts = own_options fs (webhookCertPath fs) webhookCertWatcher \<and>
    apply_options h metricsTLSOpts = own_options fs (metricsCertPath fs) metricsCertWatcher"
proof -
  obtain s0 h0 h1 w1 where init: "initial_tls mrt fs = (s0, h0)"
    and webhook: "with_certificates mrt (webhookCertPath fs) (webhookCertName fs) (webhookCertKey fs) s0 h0 w =
        (Running (webhookCertWatcher, webhookTLSOpts, h1), w1)"
    and metrics: "with_certificates mrt (metricsCertPath fs) (metricsCertName fs) (metricsCertKey fs) s0 h1 w1 =
        (Running (metricsCertWatcher, metricsTLSOpts, h), w')"
    by (rule tls_setup_parts [OF assms(3)])
  note s0 = initial_tls_ok [OF assms(1) init]
  note first = with_certificates_Running [OF webhook _ _ assms(2)]
  note second = with_certificates_Running [OF metrics _ _ assms(2)]
  from s0 first second show ?thesis by (intro conjI own_options_apply) auto
qed

lemma shared_options:
  assumes "\<not> enableHTTP2 fs" and "NextCap mrt 0 1 \<noteq> 1" and "1 \<le> NextCap mrt 0 1"
    and "tls_setup mrt fs w =
      (Running ((webhookCertWatcher, webhookTLSOpts), (metricsCertWatcher, metricsTLSOpts), h), w')"
  shows "apply_options h webhookTLSOpts = own_options fs (webhookCertPath fs)
      (if metricsCertPath fs = '''' then webhookCertWatcher else metricsCertWatcher) \<and>
    apply_options h metricsTLSOpts = own_options fs (metricsCertPath fs) metricsCertWatcher"
proof -
  let ?n = "NextCap mrt 0 1"
  from assms(2,3) have n: "1 < ?n" by simp
  then obtain k where k: "?n = Suc (Suc k)" by (auto dest!: less_imp_Suc_add)
  obtain s0 h0 h1 w1 where init: "initial_tls mrt fs = (s0, h0)"
    and webhook: "with_certificates mrt (webhookCertPath fs) (webhookCertName fs) (webhookCertKey fs) s0 h0 w =
        (Running (webhookCertWatcher, webhookTLSOpts, h1), w1)"
    and metrics: "with_certificates mrt (metricsCertPath fs) (metricsCertName fs) (metricsCertKey fs) s0 h1 w1 =
        (Running (metricsCertWatcher, metricsTLSOpts, h), w')"
    by (rule tls_setup_parts [OF assms(4)])
  have s0: "s0 = \<lparr>Backing = 0, Len = 1, Cap = ?n\<rparr>" "h0 = [Some disableHTTP2 # None # replicate k None]"
    using init assms(1) k by (auto simp: initial_tls_def go_append_def nil_slice_def elements_def Let_def)
  from with_certificates_spare [OF webhook [unfolded s0] n] obtain b where
    h1: "h1 = [Some disableHTTP2 # b # replicate k None]"
    and first: "webhookCertPath fs = '''' \<and> webhookCertWatcher = None \<and> Len webhookTLSOpts = 1 \<and> Backing webhookTLSOpts = 0 \<or>
      (\<exists>cw. webhookCertPath fs \<noteq> '''' \<and> webhookCertWatcher = Some cw \<and> Len webhookTLSOpts = 2 \<and>
        Backing webhookTLSOpts = 0 \<and> b = Some (use_certificates cw))" by auto
  from with_certificates_spare [OF metrics [unfolded s0(1) h1] n] first assms(1) show ?thesis
    by (auto simp: apply_options_def own_options_def elements_def disableHTTP2_def use_certificates_def fun_eq_iff
        numeral_2_eq_2)
qed

text \<open>C23: the TLS settings of the two servers, whose slices of options grow out of the same one. Both speak
  HTTP/1.1 only unless HTTP/2 was enabled. The metrics server presents the certificates of its own watcher exactly
  when a path was given for them, and so does the webhook server, except in one case: with HTTP/2
  off, paths given for both, and a runtime whose first \<open>append\<close> to a nil slice leaves spare capacity,
  the webhook server presents the certificates of the metrics server.\<close>

theorem tls_options_applied:
  assumes "\<And>c n. n \<le> NextCap mrt c n"
    and "tls_setup mrt fs w = (Running ((webhookCertWatcher, webhookTLSOpts), (metricsCertWatcher, metricsTLSOpts), h), w')"
  shows "apply_options h webhookTLSOpts c =
      \<lparr>NextProtos = (if enableHTTP2 fs then NextProtos c else [''http/1.1'']),
       GetCertificate =
         (if webhookCertPath fs = '''' then GetCertificate c
          else if \<not> enableHTTP2 fs \<and> metricsCertPath fs \<noteq> '''' \<and> NextCap mrt 0 1 \<noteq> 1 then metricsCertWatcher
          else webhookCertWatcher)\<rparr> \<and>
    apply_options h metricsTLSOpts c =
      \<lparr>NextProtos = (if enableHTTP2 fs then NextProtos c else [''http/1.1'']),
       GetCertificate = (if metricsCertPath fs = '''' then GetCertificate c else metricsCertWatcher)\<rparr>"
proof (cases "enableHTTP2 fs \<or> NextCap mrt 0 1 = 1")
  case True
  from separate_options [OF True assms] True show ?thesis by (auto simp: own_options_def)
next
  case False
  with shared_options [OF _ _ assms(1) assms(2)] show ?thesis by (simp add: own_options_def)
qed

section \<open>What is registered when the manager starts\<close>

datatype ('w, 'cw) registration =
  Runs "('w, 'cw) runnable" | Controls "'w controller" | Healthz string | Readyz string

definition watchers :: "'cw option \<Rightarrow> ('w, 'cw) registration list" where
  "watchers watcher = (case watcher of None \<Rightarrow> [] | Some cw \<Rightarrow> [Runs (CertRunner cw)])"

text \<open>What \<open>main\<close> registers, in its order.\<close>

definition all_registered ::
  "('m, 'w, 'q, 'cw, 'cfg, 'mgr) manager_runtime \<Rightarrow> 'mgr \<Rightarrow> 'cw option \<Rightarrow> 'cw option \<Rightarrow> ('w, 'cw) registration list" where
  "all_registered mrt mgr metricsCertWatcher webhookCertWatcher =
     [Runs (StartupRunner (Start (GetClient mrt mgr))), Controls (tenant_controller (GetClient mrt mgr))] @
     watchers metricsCertWatcher @ watchers webhookCertWatcher @ [Healthz ''healthz'', Readyz ''readyz'']"

text \<open>The manager keeps what is added to it, in order, and is started by \<open>Start\<close> alone.\<close>

locale manager_client =
  fixes mrt :: "('m, 'w, 'q, 'cw, 'cfg, 'mgr) manager_runtime"
    and registered :: "'m \<Rightarrow> ('w, 'cw) registration list"
    and started :: "'m \<Rightarrow> bool"
  assumes cert_watcher: "CertWatcherNew mrt c k w = (cw, w') \<Longrightarrow> started w' = started w"
    and config: "GetConfig mrt w = (cfg, w') \<Longrightarrow> started w' = started w"
    and new_manager: "NewManager mrt cf opts h w = (m, w') \<Longrightarrow>
      started w' = started w \<and> (\<forall>mgr. m = Inr mgr \<longrightarrow> registered w' = [])"
    and add: "MgrAdd mrt mgr x w = (e, w') \<Longrightarrow>
      started w' = started w \<and> (e = None \<longrightarrow> registered w' = registered w @ [Runs x])"
    and complete: "CompleteController mrt mgr ctl w = (e, w') \<Longrightarrow>
      started w' = started w \<and> (e = None \<longrightarrow> registered w' = registered w @ [Controls ctl])"
    and healthz: "AddHealthzCheck mrt mgr n w = (e, w') \<Longrightarrow>
      started w' = started w \<and> (e = None \<longrightarrow> registered w' = registered w @ [Healthz n])"
    and readyz: "AddReadyzCheck mrt mgr n w = (e, w') \<Longrightarrow>
      started w' = started w \<and> (e = None \<longrightarrow> registered w' = registered w @ [Readyz n])"
begin

text \<open>A call that, when it succeeds, adds some registrations and never starts the manager.\<close>

definition adds :: "('m \<Rightarrow> go_error option \<times> 'm) \<Rightarrow> ('w, 'cw) registration list \<Rightarrow> bool" where
  "adds m xs \<longleftrightarrow> (\<forall>w e w'. m w = (e, w') \<longrightarrow>
     started w' = started w \<and> (e = None \<longrightarrow> registered w' = registered w @ xs))"

lemma or_exit_adds:
  assumes "or_exit m k w = (r, w')" and "adds m xs" and "started w \<noteq> started w'"
  obtains w1 where "k w1 = (r, w')" and "registered w1 = registered w @ xs" and "started w1 \<noteq> started w'"
  using assms(1)
proof (cases rule: or_exit_cases)
  case (failed err)
  with assms(2,3) show ?thesis by (auto simp: adds_def)
next
  case (went_on w1)
  with assms(2,3) have "registered w1 = registered w @ xs" "started w1 \<noteq> started w'" by (auto simp: adds_def)
  with went_on(2) show ?thesis by (rule that)
qed

lemma watcher_adds: "adds (add_watcher mrt mgr watcher) (watchers watcher)"
  using add by (cases watcher) (simp_all add: adds_def add_watcher_def watchers_def)

lemma setup_adds:
  "adds (SetupWithManager mrt mgr)
    [Runs (StartupRunner (Start (GetClient mrt mgr))), Controls (tenant_controller (GetClient mrt mgr))]"
  unfolding adds_def SetupWithManager_def using add complete
  by (fastforce split: prod.splits option.splits)

lemma check_adds:
  "adds (AddHealthzCheck mrt mgr n) [Healthz n]" "adds (AddReadyzCheck mrt mgr n) [Readyz n]"
  using healthz readyz by (simp_all add: adds_def)

lemma certificates_unstarted:
  assumes "with_certificates mrt path name key opts h w = (r, w')"
  shows "started w' = started w"
  using assms cert_watcher
  by (auto simp: with_certificates_def split: if_splits elim!: or_exit_with_cases)

lemma run_manager_starts:
  assumes "run_manager mrt opts metricsCertWatcher webhookCertWatcher h w = (r, w')" and "started w \<noteq> started w'"
  shows "\<exists>mgr w1 e. MgrStart mrt mgr h w1 = (e, w') \<and>
    registered w1 = all_registered mrt mgr metricsCertWatcher webhookCertWatcher \<and>
    r = (if e = None then Running () else Exited 1)"
  using assms(1) unfolding run_manager_def
proof (cases rule: or_exit_with_cases)
  case (failed err)
  with assms(2) show ?thesis by (auto dest: config)
next
  case (went_on cfg w0)
  with assms(2) have unstarted: "started w0 \<noteq> started w'" using config by metis
  from went_on(2) show ?thesis
  proof (cases rule: or_exit_with_cases)
    case (failed err)
    with unstarted show ?thesis by (auto dest: new_manager)
  next
    case (went_on mgr w1)
    with unstarted have w1: "started w1 \<noteq> started w'" "registered w1 = []"
      using new_manager [OF went_on(1)] by auto
    from or_exit_adds [OF went_on(2) setup_adds w1(1)] obtain w2
      where k: "or_exit (add_watcher mrt mgr metricsCertWatcher) (or_exit (add_watcher mrt mgr webhookCertWatcher)
        (or_exit (AddHealthzCheck mrt mgr ''healthz'') (or_exit (AddReadyzCheck mrt mgr ''readyz'')
        (or_exit (MgrStart mrt mgr h) (\<lambda>w. (Running (), w)))))) w2 = (r, w')"
      and w2: "registered w2 = registered w1 @ [Runs (StartupRunner (Start (GetClient mrt mgr))),
        Controls (tenant_controller (GetClient mrt mgr))]" "started w2 \<noteq> started w'" .
    from or_exit_adds [OF k watcher_adds w2(2)] obtain w3 where k: "or_exit (add_watcher mrt mgr webhookCertWatcher)
        (or_exit (AddHealthzCheck mrt mgr ''healthz'') (or_exit (AddReadyzCheck mrt mgr ''readyz'')
        (or_exit (MgrStart mrt mgr h) (\<lambda>w. (Running (), w))))) w3 = (r, w')"
      and w3: "registered w3 = registered w2 @ watchers metricsCertWatcher" "started w3 \<noteq> started w'" .
    from or_exit_adds [OF k watcher_adds w3(2)] obtain w4
      where k: "or_exit (AddHealthzCheck mrt mgr ''healthz'') (or_exit (AddReadyzCheck mrt mgr ''readyz'')
        (or_exit (MgrStart mrt mgr h) (\<lambda>w. (Running (), w)))) w4 = (r, w')"
      and w4: "registered w4 = registered w3 @ watchers webhookCertWatcher" "started w4 \<noteq> started w'" .
    from or_exit_adds [OF k check_adds(1) w4(2)] obtain w5 where k: "or_exit (AddReadyzCheck mrt mgr ''readyz'')
        (or_exit (MgrStart mrt mgr h) (\<lambda>w. (Running (), w))) w5 = (r, w')"
      and w5: "registered w5 = registered w4 @ [Healthz ''healthz'']" "started w5 \<noteq> started w'" .
    from or_exit_adds [OF k check_adds(2) w5(2)] obtain w6
      where k: "or_exit (MgrStart mrt mgr h) (\<lambda>w. (Running (), w)) w6 = (r, w')"
      and w6: "registered w6 = registered w5 @ [Readyz ''readyz'']" .
    from w1(2) w2(1) w3(1) w4(1) w5(1) w6
    have "registered w6 = all_registered mrt mgr metricsCertWatcher webhookCertWatcher"
      by (simp add: all_registered_def)
    with k show ?thesis by (auto elim!: or_exit_cases)
  qed
qed

lemma tls_setup_unstarted: "tls_setup mrt fs w = (r, w') \<Longrightarrow> started w' = started w"
  unfolding tls_setup_def
  by (auto simp: split_def Let_def elim!: continue_cases dest!: certificates_unstarted)

lemma main_starts:
  assumes "manager_main mrt args w = (r, w')" and "started w \<noteq> started w'"
  shows "\<exists>fs webhookCertWatcher webhookTLSOpts metricsCertWatcher metricsTLSOpts h wt mgr w1 e.
    parse_flags (ExtraFlags mrt) args default_flags = Inr fs \<and>
    tls_setup mrt fs w = (Running ((webhookCertWatcher, webhookTLSOpts), (metricsCertWatcher, metricsTLSOpts), h), wt) \<and>
    MgrStart mrt mgr h w1 = (e, w') \<and>
    registered w1 = all_registered mrt mgr metricsCertWatcher webhookCertWatcher \<and>
    r = (if e = None then Running () else Exited 1)"
proof (cases "parse_flags (ExtraFlags mrt) args default_flags")
  case (Inl err)
  with assms show ?thesis by (simp add: manager_main_def)
next
  case (Inr fs)
  with assms(1) have "continue (tls_setup mrt fs) (\<lambda>((wcw, ws), (mcw, ms), h).
      run_manager mrt (options_of fs ws ms) mcw wcw h) w = (r, w')" by (simp add: manager_main_def)
  then show ?thesis
  proof (cases rule: continue_cases)
    case (ended n)
    with assms(2) show ?thesis by (auto dest: tls_setup_unstarted)
  next
    case (went_on x wt)
    obtain wcw ws mcw ms h where x: "x = ((wcw, ws), (mcw, ms), h)" by (metis prod.exhaust)
    from assms(2) tls_setup_unstarted [OF went_on(1)] have "started wt \<noteq> started w'" by simp
    moreover from went_on(2) have "run_manager mrt (options_of fs ws ms) mcw wcw h wt = (r, w')"
      by (simp add: x)
    ultimately obtain mgr w1 e where "MgrStart mrt mgr h w1 = (e, w')"
      "registered w1 = all_registered mrt mgr mcw wcw" "r = (if e = None then Running () else Exited 1)"
      using run_manager_starts by metis
    with Inr went_on(1) x show ?thesis by blast
  qed
qed

end

section \<open>Properties of \<open>main\<close>\<close>

text \<open>C22: the manager starts fully set up: if a run of \<open>main\<close> starts it, then its command line parsed, the
  startup runnable, the reconciler with the pod watch, the certificate watchers of exactly the given
  paths and both probes are registered, in this order, and \<open>main\<close> ends with status 1 if the manager
  stops with an error.\<close>

theorem starts_fully_registered:
  assumes "manager_client mrt registered started" and "manager_main mrt args w = (r, w')"
    and "\<not> started w" and "started w'"
  shows "\<exists>fs webhookCertWatcher webhookTLSOpts metricsCertWatcher metricsTLSOpts h wt mgr w1 e.
    parse_flags (ExtraFlags mrt) args default_flags = Inr fs \<and>
    tls_setup mrt fs w = (Running ((webhookCertWatcher, webhookTLSOpts), (metricsCertWatcher, metricsTLSOpts), h), wt) \<and>
    MgrStart mrt mgr h w1 = (e, w') \<and>
    registered w1 = all_registered mrt mgr metricsCertWatcher webhookCertWatcher \<and>
    r = (if e = None then Running () else Exited 1)"
  by (rule manager_client.main_starts [OF assms(1,2)]) (use assms(3,4) in simp)

section \<open>A manager that records\<close>

text \<open>The world of the witnesses: what was registered, and whether \<open>Start\<close> was called. A certificate watcher
  is the path of its certificate; \<open>cap\<close> is the capacity that a first \<open>append\<close> gets.\<close>

record main_world =
  mw_registered :: "(mem_world, string) registration list"
  mw_started :: bool

definition fresh_main :: main_world where
  "fresh_main = \<lparr>mw_registered = [], mw_started = False\<rparr>"

definition registering :: "(mem_world, string) registration \<Rightarrow> main_world \<Rightarrow> go_error option \<times> main_world" where
  "registering x w = (None, w\<lparr>mw_registered := mw_registered w @ [x]\<rparr>)"

definition recording_runtime :: "nat \<Rightarrow> (main_world, mem_world, int, string, unit, unit) manager_runtime" where
  "recording_runtime cap = \<lparr>ExtraFlags = (\<lambda>n. None), NextCap = (\<lambda>c n. if c = 0 then max n cap else n + n),
     CertWatcherNew = (\<lambda>c k w. (Inr c, w)), GetConfig = (\<lambda>w. (Inr (), w)),
     NewManager = (\<lambda>cfg opts h w. (Inr (), w\<lparr>mw_registered := []\<rparr>)), GetClient = (\<lambda>mgr. mem_runtime),
     MgrAdd = (\<lambda>mgr x. registering (Runs x)), CompleteController = (\<lambda>mgr c. registering (Controls c)),
     AddHealthzCheck = (\<lambda>mgr n. registering (Healthz n)), AddReadyzCheck = (\<lambda>mgr n. registering (Readyz n)),
     MgrStart = (\<lambda>mgr h w. (None, w\<lparr>mw_started := True\<rparr>))\<rparr>"

interpretation recording: manager_client "recording_runtime cap" mw_registered mw_started for cap
  by unfold_locales (auto simp: recording_runtime_def registering_def)

definition tls_args :: "string list" where
  "tls_args = [''--webhook-cert-path=/webhook'', ''--metrics-cert-path'', ''/metrics/'']"

definition tls_flags :: manager_flags where
  "tls_flags = default_flags\<lparr>webhookCertPath := ''/webhook'', metricsCertPath := ''/metrics/''\<rparr>"

lemma tls_flags_parsed: "parse_flags (\<lambda>n. None) tls_args default_flags = Inr tls_flags"
  by code_simp

lemma certificate_paths:
  "filepath_Join ''/webhook'' ''tls.crt'' = ''/webhook/tls.crt''"
  "filepath_Join ''/metrics/'' ''tls.crt'' = ''/metrics/tls.crt''"
  by code_simp+

text \<open>With spare capacity in the shared array the second \<open>append\<close> overwrites what the first one wrote: the
  webhook server would present the certificates of the metrics server. The code relies on the
  capacity that the runtime happens to choose.\<close>

lemma append_capacity_matters:
  "case tls_setup (recording_runtime 2) tls_flags fresh_main of
     (Running ((webhookCertWatcher, webhookTLSOpts), (metricsCertWatcher, metricsTLSOpts), h), w) \<Rightarrow>
       webhookCertWatcher = Some ''/webhook/tls.crt'' \<and>
       GetCertificate (apply_options h webhookTLSOpts \<lparr>NextProtos = [], GetCertificate = None\<rparr>) =
         Some ''/metrics/tls.crt''
   | _ \<Rightarrow> False"
  by code_simp

section \<open>Witnesses\<close>

theorem tls_options_applied_witness:
  "\<exists>webhookTLSOpts metrics h w' webhookTLSOpts' metrics' h' w''.
    tls_setup (recording_runtime 1) tls_flags fresh_main =
      (Running ((Some ''/webhook/tls.crt'', webhookTLSOpts), (Some ''/metrics/tls.crt'', metrics), h), w') \<and>
    GetCertificate (apply_options h webhookTLSOpts \<lparr>NextProtos = [], GetCertificate = None\<rparr>) = Some ''/webhook/tls.crt'' \<and>
    tls_setup (recording_runtime 2) tls_flags fresh_main =
      (Running ((Some ''/webhook/tls.crt'', webhookTLSOpts'), (Some ''/metrics/tls.crt'', metrics'), h'), w'') \<and>
    GetCertificate (apply_options h' webhookTLSOpts' \<lparr>NextProtos = [], GetCertificate = None\<rparr>) = Some ''/metrics/tls.crt''"
proof -
  have run: "\<exists>ws ms h w'. tls_setup (recording_runtime n) tls_flags fresh_main =
      (Running ((Some ''/webhook/tls.crt'', ws), (Some ''/metrics/tls.crt'', ms), h), w')" if "n \<in> {1, 2}" for n
  proof -
    have "case tls_setup (recording_runtime n) tls_flags fresh_main of
        (Running ((wcw, ws), (mcw, ms), h), w) \<Rightarrow> wcw = Some ''/webhook/tls.crt'' \<and> mcw = Some ''/metrics/tls.crt''
      | _ \<Rightarrow> False" using that by (elim insertE emptyE; hypsubst) code_simp+
    then show ?thesis by (auto split: prod.splits exec.splits)
  qed
  have cap: "n' \<le> NextCap (recording_runtime n) c n'" for n c n' by (simp add: recording_runtime_def)
  have grow: "NextCap (recording_runtime 1) 0 1 = 1" "NextCap (recording_runtime 2) 0 1 \<noteq> 1"
    by (simp_all add: recording_runtime_def)
  have flags: "webhookCertPath tls_flags \<noteq> ''''" "metricsCertPath tls_flags \<noteq> ''''" "\<not> enableHTTP2 tls_flags"
    by (simp_all add: tls_flags_def default_flags_def)
  let ?c = "\<lparr>NextProtos = [], GetCertificate = None\<rparr>"
  obtain ws ms h w' where 1: "tls_setup (recording_runtime 1) tls_flags fresh_main =
      (Running ((Some ''/webhook/tls.crt'', ws), (Some ''/metrics/tls.crt'', ms), h), w')" using run [of 1] by auto
  obtain ws' ms' h' w'' where 2: "tls_setup (recording_runtime 2) tls_flags fresh_main =
      (Running ((Some ''/webhook/tls.crt'', ws'), (Some ''/metrics/tls.crt'', ms'), h'), w'')" using run [of 2] by auto
  have "GetCertificate (apply_options h ws ?c) = Some ''/webhook/tls.crt''"
    using tls_options_applied [OF cap 1, of ?c] grow flags by simp
  moreover have "GetCertificate (apply_options h' ws' ?c) = Some ''/metrics/tls.crt''"
    using tls_options_applied [OF cap 2, of ?c] grow flags by simp
  ultimately show ?thesis using 1 2 by blast
qed

theorem starts_fully_registered_witness:
  "\<exists>webhookCertWatcher metricsCertWatcher h w.
    MgrStart (recording_runtime 1) () h w =
      (None, snd (manager_main (recording_runtime 1) tls_args fresh_main)) \<and>
    mw_registered w = all_registered (recording_runtime 1) () metricsCertWatcher webhookCertWatcher \<and>
    fst (manager_main (recording_runtime 1) tls_args fresh_main) = Running ()"
proof -
  let ?mrt = "recording_runtime 1"
  let ?run = "manager_main ?mrt tls_args fresh_main"
  have run: "?run = (fst ?run, snd ?run)" by simp
  have "\<not> mw_started fresh_main" "mw_started (snd ?run)" by code_simp+
  from starts_fully_registered [OF recording.manager_client_axioms, OF run this]
  obtain wcw mcw h w1 e where start: "MgrStart ?mrt () h w1 = (e, snd ?run)"
    and reg: "mw_registered w1 = all_registered ?mrt () mcw wcw"
    and r: "fst ?run = (if e = None then Running () else Exited 1)" by auto
  from start have "e = None" by (simp add: recording_runtime_def)
  with start reg r show ?thesis by auto
qed

end
