(* ===== verification/Spec2Isabelle.thy ===== *)
theory Spec2Isabelle
  imports Operator PodEvents Isolation TenantService Manager
begin

text \<open>
  A verification library for a Kubernetes operator written in Go. The operator watches
  \<open>TenantEnvironment\<close> resources and gives each tenant a namespace, a resource quota, a backend
  deployment and a PostgreSQL database, either on an instance of its own or on one shared by at most
  ten tenants. This theory imports the others and holds the properties of whole runs.

  \<^bold>\<open>The program and its theories.\<close> Every function of the source is a definition of the same name;
  parts of a long function have names of their own, in the order of the code.

  \<^item> \<open>Prelude\<close>, \<open>GoLib\<close>: Go errors, programs (\<open>'w \<Rightarrow> 'a result \<times> 'w\<close>, the result a value, an error or a
    panic), Go maps with \<open>nil\<close>, strings, \<open>strconv\<close>, 64-bit integers, slices of strings; the collections
    \<open>go_simps\<close>, \<open>go_elims\<close> and \<open>steps_rules\<close> that the component proofs use.
  \<^item> \<open>GoTime\<close>: instants, durations, \<open>float64\<close> as mantissa and exponent, and the whole seconds in which
    \<open>metav1.Time\<close> is written.
  \<^item> \<open>ApiTypes\<close>: \<open>api/v1/tenantenvironment_types.go\<close> and the fields used of the built-in objects.
  \<^item> \<open>Client\<close>: what is outside the repository, as a record of parameters (\<open>runtime\<close>) with its laws as
    locales. \<open>view\<close> maps the world to the stored objects (\<open>cluster\<close>), one partial map per kind.
    \<open>MemClient\<close> is a server that satisfies all the laws, \<open>Samples\<close> the tenants of the witnesses.
  \<^item> \<open>Utils\<close>, \<open>Quota\<close>, \<open>Deployment\<close>: \<open>internal/controller/utils.go\<close>.
  \<^item> \<open>PgInstance\<close>, \<open>PgShared\<close>, \<open>Postgres\<close>: \<open>internal/controller/utils_postgres.go\<close>: the objects of one
    instance; tenant lists, search, registration, removal and cleanup; the two entry points.
  \<^item> \<open>Controller\<close>: \<open>internal/controller/tenantenvironment_controller.go\<close>: \<open>Reconcile\<close>, pod events, \<open>Start\<close>.
  \<^item> \<open>Registry\<close>, \<open>Lifecycle\<close>, \<open>Operator\<close>, \<open>Isolation\<close>, \<open>PodEvents\<close>: what the operations achieve together.
  \<^item> \<open>TenantService\<close>: \<open>tenant-service/main.go\<close>, the backend that the operator deploys.
  \<^item> \<open>Flags\<close>, \<open>Manager\<close>: \<open>cmd/main.go\<close> and \<open>SetupWithManager\<close>.

  \<^bold>\<open>How the parts interact.\<close> \<open>Manager.manager_main\<close> registers \<open>Start\<close>, \<open>Reconcile\<close> and
  \<open>podToTenantEnvironment\<close> with the manager. \<open>Start\<close> creates the shared namespace and configuration.
  \<open>Reconcile\<close> dispatches pod events (requests named \<open>pod-event:pod:tenant\<close>) and takes a tenant through
  finalizer and creation time, provisioning, and deletion. All parts share one state, the API server;
  the operator keeps none of its own. The assignment of tenants to shared instances is kept as text in
  an annotation of the stateful set, with its length in a label that the search reads.

  \<^bold>\<open>What is proved.\<close>

  \<^item> Components: each operation is a contract, \<open>ensures\<close> or \<open>provides\<close> (its object is there afterwards, and
    nothing else changed), or a step relation that holds for any outcome (\<open>only_adds\<close>, \<open>only_reaps\<close>,
    \<open>same_tenants\<close>). \<open>list_codec\<close>, \<open>tenant_registry\<close>, \<open>id_names\<close> and \<open>event_codec\<close> are the contracts of the
    textual encodings, interpreted on the code's own functions.
  \<^item> \<open>Registry\<close>: an abstract table of tenants per instance. Provisioning and deprovisioning only \<open>enrol\<close> and
    \<open>expel\<close> the tenant, whatever their outcome, and respect the capacity unless the search fails and the
    identifier drawn for the new instance already names one. A failed removal is never made up for.
  \<^item> \<open>Lifecycle\<close>, \<open>Operator\<close>: what a successful reconciliation establishes or cleans up, that a second one
    changes nothing, and that \<open>operator_inv\<close> holds in every run of the transition system
    \<open>operator_step\<close>: reconciliations with any outcome, restarts and changes by others, in any order.
    \<open>environment_step\<close> is what others may do between the steps: anything, except that shared
    stateful sets are left alone, tenants have valid and distinct identifiers, and a tenant either
    keeps its identifier and database status or is one that no instance lists.
  \<^item> \<open>Isolation\<close>: every operation, whatever its outcome, writes only to the namespace of its tenant, the
    shared namespace and the tenant itself, so other tenants are left as they are. A dedicated
    database stays within the namespace of its tenant. A tenant left at \<open>Provisioning\<close> stays there in
    every run of the operator by itself (\<open>controller_run\<close>, \<open>given_up\<close>).
  \<^item> \<open>PodEvents\<close>: requests made of pods lead back to pod and tenant; readiness is marked once.
  \<^item> \<open>TenantService\<close>: the connection loop is a \<open>partial_function\<close>; with a driver whose database comes up
    (\<open>db_driver\<close>) it returns after a bounded number of rounds and has closed the handles of the failed
    ones, and the operator's secret is a complete environment for it.
  \<^item> \<open>Manager\<close>: nothing starts before everything is registered; the TLS options that each server ends up
    with, whose slices share an array to begin with. With HTTP/2 off and certificates given for both
    servers they rest on how much capacity the runtime gives a slice (\<open>NextCap\<close>, a parameter).

  The last section before the witnesses states failures that the code does not recover from.

  \<^bold>\<open>Bounds and fuel.\<close> No definition needs fuel. The controller's loops are structural recursions over lists.
  \<open>RetryOnConflict\<close> is a parameter whose law says that it runs its function some number of times and
  returns the last outcome. Replicas are 32-bit words, quota arithmetic wraps at 64 bits. The
  clock shows nanoseconds; a time is stored in whole seconds, as RFC 3339 has it; a duration is a 64-bit
  count of nanoseconds that saturates, and is recorded in seconds as a float of 53 bits.

  \<^bold>\<open>What is assumed of the cluster.\<close> Any call can fail, and a failed write may have taken effect. During one
  run of an operation nobody else writes, and reads are current (the cache of controller-runtime can
  lag behind). Objects are stored as sent, in the fields that are modelled, with server-set identifier
  and version; a status update changes only the status, with its times in whole
  seconds, an update of a tenant never does, and one
  that leaves a tenant under deletion without finalizers removes it. The scripts of the jobs are text; what
  they do in PostgreSQL is outside. The loops over Go maps follow the order of the association list;
  what is proved of them does not depend on it. The answer of a status update is decoded into the object that
  was sent: it takes the stored finalizers, unless there are none, when it keeps its own.

  \<^bold>\<open>Not modelled.\<close> Log calls; \<open>api/v1/groupversion_info.go\<close> and the two \<open>init\<close> functions (scheme and metric
  registration); the generated \<open>zz_generated.deepcopy.go\<close>; the logger set-up in \<open>main\<close>; the tests, test
  runners and the web interface.
\<close>

section \<open>Runs of the operator\<close>

text \<open>C1: in every run of the operator, reconciliations with any outcome, restarts and changes of the rest of
  the cluster in any order, the invariant holds throughout: the tenant lists and the counts of the
  shared instances agree, no tenant is registered twice, and a tenant whose database is not yet
  assigned is registered nowhere.\<close>

theorem operator_runs_safe:
  assumes "cluster_client rt view" and "operator_run rt view w w'" and "operator_inv (view w)"
  shows "operator_inv (view w')"
  by (rule cluster_client.operator_run_inv [OF assms])

text \<open>C2: a reconciliation of a live tenant that reports success has established what the spec asks for: the
  namespace, the resource quota with exactly the desired entries, the backend deployment with the
  replicas and version of the spec and, if the database was unassigned, a database in place (with a
  consistent registration when it is shared) and the status \<open>Assigned\<close>.\<close>

theorem live_reconciliation_establishes:
  assumes "cluster_client rt view" and "quantity (Quantities rt) amount"
    and "Reconcile rt req w = (Ok (b, None), w')" and "plain_request req"
    and "stored_tenant (view w) req t" and "\<not> is_deleting t" and "is_marked t" and "operator_inv (view w)"
  shows "established (Quantities rt) (view w') t \<and>
    (unassigned t \<longrightarrow> has_database (view w') t \<and>
      (\<exists>t'. stored_tenant (view w') req t' \<and> same_tenant t t' \<and> DatabaseStatus (Status t') = ''Assigned''))"
proof -
  have "QCmp (Quantities rt) q q = 0" for q using assms(2) by (simp add: quantity.cmp_equal)
  note live = cluster_client.live_established [OF assms(1,3-8), OF this]
  show ?thesis using live by blast
qed

text \<open>C6: reconciling a live tenant that carries the finalizer again changes nothing: after a successful
  reconciliation of it another successful one leaves the whole cluster as it is.\<close>

theorem reconciliation_settles:
  assumes "cluster_client rt view" and "quantity (Quantities rt) amount"
    and "Reconcile rt req w = (Ok (b, None), w1)" and "Reconcile rt req w1 = (Ok (b', None), w2)"
    and "plain_request req" and "stored_tenant (view w) req t" and "\<not> is_deleting t" and "is_marked t"
    and "operator_inv (view w)"
  shows "view w2 = view w1"
proof -
  have "QCmp (Quantities rt) q q = 0" for q using assms(2) by (simp add: quantity.cmp_equal)
  from cluster_client.reconcile_settles [OF assms(1,3-9), OF this] show ?thesis .
qed

text \<open>C4: the finalizer guards the cleanup: whatever the outcome of a reconciliation of a tenant under
  deletion, if it changed the stored tenants at all, then the tenant's namespace and quota are gone or
  terminating and no shared instance lists the tenant any more.\<close>

theorem finalizer_guards_cleanup:
  assumes "cluster_client rt view" and "Reconcile rt req w = (r, w')" and "plain_request req"
    and "stored_tenant (view w) req t" and "is_deleting t" and "operator_inv (view w)"
    and "cl_tenants (view w') \<noteq> cl_tenants (view w)"
  shows "cleaned_up (view w') t"
  by (rule cluster_client.finalizer_guard [OF assms])

text \<open>C3: tenants are kept apart: a reconciliation of any request, whatever its outcome, leaves every tenant
  but the one it is about as it is stored, and everything in that tenant's namespace, the namespace
  included.\<close>

theorem tenants_isolated:
  assumes "cluster_client rt view" and "Reconcile rt req w = (r, w')" and "operator_inv (view w)"
    and "cl_tenants (view w) k = Some s" and "k \<noteq> addressed req"
  shows "same_namespace (''tenant-'' @ uid_of s) (view w) (view w') \<and> cl_tenants (view w') k = Some s"
proof -
  have "tenants_sound (view w)" using assms(3) by (simp add: operator_inv_def)
  from cluster_client.reconcile_isolated [OF assms(1,2) this assms(4,5)] show ?thesis .
qed

text \<open>C5: a successful reconciliation of a tenant under deletion whose only finalizer is the operator's
  releases it: it is no longer stored and its resources are cleaned up.\<close>

theorem deletion_completes:
  assumes "cluster_client rt view" and "Reconcile rt req w = (Ok (b, None), w')" and "plain_request req"
    and "stored_tenant (view w) req t" and "is_deleting t"
    and "MetaFinalizers (ObjectMeta t) = [tenantEnvironmentFinalizer]" and "operator_inv (view w)"
  shows "cl_tenants (view w') (''default'', RequestName req) = None \<and> cleaned_up (view w') t"
  using cluster_client.deletion_releases [OF assms] by blast

text \<open>C11: a reconciliation never changes the spec or identity of a tenant, moves the database status only from
  unassigned to provisioning to assigned, and never changes a creation or readiness time that is set,
  whatever its outcome and whatever the request.\<close>

theorem status_moves_forward:
  assumes "cluster_client rt view" and "Reconcile rt req w = (r, w')"
  shows "tenants_progress (view w) (view w')"
  by (rule cluster_client.Reconcile_progress [OF assms])


text \<open>C18: provisioning is not tried again: for a live tenant whose status is no longer unassigned, a
  reconciliation changes no object of the database part and no tenant, whatever its outcome. A tenant
  left at \<open>Provisioning\<close> by a failed attempt stays there.\<close>

theorem provisioning_not_retried:
  assumes "cluster_client rt view" and "Reconcile rt req w = (r, w')" and "plain_request req"
    and "stored_tenant (view w) req t" and "\<not> is_deleting t" and "is_marked t" and "\<not> unassigned t"
  shows "same_database (view w) (view w')"
  by (rule cluster_client.not_retried [OF assms])

text \<open>C33: starting the operator only adds objects, whatever its outcome, and when it succeeds the shared
  namespace and the PostgreSQL configuration that every instance mounts are there.\<close>

theorem startup_prepares:
  assumes "cluster_client rt view" and "Start rt w = (r, w')"
  shows "only_adds (view w) (view w') \<and>
    (r = Ok () \<longrightarrow> cl_namespaces (view w') ('''', ''shared-services'') \<noteq> None \<and>
       cl_config_maps (view w') (''shared-services'', ''postgresql-config'') \<noteq> None)"
  by (rule cluster_client.start_prepares [OF assms])

section \<open>Pod events\<close>

text \<open>C16: the request made of a pod leads back to it: it is for the one stored tenant of namespace \<open>default\<close>
  that the pod's label names, it is dispatched to the pod event handler, and, names being free of
  colons, the handler splits it into the name of the pod and the name of the tenant.\<close>

theorem pod_event_roundtrip:
  assumes "cluster_client rt view" and "podToTenantEnvironment rt (Some pod) w = (Ok reqs, w')"
    and "req \<in> set reqs" and "colon_free (name_of pod)"
    and "\<And>k t. cl_tenants (view w) k = Some t \<Longrightarrow> colon_free (name_of t)"
  shows "\<exists>t. cl_tenants (view w) (RequestNamespace req, name_of t) = Some t \<and>
    gm_lookup (labels_of pod) tenant_uid_label = Some (uid_of t) \<and>
    strings_Split CHR '':'' (RequestName req) = [''pod-event'', name_of pod, name_of t] \<and>
    Reconcile rt req = handlePodEventFromMapping rt req"
proof -
  from cluster_client.mapped_request [OF assms(1), OF assms(2,3)] obtain t
    where t: "cl_tenants (view w) (''default'', name_of t) = Some t" "RequestNamespace req = ''default''"
      and name: "RequestName req = event_name (name_of pod) (name_of t)"
      and label: "gm_lookup (labels_of pod) tenant_uid_label = Some (uid_of t)" by blast
  have "Reconcile rt req = handlePodEventFromMapping rt req"
    by (simp add: Reconcile_def name event_name_prefix fun_eq_iff)
  moreover have "strings_Split CHR '':'' (RequestName req) = [''pod-event'', name_of pod, name_of t]"
    unfolding name by (rule event_name_split [OF assms(4) assms(5) [OF t(1)]])
  ultimately show ?thesis using t label by metis
qed

text \<open>C14: an event of a ready pod that is handled without an error marks a waiting tenant ready at the time
  the clock showed, stored in whole seconds, and records the seconds since the creation time as a
  floating-point number, if that time is known: one observation, with the fraction of a second and
  under the label of the tenant's kind of database. Nothing else changes.\<close>

theorem ready_pod_marks_tenant:
  assumes "cluster_client rt view" and "handlePodEventFromMapping rt req w = (Ok (b, None), w')"
    and "strings_Split CHR '':'' (RequestName req) = [x, p, n]"
    and "cl_tenants (view w) (RequestNamespace req, n) = Some t" and "ReadyAt (Status t) = None"
    and "cl_pods (view w) (''tenant-'' @ uid_of t, p) = Some pod" and "pod_is_ready pod"
    and "gm_lookup (labels_of pod) tenant_uid_label \<noteq> None"
  shows "\<exists>now w0 w1 t'. view w0 = view w \<and> TimeNow rt w0 = (Ok now, w1) \<and> same_tenant t t' \<and>
    Status t' = (Status t)\<lparr>ReadyAt := Some (whole_second now), Phase := ''Ready''\<rparr> \<and>
    view w' = (view w)
      \<lparr>cl_tenants := (cl_tenants (view w))((RequestNamespace req, n) \<mapsto> t'),
       cl_observed := cl_observed (view w) @
         (case CreatedAt (Status t) of
            None \<Rightarrow> []
          | Some c \<Rightarrow> [(if DedicatedInstance (Database (Spec t)) then ''true'' else ''false'',
              duration_Seconds (time_Sub now c))])\<rparr>"
  by (rule cluster_client.ready_marked [OF assms])

text \<open>C15: a tenant is marked ready once: an event for a tenant that has its readiness time changes nothing and
  records nothing, whatever its outcome.\<close>

theorem ready_only_once:
  assumes "cluster_client rt view" and "handlePodEventFromMapping rt req w = (r, w')"
    and "strings_Split CHR '':'' (RequestName req) = [x, p, n]"
    and "cl_tenants (view w) (RequestNamespace req, n) = Some t" and "ReadyAt (Status t) \<noteq> None"
  shows "view w' = view w"
  by (rule cluster_client.ready_once [OF assms])

section \<open>What can go wrong\<close>

definition acme_request :: request where
  "acme_request = \<lparr>RequestNamespace = ''default'', RequestName = ''acme''\<rparr>"

definition live_tenant :: "bool \<Rightarrow> int tenant_environment" where
  "live_tenant dedicated = with_finalizers [tenantEnvironmentFinalizer] (sample_tenant dedicated)"

text \<open>A tenant created three seconds after the epoch, with a ready pod, at 10.5 seconds.\<close>

definition waiting_world :: "bool \<Rightarrow> mem_world" where
  "waiting_world dedicated = empty_world\<lparr>
     w_clock := 10500000000,
     w_tenants := [(live_tenant dedicated)\<lparr>Status := (Status (live_tenant dedicated))\<lparr>CreatedAt := Some 3000000000\<rparr>\<rparr>],
     w_pods := [\<lparr>ObjectMeta = no_meta\<lparr>MetaName := ''backend-7d'', MetaNamespace := ''tenant-0a1b2c3d-4e5f'',
         MetaLabels := Some [(tenant_uid_label, ''0a1b2c3d-4e5f''),
           (''tenant.core.mellifluus.io/component'', ''backend-service'')]\<rparr>,
       PodConditions = [\<lparr>ConditionType = ''Ready'', ConditionStatus = ''True''\<rparr>]\<rparr>]\<rparr>"

definition ready_request :: request where
  "ready_request = \<lparr>RequestNamespace = ''default'', RequestName = ''pod-event:backend-7d:acme''\<rparr>"

text \<open>C38: a database whose provisioning failed is abandoned: once a live tenant that carries the finalizer is
  left at the status \<open>Provisioning\<close>, it keeps that status in every run of the operator by itself,
  whatever is reconciled, with whatever outcome, and however often the operator restarts; its
  registrations with shared instances and the database objects of its namespace stay exactly as the failed attempt
  left them.\<close>

theorem provisioning_abandoned:
  assumes "cluster_client rt view" and "controller_run rt w w'" and "operator_inv (view w)"
    and "given_up (view w) (''default'', n) t"
  shows "given_up (view w') (''default'', n) t \<and> same_provisioning t (view w) (view w')"
  using cluster_client.run_given_up [OF assms] by blast

text \<open>C39: the provisioning time is recorded before the status that prevents a second recording: when the
  handling of an event fails after it recorded a duration, and the tenant was not updated, the next handling that
  succeeds records a second duration for the same tenant under the same label.\<close>

theorem duration_recorded_twice:
  assumes "cluster_client rt view" and "strings_Split CHR '':'' (RequestName req) = [x, p, n]"
    and "cl_tenants (view w) (RequestNamespace req, n) = Some t"
    and "handlePodEventFromMapping rt req w = (Ok (b1, Some e), w1)"
    and "cl_observed (view w1) \<noteq> cl_observed (view w)" and "cl_tenants (view w1) = cl_tenants (view w)"
    and "handlePodEventFromMapping rt req w1 = (Ok (b2, None), w2)"
  shows "\<exists>c now1 now2. CreatedAt (Status t) = Some c \<and>
    cl_observed (view w2) = cl_observed (view w) @
      (let label = (if DedicatedInstance (Database (Spec t)) then ''true'' else ''false'')
       in [(label, duration_Seconds (time_Sub now1 c)), (label, duration_Seconds (time_Sub now2 c))])"
  unfolding Let_def by (rule cluster_client.recorded_again [OF assms])

section \<open>Witnesses\<close>

lemma mem_started: "operator_inv (mem_view (sample_world t))" if "valid_uid (uid_of t)"
  using that
  by (auto simp: operator_inv_def registries_consistent_def listed_once_def tenants_sound_def
      unassigned_unlisted_def listed_def mem_view_def tenants_of_def sample_world_def empty_world_def stored_def
      split: if_splits)

lemma live_tenant_simps [simp]:
  "uid_of (live_tenant d) = ''0a1b2c3d-4e5f''" "key_of (live_tenant d) = (''default'', ''acme'')"
  "\<not> is_deleting (live_tenant d)" "is_marked (live_tenant d)" "Spec (live_tenant d) = Spec (sample_tenant d)"
  "Status (live_tenant d) = Status (sample_tenant d)"
  by (simp_all add: live_tenant_def is_deleting_def is_marked_def key_of_def)
    (simp_all add: sample_tenant_def)

lemma status_wired [simp]: "wired (set_database_status s t) = set_database_status s (wired t)"
  by (simp add: wired_def set_database_status_def wire_status_update)

lemma live_wired [simp]: "wired (live_tenant d) = live_tenant d"
  by (simp add: live_tenant_def)

lemma live_world:
  "operator_inv (mem_view (sample_world (live_tenant d)))"
  "stored_tenant (mem_view (sample_world (live_tenant d))) acme_request (live_tenant d)"
  by (rule mem_started) (simp_all add: valid_uid_def stored_tenant_def acme_request_def mem_view_def tenants_of_def
    sample_world_def empty_world_def stored_def)

lemma acme_plain [simp]: "plain_request acme_request"
  by (simp add: plain_request_def acme_request_def strings_HasPrefix_def)

definition first_run :: "bool \<Rightarrow> outcome result \<times> mem_world" where
  "first_run d = Reconcile mem_runtime acme_request (sample_world (live_tenant d))"

definition second_run :: "bool \<Rightarrow> outcome result \<times> mem_world" where
  "second_run d = Reconcile mem_runtime acme_request (snd (first_run d))"

lemma first_run_Ok: "Reconcile mem_runtime acme_request (sample_world (live_tenant False)) =
    (Ok (False, None), snd (first_run False))"
proof -
  have "fst (first_run False) = Ok (False, None)" by code_simp
  then show ?thesis unfolding first_run_def by (rule evaluated)
qed

lemma second_run_Ok: "Reconcile mem_runtime acme_request (snd (first_run False)) =
    (Ok (False, None), snd (second_run False))"
proof -
  have "fst (second_run False) = Ok (False, None)" by code_simp
  then show ?thesis unfolding second_run_def by (rule evaluated)
qed

theorem operator_runs_safe_witness: "operator_inv (mem_view (snd (second_run False)))"
proof -
  have "operator_run mem_runtime mem_view (sample_world (live_tenant False)) (snd (second_run False))"
    by (rule operator_run.step [OF operator_run.step [OF operator_run.start]])
      (rule operator_step.reconcile, rule first_run_Ok, rule operator_step.reconcile, rule second_run_Ok)
  from operator_runs_safe [OF mem_client, OF this live_world(1)] show ?thesis .
qed

theorem live_reconciliation_establishes_witness:
  "established mem_quantities (mem_view (snd (first_run False))) (live_tenant False) \<and>
    has_database (mem_view (snd (first_run False))) (live_tenant False)"
proof -
  have "unassigned (live_tenant False)" by (simp add: unassigned_def sample_tenant_def)
  with live_reconciliation_establishes [OF mem_client mem_quantity, OF first_run_Ok acme_plain live_world(2)
      live_tenant_simps(3,4) live_world(1)] show ?thesis by simp
qed

theorem reconciliation_settles_witness:
  "mem_view (snd (second_run False)) = mem_view (snd (first_run False))"
  by (rule reconciliation_settles [OF mem_client mem_quantity, OF first_run_Ok second_run_Ok acme_plain
      live_world(2) live_tenant_simps(3,4) live_world(1)])


text \<open>A tenant under deletion, with its namespace and a registration with a shared instance.\<close>

definition leaving_tenant :: "int tenant_environment" where
  "leaving_tenant = terminating 7 ''2'' (set_database_status ''Assigned'' (live_tenant False))"

definition leaving_world :: mem_world where
  "leaving_world = (sample_shared_world [''0a1b2c3d-4e5f'', ''f0000000-9999''])\<lparr>
     w_namespaces := [tenant_namespace_object (sample_tenant False)], w_tenants := [leaving_tenant]\<rparr>"

lemma leaving_tenant_simps [simp]:
  "uid_of leaving_tenant = ''0a1b2c3d-4e5f''" "key_of leaving_tenant = (''default'', ''acme'')"
  "is_deleting leaving_tenant" "\<not> unassigned leaving_tenant"
  "MetaFinalizers (ObjectMeta leaving_tenant) = [tenantEnvironmentFinalizer]"
  by (simp_all add: leaving_tenant_def is_deleting_def unassigned_def)
    (simp_all add: terminating_def live_tenant_def)

lemma leaving_wired [simp]: "wired leaving_tenant = leaving_tenant"
  by (simp add: leaving_tenant_def)

lemma leaving_view:
  "cl_tenants (mem_view leaving_world) k = (if k = (''default'', ''acme'') then Some leaving_tenant else None)"
  "cl_stateful_sets (mem_view leaving_world) = cl_stateful_sets (mem_view
    (sample_shared_world [''0a1b2c3d-4e5f'', ''f0000000-9999'']))"
  by (auto simp: mem_view_def tenants_of_def leaving_world_def stored_def)

lemma leaving_stored: "stored_tenant (mem_view leaving_world) acme_request leaving_tenant"
  by (simp add: stored_tenant_def acme_request_def leaving_view)

lemma leaving_inv: "operator_inv (mem_view leaving_world)"
proof (rule operator_invI)
  let ?us = "[''0a1b2c3d-4e5f'', ''f0000000-9999'']"
  have "registries_consistent (mem_view (sample_shared_world ?us))"
    by (rule sample_consistent) (simp_all add: valid_uid_def)
  then show "registries_consistent (mem_view leaving_world)"
    by (simp add: registries_consistent_def leaving_view(2))
  have "listed (mem_view leaving_world) = listed (mem_view (sample_shared_world ?us))"
    by (simp add: fun_eq_iff listed_def leaving_view(2))
  moreover have "n = ''postgresql-abcdef''" if "listed (mem_view (sample_shared_world ?us)) n u" for n u
    using that by (auto simp: listed_def mem_view_def sample_set_stored split: if_splits)
  ultimately show "listed_once (mem_view leaving_world)"
    unfolding listed_once_def by metis
  show "tenants_sound (mem_view leaving_world)" "unassigned_unlisted (mem_view leaving_world)"
    by (auto simp: tenants_sound_def unassigned_unlisted_def leaving_view(1) valid_uid_def split: if_splits)
qed

definition leaving_run :: "outcome result \<times> mem_world" where
  "leaving_run = Reconcile mem_runtime acme_request leaving_world"

lemma leaving_run_Ok: "Reconcile mem_runtime acme_request leaving_world = (Ok (False, None), snd leaving_run)"
proof -
  have "fst leaving_run = Ok (False, None)" by code_simp
  then show ?thesis unfolding leaving_run_def by (rule evaluated)
qed

theorem finalizer_guards_cleanup_witness: "cleaned_up (mem_view (snd leaving_run)) leaving_tenant"
proof -
  have "cl_tenants (mem_view (snd leaving_run)) (''default'', ''acme'') = None" by code_simp
  then have "cl_tenants (mem_view (snd leaving_run)) \<noteq> cl_tenants (mem_view leaving_world)"
    by (auto simp: leaving_view(1) dest: fun_cong [of _ _ "(''default'', ''acme'')"])
  from finalizer_guards_cleanup [OF mem_client, OF leaving_run_Ok acme_plain leaving_stored
      leaving_tenant_simps(3) leaving_inv this] show ?thesis .
qed

theorem deletion_completes_witness:
  "cl_tenants (mem_view (snd leaving_run)) (''default'', ''acme'') = None \<and>
    cleaned_up (mem_view (snd leaving_run)) leaving_tenant"
  using deletion_completes [OF mem_client, OF leaving_run_Ok acme_plain leaving_stored
    leaving_tenant_simps(3,5) leaving_inv] by (simp add: acme_request_def)

theorem status_moves_forward_witness:
  "tenants_progress (mem_view (sample_world (live_tenant False))) (mem_view (snd (first_run False)))"
  by (rule status_moves_forward [OF mem_client, OF first_run_Ok])





text \<open>The server that refuses to create the init job leaves the tenant at \<open>Provisioning\<close>.\<close>

definition stuck_tenant :: "int tenant_environment" where
  "stuck_tenant = set_database_status ''Provisioning'' (live_tenant False)"

theorem provisioning_not_retried_witness:
  "same_database (mem_view (sample_world stuck_tenant))
    (mem_view (snd (Reconcile mem_runtime acme_request (sample_world stuck_tenant))))"
proof -
  let ?run = "Reconcile mem_runtime acme_request (sample_world stuck_tenant)"
  have run: "?run = (fst ?run, snd ?run)" by simp
  have stored: "stored_tenant (mem_view (sample_world stuck_tenant)) acme_request stuck_tenant"
    by (simp add: stored_tenant_def mem_view_def tenants_of_def sample_world_def empty_world_def stored_def
        acme_request_def
        stuck_tenant_def)
  have "\<not> is_deleting stuck_tenant" "is_marked stuck_tenant" "\<not> unassigned stuck_tenant"
    using live_tenant_simps(3,4) [of False]
    by (simp_all add: stuck_tenant_def is_marked_def is_deleting_def unassigned_def)
      (simp add: set_database_status_def)
  from provisioning_not_retried [OF mem_client, OF run acme_plain stored this] show ?thesis .
qed

theorem startup_prepares_witness:
  "cl_namespaces (mem_view (snd (Start mem_runtime empty_world))) ('''', ''shared-services'') \<noteq> None"
proof -
  have "Start mem_runtime empty_world = (Ok (), snd (Start mem_runtime empty_world))"
    by (rule evaluated) code_simp
  from startup_prepares [OF mem_client this] show ?thesis by blast
qed

text \<open>The event of the ready pod of \<open>waiting_world\<close>.\<close>

definition backend_pod :: pod where
  "backend_pod = hd (w_pods (waiting_world False))"

lemma waiting_view:
  "cl_tenants (mem_view (waiting_world d)) k =
    (if k = (''default'', ''acme'')
     then Some ((live_tenant d)\<lparr>Status := (Status (live_tenant d))\<lparr>CreatedAt := Some 3000000000\<rparr>\<rparr>) else None)"
proof -
  have "key_of ((live_tenant d)\<lparr>Status := (Status (live_tenant d))\<lparr>CreatedAt := Some 3000000000\<rparr>\<rparr>) = (''default'', ''acme'')"
    using live_tenant_simps(2) [of d] by (simp add: key_of_def)
  then show ?thesis
    by (simp add: mem_view_def tenants_of_def waiting_world_def stored_def wire_status_update whole_second_def)
qed

theorem pod_event_roundtrip_witness:
  "strings_Split CHR '':'' (RequestName ready_request) = [''pod-event'', ''backend-7d'', ''acme''] \<and>
    Reconcile mem_runtime ready_request = handlePodEventFromMapping mem_runtime ready_request"
proof -
  let ?w = "waiting_world False"
  have run: "podToTenantEnvironment mem_runtime (Some backend_pod) ?w =
      (Ok [ready_request], snd (podToTenantEnvironment mem_runtime (Some backend_pod) ?w))"
    by (rule evaluated) code_simp
  have pod: "name_of backend_pod = ''backend-7d''" by code_simp
  have name: "name_of t = ''acme''" if "cl_tenants (mem_view ?w) k = Some t" for k t
    using that live_tenant_simps(2) [of False] by (auto simp: waiting_view key_of_def split: if_splits)
  have "colon_free (name_of backend_pod)" "colon_free ''acme''"
    by (simp_all add: pod colon_free_def)
  with pod_event_roundtrip [OF mem_client, OF run _ _, of ready_request] name
  obtain t where "cl_tenants (mem_view ?w) (RequestNamespace ready_request, name_of t) = Some t"
    and "strings_Split CHR '':'' (RequestName ready_request) = [''pod-event'', name_of backend_pod, name_of t]"
    and "Reconcile mem_runtime ready_request = handlePodEventFromMapping mem_runtime ready_request" by fastforce
  with name pod show ?thesis by simp
qed

definition ready_run :: "outcome result \<times> mem_world" where
  "ready_run = handlePodEventFromMapping mem_runtime ready_request (waiting_world True)"

lemma ready_split: "strings_Split CHR '':'' (RequestName ready_request) = [''pod-event'', ''backend-7d'', ''acme'']"
  by code_simp

theorem ready_pod_marks_tenant_witness:
  "\<exists>now t'. cl_tenants (mem_view (snd ready_run)) (''default'', ''acme'') = Some t' \<and>
    ReadyAt (Status t') = Some 10000000000 \<and>
    w_observed (snd ready_run) = [(''true'', duration_Seconds (time_Sub now 3000000000))] \<and>
    duration_Seconds (time_Sub now 3000000000) = Float64 (15 * 2 ^ 49) (- 50)"
proof -
  let ?w = "waiting_world True"
  have run: "handlePodEventFromMapping mem_runtime ready_request ?w = (Ok (False, None), snd ready_run)"
  proof -
    have "fst ready_run = Ok (False, None)" by code_simp
    then show ?thesis unfolding ready_run_def by (rule evaluated)
  qed
  have pod: "cl_pods (mem_view ?w) (''tenant-'' @ uid_of ((live_tenant True)\<lparr>Status := (Status (live_tenant True))
        \<lparr>CreatedAt := Some 3000000000\<rparr>\<rparr>), ''backend-7d'') = Some backend_pod"
    by code_simp
  have ready: "pod_is_ready backend_pod" "gm_lookup (labels_of backend_pod) tenant_uid_label \<noteq> None"
    by code_simp+
  have tenant: "cl_tenants (mem_view ?w) (RequestNamespace ready_request, ''acme'') =
      Some ((live_tenant True)\<lparr>Status := (Status (live_tenant True))\<lparr>CreatedAt := Some 3000000000\<rparr>\<rparr>)"
    by (simp add: waiting_view ready_request_def)
  have waiting: "ReadyAt (Status ((live_tenant True)\<lparr>Status := (Status (live_tenant True))\<lparr>CreatedAt := Some 3000000000\<rparr>\<rparr>)) = None"
    by code_simp
  have observed: "cl_observed (mem_view ?w) = []" "cl_observed (mem_view (snd ready_run)) = w_observed (snd ready_run)"
    by (simp_all add: mem_view_def waiting_world_def empty_world_def)
  have seconds: "w_observed (snd ready_run) = [(''true'', Float64 (15 * 2 ^ 49) (- 50))]" by code_simp
  have time: "case cl_tenants (mem_view (snd ready_run)) (''default'', ''acme'') of
      None \<Rightarrow> False | Some t' \<Rightarrow> ReadyAt (Status t') = Some 10000000000" by code_simp
  from ready_pod_marks_tenant [OF mem_client, OF run ready_split tenant waiting pod ready] obtain now t' where
    "cl_tenants (mem_view (snd ready_run)) (''default'', ''acme'') = Some t'"
    "w_observed (snd ready_run) = [(''true'', duration_Seconds (time_Sub now 3000000000))]"
    by (auto simp: observed(1) ready_request_def simp flip: observed(2))
  with seconds time show ?thesis by (intro exI [of _ now] exI [of _ t']) simp
qed

theorem ready_only_once_witness:
  "mem_view (snd (handlePodEventFromMapping mem_runtime ready_request (snd ready_run))) = mem_view (snd ready_run)"
proof -
  let ?run = "handlePodEventFromMapping mem_runtime ready_request (snd ready_run)"
  have run: "?run = (fst ?run, snd ?run)" by simp
  have "(case cl_tenants (mem_view (snd ready_run)) (''default'', ''acme'') of
      None \<Rightarrow> False | Some t \<Rightarrow> ReadyAt (Status t) \<noteq> None)" by code_simp
  then obtain t where t: "cl_tenants (mem_view (snd ready_run)) (''default'', ''acme'') = Some t"
    and ready: "ReadyAt (Status t) \<noteq> None" by (auto split: option.splits)
  have "cl_tenants (mem_view (snd ready_run)) (RequestNamespace ready_request, ''acme'') = Some t"
    by (simp add: t ready_request_def)
  from ready_only_once [OF mem_client, OF run ready_split this ready] show ?thesis .
qed

text \<open>A first attempt fails at the init job; the next reconciliation succeeds, and starts the backend.\<close>

definition failed_attempt :: "outcome result \<times> mem_world" where
  "failed_attempt = Reconcile flaky_runtime acme_request (sample_world (live_tenant False))"

definition next_attempt :: "outcome result \<times> mem_world" where
  "next_attempt = Reconcile flaky_runtime acme_request (snd failed_attempt)"

lemma failed_attempt_run:
  "Reconcile flaky_runtime acme_request (sample_world (live_tenant False)) = (fst failed_attempt, snd failed_attempt)"
  by (simp add: failed_attempt_def)

lemma failed_attempt_gives_up: "given_up (mem_view (snd failed_attempt)) (''default'', ''acme'') (live_tenant False)"
proof -
  have "case cl_tenants (mem_view (snd failed_attempt)) (''default'', ''acme'') of
      None \<Rightarrow> False | Some t \<Rightarrow> MetaDeletionTimestamp (ObjectMeta t) = None \<and>
        MetaFinalizers (ObjectMeta t) = [tenantEnvironmentFinalizer] \<and> DatabaseStatus (Status t) = ''Provisioning''"
    by code_simp
  then obtain t where t: "cl_tenants (mem_view (snd failed_attempt)) (''default'', ''acme'') = Some t"
    "\<not> is_deleting t" "is_marked t" "DatabaseStatus (Status t) = ''Provisioning''"
    by (auto simp: is_deleting_def is_marked_def split: option.splits)
  from tenants_progressD [OF cluster_client.Reconcile_progress [OF flaky_client failed_attempt_run] t(1)]
  have "same_tenant (live_tenant False) t"
    using live_world(2) [of False] by (auto simp: stored_tenant_def acme_request_def)
  with t show ?thesis by (auto simp: given_up_def)
qed

theorem provisioning_abandoned_witness:
  "fst failed_attempt \<noteq> Ok (False, None) \<and> fst next_attempt = Ok (False, None) \<and>
    given_up (mem_view (snd next_attempt)) (''default'', ''acme'') (live_tenant False) \<and>
    same_provisioning (live_tenant False) (mem_view (snd failed_attempt)) (mem_view (snd next_attempt)) \<and>
    w_jobs (snd next_attempt) = [] \<and> map name_of (w_deployments (snd next_attempt)) = [''backend''] \<and>
    map tenant_list_of (w_stateful_sets (snd next_attempt)) = [[]]"
proof -
  have "Reconcile flaky_runtime acme_request (snd failed_attempt) = (fst next_attempt, snd next_attempt)"
    by (simp add: next_attempt_def)
  then have "controller_run flaky_runtime (snd failed_attempt) (snd next_attempt)"
    by (intro controller_run.step [OF controller_run.start] controller_step.reconcile)
  moreover have "operator_inv (mem_view (snd failed_attempt))"
    by (rule cluster_client.Reconcile_inv [OF flaky_client failed_attempt_run live_world(1)])
  ultimately have "given_up (mem_view (snd next_attempt)) (''default'', ''acme'') (live_tenant False) \<and>
      same_provisioning (live_tenant False) (mem_view (snd failed_attempt)) (mem_view (snd next_attempt))"
    using failed_attempt_gives_up by (rule provisioning_abandoned [OF flaky_client])
  moreover have "fst failed_attempt \<noteq> Ok (False, None)" "fst next_attempt = Ok (False, None)"
    "w_jobs (snd next_attempt) = []" "map name_of (w_deployments (snd next_attempt)) = [''backend'']"
    "map tenant_list_of (w_stateful_sets (snd next_attempt)) = [[]]" by code_simp+
  ultimately show ?thesis by blast
qed

text \<open>A server that refuses the first status update.\<close>

definition refused_event :: "outcome result \<times> mem_world" where
  "refused_event = handlePodEventFromMapping refusing_runtime ready_request (waiting_world False)"

definition repeated_event :: "outcome result \<times> mem_world" where
  "repeated_event = handlePodEventFromMapping refusing_runtime ready_request (snd refused_event)"

theorem duration_recorded_twice_witness:
  "\<exists>d1 d2. w_observed (snd repeated_event) = [(''false'', d1), (''false'', d2)]"
proof -
  let ?w = "waiting_world False"
  have first: "handlePodEventFromMapping refusing_runtime ready_request ?w = (Ok (False, Some Conflict), snd refused_event)"
  proof -
    have "fst refused_event = Ok (False, Some Conflict)" by code_simp
    then show ?thesis unfolding refused_event_def by (rule evaluated)
  qed
  have second: "handlePodEventFromMapping refusing_runtime ready_request (snd refused_event) =
      (Ok (False, None), snd repeated_event)"
  proof -
    have "fst repeated_event = Ok (False, None)" by code_simp
    then show ?thesis unfolding repeated_event_def by (rule evaluated)
  qed
  have tenant: "cl_tenants (mem_view ?w) (RequestNamespace ready_request, ''acme'') =
      Some ((live_tenant False)\<lparr>Status := (Status (live_tenant False))\<lparr>CreatedAt := Some 3000000000\<rparr>\<rparr>)"
    by (simp add: waiting_view ready_request_def)
  have empty: "cl_observed (mem_view ?w) = []" by (simp add: mem_view_def waiting_world_def empty_world_def)
  have "length (w_observed (snd refused_event)) = 1" by code_simp
  then have recorded: "cl_observed (mem_view (snd refused_event)) \<noteq> cl_observed (mem_view ?w)"
    unfolding empty by (auto simp: mem_view_def)
  have "tenants_of (snd refused_event) = tenants_of ?w" by code_simp
  then have kept: "cl_tenants (mem_view (snd refused_event)) = cl_tenants (mem_view ?w)" by (simp add: mem_view_def)
  have label: "\<not> DedicatedInstance (Database (Spec (live_tenant False)))" by simp
  from duration_recorded_twice [OF refusing_client, OF ready_split tenant first recorded kept second] label
  have "\<exists>d1 d2. cl_observed (mem_view (snd repeated_event)) = [(''false'', d1), (''false'', d2)]"
    by (auto simp: empty Let_def)
  then show ?thesis by (simp add: mem_view_def)
qed

text \<open>A second tenant beside the one that leaves.\<close>

definition staying_tenant :: "int tenant_environment" where
  "staying_tenant = (live_tenant True)\<lparr>ObjectMeta := (ObjectMeta (live_tenant True))
     \<lparr>MetaName := ''beta'', MetaUID := ''f0000000-9999''\<rparr>\<rparr>"

definition both_world :: mem_world where
  "both_world = empty_world\<lparr>w_tenants := [set_database_status ''Assigned'' leaving_tenant, staying_tenant],
     w_namespaces := [tenant_namespace_object (sample_tenant False), tenant_namespace_object staying_tenant]\<rparr>"

lemma staying_wired [simp]: "wired staying_tenant = staying_tenant"
  by (simp add: staying_tenant_def)

lemma both_view:
  "cl_tenants (mem_view both_world) k =
    (if k = (''default'', ''acme'') then Some (set_database_status ''Assigned'' leaving_tenant)
     else if k = (''default'', ''beta'') then Some staying_tenant else None)"
  "cl_stateful_sets (mem_view both_world) k = None"
proof -
  have "key_of staying_tenant = (''default'', ''beta'')" by code_simp
  then show "cl_tenants (mem_view both_world) k =
    (if k = (''default'', ''acme'') then Some (set_database_status ''Assigned'' leaving_tenant)
     else if k = (''default'', ''beta'') then Some staying_tenant else None)"
    by (simp add: mem_view_def tenants_of_def both_world_def stored_def)
qed (simp add: mem_view_def both_world_def empty_world_def stored_def)

theorem tenants_isolated_witness:
  "cl_tenants (mem_view (snd (Reconcile mem_runtime acme_request both_world))) (''default'', ''beta'') = Some staying_tenant \<and>
    cl_namespaces (mem_view (snd (Reconcile mem_runtime acme_request both_world))) ('''', ''tenant-f0000000-9999'') =
      cl_namespaces (mem_view both_world) ('''', ''tenant-f0000000-9999'')"
proof -
  let ?run = "Reconcile mem_runtime acme_request both_world"
  have run: "?run = (fst ?run, snd ?run)" by simp
  have uid: "uid_of staying_tenant = ''f0000000-9999''" "DatabaseStatus (Status staying_tenant) = ''''" by code_simp+
  have "operator_inv (mem_view both_world)"
    by (rule operator_invI)
      (auto simp: registries_consistent_def listed_once_def tenants_sound_def unassigned_unlisted_def listed_def
        both_view uid valid_uid_def split: if_splits)
  moreover have "(''default'', ''beta'') \<noteq> addressed acme_request"
    by (simp add: addressed_def acme_request_def strings_HasPrefix_def)
  ultimately show ?thesis
    using tenants_isolated [OF mem_client, OF run _ _, of "(''default'', ''beta'')" staying_tenant]
    by (simp add: both_view(1) uid(1) same_namespace_def)
qed

end
